theory Spec2Isabelle
  imports Main "HOL-Library.Sublist"
begin

section \<open>Go library functions used by sandboxd\<close>

text \<open>
  Go strings are byte strings; they are modelled as \<open>char list\<close> (\<open>string\<close>), one
  \<open>char\<close> per byte. The functions of this section are the functions of Go's
  \<open>strings\<close>, \<open>strconv\<close> and \<open>path/filepath\<close> packages that the handler calls, on a
  Unix host (separator \<open>/\<close>, no volume names) with a 64-bit \<open>int\<close>.
\<close>

definition LF :: char where
  "LF = CHR 0x0A"

definition CR :: char where
  "CR = CHR 0x0D"

text \<open>\<open>strings.HasPrefix(s, p)\<close> and \<open>strings.Contains(s, sub)\<close>.\<close>

definition HasPrefix :: "string \<Rightarrow> string \<Rightarrow> bool" where
  "HasPrefix s p = prefix p s"

definition Contains :: "string \<Rightarrow> string \<Rightarrow> bool" where
  "Contains s sub = sublist sub s"

text \<open>\<open>strings.Split(s, sep)\<close> for a one-byte separator: never empty, \<open>n + 1\<close> fields for
  \<open>n\<close> separators. \<open>pushByte\<close> adds a byte to the first field.\<close>

fun pushByte :: "char \<Rightarrow> string list \<Rightarrow> string list" where
  "pushByte x [] = [[x]]"
| "pushByte x (f # fs) = (x # f) # fs"

fun Split :: "string \<Rightarrow> char \<Rightarrow> string list" where
  "Split [] c = [[]]"
| "Split (x # xs) c = (if x = c then [] # Split xs c else pushByte x (Split xs c))"

text \<open>\<open>strings.Join(elems, sep)\<close>.\<close>

fun Join :: "string list \<Rightarrow> string \<Rightarrow> string" where
  "Join [] sep = []"
| "Join [x] sep = x"
| "Join (x # y # ys) sep = x @ sep @ Join (y # ys) sep"

text \<open>\<open>strings.ReplaceAll(s, "\r\n", "\n")\<close>: non-overlapping occurrences, left to right.\<close>

fun ReplaceAll_CRLF :: "string \<Rightarrow> string" where
  "ReplaceAll_CRLF (a # b # xs) =
     (if a = CR \<and> b = LF then LF # ReplaceAll_CRLF xs
      else a # ReplaceAll_CRLF (b # xs))"
| "ReplaceAll_CRLF xs = xs"

text \<open>
  \<open>strings.TrimSpace\<close> removes leading and trailing Unicode white space. On the bytes of
  the string these are the UTF-8 encodings of the code points for which
  \<open>unicode.IsSpace\<close> holds: TAB, LF, VT, FF, CR, SPACE, U+0085, U+00A0, U+1680,
  U+2000..U+200A, U+2028, U+2029, U+202F, U+205F and U+3000.
\<close>

definition spaceEncodings :: "string list" where
  "spaceEncodings =
     [[CHR 0x09], [CHR 0x0A], [CHR 0x0B], [CHR 0x0C], [CHR 0x0D], [CHR 0x20],
      [CHR 0xC2, CHR 0x85], [CHR 0xC2, CHR 0xA0],
      [CHR 0xE1, CHR 0x9A, CHR 0x80],
      [CHR 0xE2, CHR 0x80, CHR 0x80], [CHR 0xE2, CHR 0x80, CHR 0x81],
      [CHR 0xE2, CHR 0x80, CHR 0x82], [CHR 0xE2, CHR 0x80, CHR 0x83],
      [CHR 0xE2, CHR 0x80, CHR 0x84], [CHR 0xE2, CHR 0x80, CHR 0x85],
      [CHR 0xE2, CHR 0x80, CHR 0x86], [CHR 0xE2, CHR 0x80, CHR 0x87],
      [CHR 0xE2, CHR 0x80, CHR 0x88], [CHR 0xE2, CHR 0x80, CHR 0x89],
      [CHR 0xE2, CHR 0x80, CHR 0x8A],
      [CHR 0xE2, CHR 0x80, CHR 0xA8], [CHR 0xE2, CHR 0x80, CHR 0xA9],
      [CHR 0xE2, CHR 0x80, CHR 0xAF], [CHR 0xE2, CHR 0x81, CHR 0x9F],
      [CHR 0xE3, CHR 0x80, CHR 0x80]]"

text \<open>The number of bytes of the white-space rune that \<open>s\<close> starts with, 0 if none.\<close>

definition leadingSpace :: "string list \<Rightarrow> string \<Rightarrow> nat" where
  "leadingSpace encs s =
     (case List.find (\<lambda>w. prefix w s) encs of None \<Rightarrow> 0 | Some w \<Rightarrow> length w)"

fun trimLeftFuel :: "nat \<Rightarrow> string list \<Rightarrow> string \<Rightarrow> string" where
  "trimLeftFuel 0 encs s = s"
| "trimLeftFuel (Suc n) encs s =
     (if leadingSpace encs s = 0 then s
      else trimLeftFuel n encs (drop (leadingSpace encs s) s))"

text \<open>Each step removes at least one byte, so \<open>length s\<close> steps always suffice.\<close>

definition TrimLeftSpace :: "string \<Rightarrow> string" where
  "TrimLeftSpace s = trimLeftFuel (length s) spaceEncodings s"

definition TrimRightSpace :: "string \<Rightarrow> string" where
  "TrimRightSpace s = rev (trimLeftFuel (length s) (map rev spaceEncodings) (rev s))"

definition TrimSpace :: "string \<Rightarrow> string" where
  "TrimSpace s = TrimRightSpace (TrimLeftSpace s)"

text \<open>
  \<open>strconv.Atoi\<close> where \<open>int\<close> has 64 bits. A string of 1 to 18 bytes takes the fast
  path: an optional sign, then the bytes are accumulated, and a byte that is not a digit
  is a syntax error with value 0. Every other string goes through \<open>ParseInt(s, 10, 0)\<close>
  and \<open>ParseUint\<close>, whose loop looks at one byte at a time: a byte that is not a digit is
  a syntax error with value 0, and a digit that makes the value exceed 64 bits ends the
  loop at once with a range error, whatever follows; \<open>ParseInt\<close> then returns the nearest
  bound of \<open>int64\<close>.
\<close>

datatype atoi_error = ErrSyntax | ErrRange

definition isDigit :: "char \<Rightarrow> bool" where
  "isDigit c = (48 \<le> (of_char c :: nat) \<and> (of_char c :: nat) \<le> 57)"

definition digitVal :: "char \<Rightarrow> int" where
  "digitVal c = of_char c - 48"

text \<open>The loop of \<open>ParseUint\<close> for base 10: the cutoff is \<open>maxUint64/10 + 1\<close>, and the
  test \<open>n1 < n || n1 > maxVal\<close> on the wrapped sum is the test that the sum exceeds
  \<open>maxUint64\<close>.\<close>

fun parseUintDigits :: "int \<Rightarrow> string \<Rightarrow> int \<times> atoi_error option" where
  "parseUintDigits n [] = (n, None)"
| "parseUintDigits n (c # cs) =
     (if \<not> isDigit c then (0, Some ErrSyntax)
      else if 1844674407370955162 \<le> n then (18446744073709551615, Some ErrRange)
      else if 18446744073709551615 < n * 10 + digitVal c
      then (18446744073709551615, Some ErrRange)
      else parseUintDigits (n * 10 + digitVal c) cs)"

definition ParseUint :: "string \<Rightarrow> int \<times> atoi_error option" where
  "ParseUint s = (if s = [] then (0, Some ErrSyntax) else parseUintDigits 0 s)"

definition ParseInt :: "string \<Rightarrow> int \<times> atoi_error option" where
  "ParseInt s =
     (if s = [] then (0, Some ErrSyntax)
      else
        let neg = (hd s = CHR ''-'');
            body = (if hd s = CHR ''+'' \<or> hd s = CHR ''-'' then tl s else s)
        in case ParseUint body of
             (un, err) \<Rightarrow>
               if err = Some ErrSyntax then (0, Some ErrSyntax)
               else if \<not> neg \<and> 9223372036854775808 \<le> un
               then (9223372036854775807, Some ErrRange)
               else if neg \<and> 9223372036854775808 < un
               then (- 9223372036854775808, Some ErrRange)
               else (if neg then - un else un, None))"

text \<open>The loop of the fast path.\<close>

fun parseDigits :: "int \<Rightarrow> string \<Rightarrow> int option" where
  "parseDigits n [] = Some n"
| "parseDigits n (c # cs) =
     (if isDigit c then parseDigits (n * 10 + digitVal c) cs else None)"

definition Atoi :: "string \<Rightarrow> int \<times> atoi_error option" where
  "Atoi s =
     (if 0 < length s \<and> length s < 19 then
        (let signed = (hd s = CHR ''-'' \<or> hd s = CHR ''+'');
             body = (if signed then tl s else s)
         in if signed \<and> body = [] then (0, Some ErrSyntax)
            else case parseDigits 0 body of
                   None \<Rightarrow> (0, Some ErrSyntax)
                 | Some n \<Rightarrow> (if hd s = CHR ''-'' then - n else n, None))
      else ParseInt s)"

subsection \<open>Lexical path functions of \<open>path/filepath\<close>\<close>

definition Separator :: char where
  "Separator = CHR ''/''"

definition filepath_IsAbs :: "string \<Rightarrow> bool" where
  "filepath_IsAbs path = HasPrefix path [Separator]"

text \<open>
  \<open>filepath.Clean\<close> works on the elements between separators: empty elements and
  \<open>.\<close> are dropped, \<open>..\<close> removes the element before it when there is one that is not
  itself a leading \<open>..\<close>, is dropped at the root, and is kept otherwise. The empty
  result is \<open>.\<close>.
\<close>

definition cleanStep :: "bool \<Rightarrow> string list \<Rightarrow> string \<Rightarrow> string list" where
  "cleanStep rooted out e =
     (if e = ''..'' then
        (if out \<noteq> [] \<and> last out \<noteq> ''..'' then butlast out
         else if rooted then out
         else out @ [''..''])
      else out @ [e])"

definition pathElems :: "string \<Rightarrow> string list" where
  "pathElems path = filter (\<lambda>e. e \<noteq> [] \<and> e \<noteq> ''.'') (Split path Separator)"

definition cleanElems :: "bool \<Rightarrow> string \<Rightarrow> string list" where
  "cleanElems rooted path = foldl (cleanStep rooted) [] (pathElems path)"

definition filepath_Clean :: "string \<Rightarrow> string" where
  "filepath_Clean path =
     (if path = [] then ''.''
      else if hd path = Separator then Separator # Join (cleanElems True path) [Separator]
      else if cleanElems False path = [] then ''.''
      else Join (cleanElems False path) [Separator])"

text \<open>\<open>filepath.Join\<close> of two elements: leading empty elements are ignored, the rest is
  joined with the separator and cleaned; all empty gives the empty string.\<close>

definition filepath_Join :: "string \<Rightarrow> string \<Rightarrow> string" where
  "filepath_Join a b =
     (if a \<noteq> [] then filepath_Clean (a @ [Separator] @ b)
      else if b \<noteq> [] then filepath_Clean b
      else [])"

text \<open>\<open>filepath.Dir\<close>: everything up to the last separator, cleaned.\<close>

definition filepath_Dir :: "string \<Rightarrow> string" where
  "filepath_Dir path = filepath_Clean (rev (dropWhile (\<lambda>c. c \<noteq> Separator) (rev path)))"

text \<open>
  \<open>filepath.Rel\<close>. The loop walks both cleaned paths element by element while the elements
  agree; it returns the rest of the base, the base element at which it stopped (empty
  when it ran to the end of a path) and the rest of the target.
\<close>

function relLoop :: "string \<Rightarrow> string \<Rightarrow> string \<times> string \<times> string" where
  "relLoop base targ =
     (if base \<noteq> [] \<and> targ \<noteq> [] then
        (let be = takeWhile (\<lambda>c. c \<noteq> Separator) base;
             te = takeWhile (\<lambda>c. c \<noteq> Separator) targ
         in if te \<noteq> be then (base, be, targ)
            else relLoop (drop (Suc (length be)) base) (drop (Suc (length te)) targ))
      else (base, [], targ))"
  by pat_completeness auto
termination
  by (relation "measure (\<lambda>(base, targ). length base)") auto

definition filepath_Rel :: "string \<Rightarrow> string \<Rightarrow> string option" where
  "filepath_Rel basepath targpath =
     (let base = filepath_Clean basepath; targ = filepath_Clean targpath in
      if targ = base then Some ''.''
      else
        let base = (if base = ''.'' then [] else base) in
        if HasPrefix base [Separator] \<noteq> HasPrefix targ [Separator] then None
        else
          case relLoop base targ of (brest, belem, trest) \<Rightarrow>
            if belem = ''..'' then None
            else if brest \<noteq> [] then
              Some (''..'' @ concat (replicate (count_list brest Separator) ''/..'')
                    @ (if trest \<noteq> [] then Separator # trest else []))
            else Some trest)"

section \<open>Path validation\<close>

text \<open>\<open>resolveWorkPath\<close>: \<open>Inl\<close> carries the error message, \<open>Inr\<close> the target path.\<close>

definition resolveWorkPath :: "string \<Rightarrow> string \<Rightarrow> string + string" where
  "resolveWorkPath workDir name =
     (if name = [] then Inl ''file name is empty''
      else if filepath_IsAbs name then Inl ''absolute paths are not allowed''
      else
        let clean = filepath_Clean name in
        if clean = ''.'' \<or> clean = ''..'' \<or> HasPrefix clean (''..'' @ [Separator])
        then Inl ''path traversal is not allowed''
        else
          let targetPath = filepath_Join workDir clean in
          case filepath_Rel workDir targetPath of
            None \<Rightarrow> Inl ''path escapes work dir''
          | Some rel \<Rightarrow>
              if rel = ''..'' \<or> HasPrefix rel (''..'' @ [Separator])
              then Inl ''path escapes work dir''
              else Inr targetPath)"

section \<open>Console parsing\<close>

text \<open>
  The console file is read once per iteration of a polling loop that runs while
  \<open>time.Now().Before(deadline)\<close>. The loop is modelled over the list of the results of
  \<open>os.ReadFile(fcConsole)\<close> in the iterations that start before the deadline
  (\<open>None\<close> is a read error), followed by the result of the read after the loop.
\<close>

definition exitMarker :: string where
  "exitMarker = ''[guest] exit code:''"

definition haltedMarker :: string where
  "haltedMarker = ''reboot: System halted''"

definition panicMarker :: string where
  "panicMarker = ''Kernel panic''"

definition initMarker :: string where
  "initMarker = ''[guest] init started''"

definition timeoutCompletionMsg :: string where
  "timeoutCompletionMsg = ''timeout waiting for guest completion''"

text \<open>The scan for the exit-code marker: the first line that has the marker as prefix and
  splits into exactly two fields at \<open>:\<close> decides; the error of \<open>Atoi\<close> is dropped.\<close>

fun scanExitCode :: "string list \<Rightarrow> int option" where
  "scanExitCode [] = None"
| "scanExitCode (line # rest) =
     (if HasPrefix line exitMarker \<and> length (Split line (CHR '':'')) = 2
      then Some (fst (Atoi (TrimSpace (Split line (CHR '':'') ! 1))))
      else scanExitCode rest)"

text \<open>\<open>waitForGuestCompletion\<close> of the current \<open>main.go\<close>.\<close>

fun waitForGuestCompletion ::
  "string option list \<Rightarrow> string option \<Rightarrow> string \<times> int \<times> string option" where
  "waitForGuestCompletion [] final =
     (ReplaceAll_CRLF (case final of None \<Rightarrow> [] | Some b \<Rightarrow> b), 124,
      Some timeoutCompletionMsg)"
| "waitForGuestCompletion (None # polls) final = waitForGuestCompletion polls final"
| "waitForGuestCompletion (Some b # polls) final =
     (let text = ReplaceAll_CRLF b in
      case scanExitCode (Split text LF) of
        Some code \<Rightarrow> (text, code, None)
      | None \<Rightarrow>
          if Contains text haltedMarker then (text, 0, None)
          else waitForGuestCompletion polls final)"

text \<open>\<open>waitForGuestCompletion\<close> of the first version (and of the version that added file
  injection): the lines kept as guest output are filtered first.\<close>

definition guestLines :: "string \<Rightarrow> string list" where
  "guestLines text =
     filter (\<lambda>line. HasPrefix line ''[guest]'' \<or> Contains line ''hello from microvm'')
       (Split text LF)"

fun waitForGuestCompletion_v0 ::
  "string option list \<Rightarrow> string option \<Rightarrow> string \<times> int \<times> string option" where
  "waitForGuestCompletion_v0 [] final =
     (case final of None \<Rightarrow> [] | Some b \<Rightarrow> b, 124, Some timeoutCompletionMsg)"
| "waitForGuestCompletion_v0 (None # polls) final = waitForGuestCompletion_v0 polls final"
| "waitForGuestCompletion_v0 (Some b # polls) final =
     (let text = ReplaceAll_CRLF b; lines = guestLines text in
      case scanExitCode lines of
        Some code \<Rightarrow> (Join lines [LF] @ [LF], code, None)
      | None \<Rightarrow>
          if Contains text haltedMarker then (Join lines [LF] @ [LF], 0, None)
          else waitForGuestCompletion_v0 polls final)"

text \<open>\<open>waitForGuestInitStarted\<close>: \<open>None\<close> when the init marker was seen, else the error.\<close>

fun waitForGuestInitStarted :: "string option list \<Rightarrow> string option" where
  "waitForGuestInitStarted [] = Some ''timeout waiting for guest init started''"
| "waitForGuestInitStarted (None # polls) = waitForGuestInitStarted polls"
| "waitForGuestInitStarted (Some b # polls) =
     (let text = ReplaceAll_CRLF b in
      if Contains text initMarker then None
      else if Contains text panicMarker \<or> Contains text haltedMarker
      then Some ''guest did not reach init started (halt/panic)''
      else waitForGuestInitStarted polls)"

section \<open>The request handler and its environment\<close>

text \<open>
  \<open>Files\<close> is a Go map; the list gives its entries in the order in which the \<open>range\<close>
  loop of the handler visits them (any order is possible).
\<close>

record RunRequest =
  Cmd :: string
  Files :: "(string \<times> string) list"
  TimeoutMs :: int

record RunResponse =
  Stdout :: string
  Stderr :: string
  ExitCode :: int

text \<open>The HTTP request as the handler sees it: the method and the outcome of decoding
  the body (\<open>None\<close> when the decoder returns an error).\<close>

record http_request =
  Method :: string
  Decoded :: "RunRequest option"

datatype body = Plain string | Json RunResponse

record response =
  Status :: nat
  Body :: body

definition httpError :: "string \<Rightarrow> nat \<Rightarrow> response" where
  "httpError msg code = \<lparr>Status = code, Body = Plain msg\<rparr>"

text \<open>Encoding a \<open>RunResponse\<close> without a call of \<open>WriteHeader\<close> answers 200.\<close>

definition writeJSON :: "RunResponse \<Rightarrow> response" where
  "writeJSON r = \<lparr>Status = 200, Body = Json r\<rparr>"

definition fcSocket :: string where
  "fcSocket = ''/tmp/fc.sock''"

definition fcConsole :: string where
  "fcConsole = ''/tmp/guest-console.log''"

definition fcLog :: string where
  "fcLog = ''/tmp/firecracker/firecracker.log''"

definition kernelPath :: string where
  "kernelPath = ''/home/milan/fc/hello-vmlinux.bin''"

definition rootfsPath :: string where
  "rootfsPath = ''/home/milan/fc/rootfs.ext4''"

text \<open>The body of a call to the hypervisor.\<close>

datatype fc_body =
    MachineConfig nat nat bool
  | BootSource string string
  | Drive string string bool bool
  | Action string

text \<open>What the handler does to the outside world, in program order.\<close>

datatype event =
    MkdirTemp
  | MkdirAll string
  | Mount string string
  | Umount string
  | WriteFile string string
  | Chmod string
  | Remove string
  | RemoveAll string
  | Create string
  | CloseFile string
  | StartProcess
  | Stat string bool
  | Put string fc_body
  | Kill
  | Wait
  | WaitInit int
  | WaitCompletion int
  | NewTimer int
  | StopTimer
  | Listen string
  | CloseListener
  | Exec string
  | WaitAgent int

text \<open>The answer of the hypervisor to one call: a status and a body, or an IO error.\<close>

datatype put_result = Responded nat string | PutFailed string

text \<open>Which case of the \<open>select\<close> statement is taken.\<close>

datatype select_case = DoneFirst | TimerFirst

text \<open>What the agent socket delivers within the deadline.\<close>

datatype agent_result = Message RunResponse | AgentError string | AgentTimeout

text \<open>
  The outcomes of the calls into the operating system, the hypervisor and the runtime;
  an \<open>option\<close> is the error of the call, \<open>None\<close> when it succeeds.
\<close>

record env =
  os_MkdirTemp :: "string + string"
  mount_loop :: "string \<Rightarrow> string option"
  umount :: "string \<Rightarrow> string option"
  os_MkdirAll :: "string \<Rightarrow> string option"
  os_WriteFile :: "string \<Rightarrow> string \<Rightarrow> string option"
  os_Chmod :: "string \<Rightarrow> string option"
  os_Create :: "string \<Rightarrow> string option"
  cmd_Start :: "string option"
  stat_socket :: "bool list"
  put_result :: "string \<Rightarrow> put_result"
  init_reads :: "string option list"
  completion_reads :: "string option list"
  final_read :: "string option"
  select_first :: select_case
  new_uuid :: string
  net_Listen :: "string \<Rightarrow> string option"
  run_dd :: "string option"
  run_mkfs :: "string option"
  read_fcLog :: "string option"
  agent_message :: agent_result

text \<open>\<open>if err := step; err != nil { http.Error(w, err.Error(), code); return }\<close>
  followed by the rest of the handler.\<close>

definition orFail ::
  "event list \<times> string option \<Rightarrow> nat \<Rightarrow> event list \<times> response \<Rightarrow> event list \<times> response" where
  "orFail step code rest =
     (case snd step of
        Some err \<Rightarrow> (fst step, httpError err code)
      | None \<Rightarrow> (fst step @ fst rest, snd rest))"

subsection \<open>Hypervisor helpers\<close>

definition startFirecracker :: "env \<Rightarrow> event list \<times> string option" where
  "startFirecracker env =
     (case os_MkdirAll env (filepath_Dir fcLog) of
        Some e \<Rightarrow> ([Remove fcSocket, Remove fcConsole, MkdirAll (filepath_Dir fcLog)], Some e)
      | None \<Rightarrow>
          (case os_Create env fcConsole of
             Some e \<Rightarrow>
               ([Remove fcSocket, Remove fcConsole, MkdirAll (filepath_Dir fcLog),
                 Create fcConsole], Some e)
           | None \<Rightarrow>
               (case cmd_Start env of
                  Some e \<Rightarrow>
                    ([Remove fcSocket, Remove fcConsole, MkdirAll (filepath_Dir fcLog),
                      Create fcConsole, CloseFile fcConsole], Some e)
                | None \<Rightarrow>
                    ([Remove fcSocket, Remove fcConsole, MkdirAll (filepath_Dir fcLog),
                      Create fcConsole, StartProcess], None))))"

text \<open>\<open>waitForSocket\<close> over the results of \<open>os.Stat\<close> in the iterations before the deadline.\<close>

fun waitForSocket :: "string \<Rightarrow> bool list \<Rightarrow> event list \<times> string option" where
  "waitForSocket path [] = ([], Some (''timeout waiting for socket '' @ path))"
| "waitForSocket path (ok # rest) =
     (if ok then ([Stat path True], None)
      else (case waitForSocket path rest of (tr, r) \<Rightarrow> (Stat path False # tr, r)))"

text \<open>\<open>fcPut\<close>: one request; every answer but 204 and every IO error is an error.
  (Marshalling the fixed bodies of the handler and building the request cannot fail.)\<close>

definition fcPut :: "env \<Rightarrow> string \<Rightarrow> fc_body \<Rightarrow> event list \<times> string option" where
  "fcPut env path b =
     ([Put path b],
      case put_result env path of
        PutFailed e \<Rightarrow> Some e
      | Responded code answer \<Rightarrow>
          if code \<noteq> 204
          then Some (''firecracker '' @ path @ '' failed: '' @ TrimSpace answer)
          else None)"

subsection \<open>Durations\<close>

text \<open>\<open>time.Duration\<close> is a signed 64-bit count of nanoseconds; the product
  \<open>time.Duration(timeoutMs) * time.Millisecond\<close> wraps around.\<close>

definition wrap64 :: "int \<Rightarrow> int" where
  "wrap64 x = (x + 9223372036854775808) mod 18446744073709551616 - 9223372036854775808"

definition Millisecond :: int where
  "Millisecond = 1000000"

definition Second :: int where
  "Second = 1000000000"

definition msDuration :: "int \<Rightarrow> int" where
  "msDuration ms = wrap64 (ms * Millisecond)"

definition effectiveTimeoutMs :: "RunRequest \<Rightarrow> int" where
  "effectiveTimeoutMs req = (if TimeoutMs req \<le> 0 then 5000 else TimeoutMs req)"

subsection \<open>The handler of the current \<open>main.go\<close> (console parsing with boot grace)\<close>

definition cmdForGuest :: "RunRequest \<Rightarrow> string" where
  "cmdForGuest req = (if length (Files req) > 0 then ''cd /work && '' @ Cmd req else Cmd req)"

definition bootArgs :: "RunRequest \<Rightarrow> string" where
  "bootArgs req =
     ''console=ttyS0 quiet loglevel=0 reboot=k panic=1 pci=off init=/sbin/init CMD=\"''
     @ cmdForGuest req @ ''\"''"

text \<open>The loop over the files. On failure it returns the message and the status; the
  rootfs is unmounted first.\<close>

fun stageFiles ::
  "env \<Rightarrow> string \<Rightarrow> string \<Rightarrow> (string \<times> string) list \<Rightarrow> event list \<times> (string \<times> nat) option" where
  "stageFiles env mountDir workDir [] = ([], None)"
| "stageFiles env mountDir workDir ((name, content) # rest) =
     (case resolveWorkPath workDir name of
        Inl err \<Rightarrow> ([Umount mountDir], Some (err, 400))
      | Inr targetPath \<Rightarrow>
          (case os_WriteFile env targetPath content of
             Some e \<Rightarrow> ([WriteFile targetPath content, Umount mountDir], Some (e, 500))
           | None \<Rightarrow>
               if HasPrefix content ''#!'' then
                 (case os_Chmod env targetPath of
                    Some e \<Rightarrow>
                      ([WriteFile targetPath content, Chmod targetPath, Umount mountDir],
                       Some (e, 500))
                  | None \<Rightarrow>
                      (case stageFiles env mountDir workDir rest of
                         (tr, r) \<Rightarrow> (WriteFile targetPath content # Chmod targetPath # tr, r)))
               else
                 (case stageFiles env mountDir workDir rest of
                    (tr, r) \<Rightarrow> (WriteFile targetPath content # tr, r))))"

text \<open>After \<open>InstanceStart\<close>: boot grace, then the race of the completion waiter (run in
  a goroutine) with the timer. The last \<open>StopTimer\<close> is the deferred one.\<close>

definition awaitGuest :: "env \<Rightarrow> RunRequest \<Rightarrow> event list \<times> response" where
  "awaitGuest env req =
     (let d = msDuration (effectiveTimeoutMs req) in
      case waitForGuestInitStarted (init_reads env) of
        Some err \<Rightarrow>
          ([WaitInit (5 * Second)],
           writeJSON \<lparr>Stdout = [], Stderr = ''boot timeout: '' @ err, ExitCode = 124\<rparr>)
      | None \<Rightarrow>
          (case select_first env of
             DoneFirst \<Rightarrow>
               (case waitForGuestCompletion (completion_reads env) (final_read env) of
                  (stdout, exitCode, waitErr) \<Rightarrow>
                    ([WaitInit (5 * Second), WaitCompletion d, NewTimer d,
                      StopTimer, Kill, Wait, StopTimer],
                     writeJSON \<lparr>Stdout = stdout,
                                Stderr = (case waitErr of None \<Rightarrow> [] | Some e \<Rightarrow> e),
                                ExitCode = exitCode\<rparr>))
           | TimerFirst \<Rightarrow>
               ([WaitInit (5 * Second), WaitCompletion d, NewTimer d, Kill, Wait, StopTimer],
                writeJSON \<lparr>Stdout = [], Stderr = ''execution timed out'', ExitCode = 124\<rparr>)))"

definition configureAndRun :: "env \<Rightarrow> RunRequest \<Rightarrow> event list \<times> response" where
  "configureAndRun env req =
     orFail (waitForSocket fcSocket (stat_socket env)) 500
    (orFail (fcPut env ''/machine-config'' (MachineConfig 1 256 False)) 500
    (orFail (fcPut env ''/boot-source'' (BootSource kernelPath (bootArgs req))) 500
    (orFail (fcPut env ''/drives/rootfs'' (Drive ''rootfs'' rootfsPath True False)) 500
    (orFail (fcPut env ''/actions'' (Action ''InstanceStart'')) 500
    (awaitGuest env req)))))"

text \<open>From \<open>startFirecracker\<close> on. Once the child runs, the deferred functions kill and
  reap it and close the console file on every return.\<close>

definition withFirecracker :: "env \<Rightarrow> RunRequest \<Rightarrow> event list \<times> response" where
  "withFirecracker env req =
     (case startFirecracker env of
        (tr, Some e) \<Rightarrow> (tr, httpError e 500)
      | (tr, None) \<Rightarrow>
          (case configureAndRun env req of
             (tr', resp) \<Rightarrow> (tr @ tr' @ [Kill, Wait, CloseFile fcConsole], resp)))"

text \<open>From the mount of the rootfs on.\<close>

definition stageAndRun :: "env \<Rightarrow> RunRequest \<Rightarrow> string \<Rightarrow> event list \<times> response" where
  "stageAndRun env req mountDir =
     (let workDir = mountDir @ ''/work'' in
      case mount_loop env mountDir of
        Some e \<Rightarrow> ([Mount rootfsPath mountDir], httpError e 500)
      | None \<Rightarrow>
          (case os_MkdirAll env workDir of
             Some e \<Rightarrow>
               ([Mount rootfsPath mountDir, MkdirAll workDir, Umount mountDir], httpError e 500)
           | None \<Rightarrow>
               (case stageFiles env mountDir workDir (Files req) of
                  (tr, Some (msg, code)) \<Rightarrow>
                    (Mount rootfsPath mountDir # MkdirAll workDir # tr, httpError msg code)
                | (tr, None) \<Rightarrow>
                    (case umount env mountDir of
                       Some e \<Rightarrow>
                         (Mount rootfsPath mountDir # MkdirAll workDir # tr @ [Umount mountDir],
                          httpError e 500)
                     | None \<Rightarrow>
                         (case withFirecracker env req of
                            (tr', resp) \<Rightarrow>
                              (Mount rootfsPath mountDir # MkdirAll workDir # tr
                               @ [Umount mountDir] @ tr', resp))))))"

definition runHandler :: "env \<Rightarrow> http_request \<Rightarrow> event list \<times> response" where
  "runHandler env r =
     (if Method r \<noteq> ''POST'' then ([], httpError ''POST only'' 405)
      else
        case Decoded r of
          None \<Rightarrow> ([], httpError ''invalid JSON'' 400)
        | Some req \<Rightarrow>
            if Cmd req = [] then ([], httpError ''cmd is required'' 400)
            else
              (case os_MkdirTemp env of
                 Inl e \<Rightarrow> ([MkdirTemp], httpError e 500)
               | Inr mountDir \<Rightarrow>
                   (case stageAndRun env req mountDir of
                      (tr, resp) \<Rightarrow> (MkdirTemp # tr @ [RemoveAll mountDir], resp))))"

subsection \<open>The first handler (no files, filtered console)\<close>

definition fcConsole_v0 :: string where
  "fcConsole_v0 = ''/tmp/fc-console.log''"

definition startFirecracker_v0 :: "env \<Rightarrow> event list \<times> string option" where
  "startFirecracker_v0 env =
     (case os_Create env fcConsole_v0 of
        Some e \<Rightarrow> ([Remove fcSocket, Remove fcConsole_v0, Create fcConsole_v0], Some e)
      | None \<Rightarrow>
          (case cmd_Start env of
             Some e \<Rightarrow>
               ([Remove fcSocket, Remove fcConsole_v0, Create fcConsole_v0,
                 CloseFile fcConsole_v0], Some e)
           | None \<Rightarrow>
               ([Remove fcSocket, Remove fcConsole_v0, Create fcConsole_v0, StartProcess],
                None)))"

definition bootArgs_v0 :: "RunRequest \<Rightarrow> string" where
  "bootArgs_v0 req =
     ''console=ttyS0 reboot=k panic=1 pci=off init=/sbin/init CMD=\"'' @ Cmd req @ ''\"''"

definition awaitGuest_v0 :: "env \<Rightarrow> RunRequest \<Rightarrow> event list \<times> response" where
  "awaitGuest_v0 env req =
     (let d = msDuration (effectiveTimeoutMs req) in
      case select_first env of
        DoneFirst \<Rightarrow>
          (case waitForGuestCompletion_v0 (completion_reads env) (final_read env) of
             (stdout, exitCode, waitErr) \<Rightarrow>
               ([WaitCompletion d, NewTimer d, Kill, Wait],
                writeJSON \<lparr>Stdout = stdout,
                           Stderr = (case waitErr of None \<Rightarrow> [] | Some e \<Rightarrow> e),
                           ExitCode = exitCode\<rparr>))
      | TimerFirst \<Rightarrow>
          ([WaitCompletion d, NewTimer d, Kill, Wait],
           writeJSON \<lparr>Stdout = [], Stderr = ''execution timed out'', ExitCode = 124\<rparr>))"

definition configureAndRun_v0 :: "env \<Rightarrow> RunRequest \<Rightarrow> event list \<times> response" where
  "configureAndRun_v0 env req =
     orFail (waitForSocket fcSocket (stat_socket env)) 500
    (orFail (fcPut env ''/machine-config'' (MachineConfig 1 256 False)) 500
    (orFail (fcPut env ''/boot-source'' (BootSource kernelPath (bootArgs_v0 req))) 500
    (orFail (fcPut env ''/drives/rootfs'' (Drive ''rootfs'' rootfsPath True False)) 500
    (orFail (fcPut env ''/actions'' (Action ''InstanceStart'')) 500
    (awaitGuest_v0 env req)))))"

definition runHandler_v0 :: "env \<Rightarrow> http_request \<Rightarrow> event list \<times> response" where
  "runHandler_v0 env r =
     (if Method r \<noteq> ''POST'' then ([], httpError ''POST only'' 405)
      else
        case Decoded r of
          None \<Rightarrow> ([], httpError ''invalid JSON'' 400)
        | Some req \<Rightarrow>
            if Cmd req = [] then ([], httpError ''cmd is required'' 400)
            else
              (case startFirecracker_v0 env of
                 (tr, Some e) \<Rightarrow> (tr, httpError e 500)
               | (tr, None) \<Rightarrow>
                   (case configureAndRun_v0 env req of
                      (tr', resp) \<Rightarrow> (tr @ tr' @ [Kill, Wait, CloseFile fcConsole_v0], resp))))"

subsection \<open>The handler that added file injection (no path validation, fixed 8 s wait)\<close>

definition bootArgs_files_v0 :: "RunRequest \<Rightarrow> string" where
  "bootArgs_files_v0 req =
     ''console=ttyS0 reboot=k panic=1 pci=off init=/sbin/init CMD=\"''
     @ (''cd /work && '' @ Cmd req) @ ''\"''"

fun stageFiles_v0 ::
  "env \<Rightarrow> string \<Rightarrow> string \<Rightarrow> (string \<times> string) list \<Rightarrow> event list \<times> (string \<times> nat) option" where
  "stageFiles_v0 env mountDir workDir [] = ([], None)"
| "stageFiles_v0 env mountDir workDir ((name, content) # rest) =
     (let targetPath = workDir @ ''/'' @ name in
      case os_WriteFile env targetPath content of
        Some e \<Rightarrow> ([WriteFile targetPath content, Umount mountDir], Some (e, 500))
      | None \<Rightarrow>
          if HasPrefix content ''#!'' then
            (case os_Chmod env targetPath of
               Some e \<Rightarrow>
                 ([WriteFile targetPath content, Chmod targetPath, Umount mountDir],
                  Some (e, 500))
             | None \<Rightarrow>
                 (case stageFiles_v0 env mountDir workDir rest of
                    (tr, r) \<Rightarrow> (WriteFile targetPath content # Chmod targetPath # tr, r)))
          else
            (case stageFiles_v0 env mountDir workDir rest of
               (tr, r) \<Rightarrow> (WriteFile targetPath content # tr, r)))"

definition awaitGuest_files_v0 :: "env \<Rightarrow> event list \<times> response" where
  "awaitGuest_files_v0 env =
     (case waitForGuestCompletion_v0 (completion_reads env) (final_read env) of
        (stdout, exitCode, waitErr) \<Rightarrow>
          ([WaitCompletion (8 * Second)],
           writeJSON \<lparr>Stdout = stdout,
                      Stderr = (case waitErr of None \<Rightarrow> [] | Some e \<Rightarrow> e),
                      ExitCode = exitCode\<rparr>))"

definition configureAndRun_files_v0 :: "env \<Rightarrow> RunRequest \<Rightarrow> event list \<times> response" where
  "configureAndRun_files_v0 env req =
     orFail (waitForSocket fcSocket (stat_socket env)) 500
    (orFail (fcPut env ''/machine-config'' (MachineConfig 1 256 False)) 500
    (orFail (fcPut env ''/boot-source'' (BootSource kernelPath (bootArgs_files_v0 req))) 500
    (orFail (fcPut env ''/drives/rootfs'' (Drive ''rootfs'' rootfsPath True False)) 500
    (orFail (fcPut env ''/actions'' (Action ''InstanceStart'')) 500
    (awaitGuest_files_v0 env)))))"

definition withFirecracker_files_v0 :: "env \<Rightarrow> RunRequest \<Rightarrow> event list \<times> response" where
  "withFirecracker_files_v0 env req =
     (case startFirecracker_v0 env of
        (tr, Some e) \<Rightarrow> (tr, httpError e 500)
      | (tr, None) \<Rightarrow>
          (case configureAndRun_files_v0 env req of
             (tr', resp) \<Rightarrow> (tr @ tr' @ [Kill, Wait, CloseFile fcConsole_v0], resp)))"

definition stageAndRun_files_v0 :: "env \<Rightarrow> RunRequest \<Rightarrow> string \<Rightarrow> event list \<times> response" where
  "stageAndRun_files_v0 env req mountDir =
     (let workDir = mountDir @ ''/work'' in
      case mount_loop env mountDir of
        Some e \<Rightarrow> ([Mount rootfsPath mountDir], httpError e 500)
      | None \<Rightarrow>
          (case os_MkdirAll env workDir of
             Some e \<Rightarrow>
               ([Mount rootfsPath mountDir, MkdirAll workDir, Umount mountDir], httpError e 500)
           | None \<Rightarrow>
               (case stageFiles_v0 env mountDir workDir (Files req) of
                  (tr, Some (msg, code)) \<Rightarrow>
                    (Mount rootfsPath mountDir # MkdirAll workDir # tr, httpError msg code)
                | (tr, None) \<Rightarrow>
                    (case umount env mountDir of
                       Some e \<Rightarrow>
                         (Mount rootfsPath mountDir # MkdirAll workDir # tr @ [Umount mountDir],
                          httpError e 500)
                     | None \<Rightarrow>
                         (case withFirecracker_files_v0 env req of
                            (tr', resp) \<Rightarrow>
                              (Mount rootfsPath mountDir # MkdirAll workDir # tr
                               @ [Umount mountDir] @ tr', resp))))))"

definition runHandler_files_v0 :: "env \<Rightarrow> http_request \<Rightarrow> event list \<times> response" where
  "runHandler_files_v0 env r =
     (if Method r \<noteq> ''POST'' then ([], httpError ''POST only'' 405)
      else
        case Decoded r of
          None \<Rightarrow> ([], httpError ''invalid JSON'' 400)
        | Some req \<Rightarrow>
            if Cmd req = [] then ([], httpError ''cmd is required'' 400)
            else
              (case os_MkdirTemp env of
                 Inl e \<Rightarrow> ([MkdirTemp], httpError e 500)
               | Inr mountDir \<Rightarrow>
                   (case stageAndRun_files_v0 env req mountDir of
                      (tr, resp) \<Rightarrow> (MkdirTemp # tr @ [RemoveAll mountDir], resp))))"

subsection \<open>The handler with the in-guest agent\<close>

definition startFirecracker_agent :: "env \<Rightarrow> event list \<times> string option" where
  "startFirecracker_agent env =
     (case os_MkdirAll env (filepath_Dir fcLog) of
        Some e \<Rightarrow> ([Remove fcSocket, MkdirAll (filepath_Dir fcLog)], Some e)
      | None \<Rightarrow>
          (case os_Create env fcLog of
             Some e \<Rightarrow> ([Remove fcSocket, MkdirAll (filepath_Dir fcLog), Create fcLog], Some e)
           | None \<Rightarrow>
               (case cmd_Start env of
                  Some e \<Rightarrow>
                    ([Remove fcSocket, MkdirAll (filepath_Dir fcLog), Create fcLog,
                      CloseFile fcLog], Some e)
                | None \<Rightarrow>
                    ([Remove fcSocket, MkdirAll (filepath_Dir fcLog), Create fcLog,
                      CloseFile fcLog, StartProcess], None))))"

definition execDirOf :: "string \<Rightarrow> string" where
  "execDirOf execID = filepath_Join ''/tmp/sandboxd'' execID"

definition sockPathOf :: "string \<Rightarrow> string" where
  "sockPathOf execID = filepath_Join (execDirOf execID) ''agent.sock''"

definition startUDSListener :: "env \<Rightarrow> string \<Rightarrow> event list \<times> string option" where
  "startUDSListener env execID =
     (case os_MkdirAll env (execDirOf execID) of
        Some e \<Rightarrow> ([MkdirAll (execDirOf execID)], Some e)
      | None \<Rightarrow>
          ([MkdirAll (execDirOf execID), Remove (sockPathOf execID), Listen (sockPathOf execID)],
           net_Listen env (sockPathOf execID)))"

definition agentImageOf :: "string \<Rightarrow> string" where
  "agentImageOf execID = filepath_Join (execDirOf execID) ''agent.img''"

definition agentMountOf :: "string \<Rightarrow> string" where
  "agentMountOf execID = filepath_Join (execDirOf execID) ''mnt''"

definition createAgentDriveImage :: "env \<Rightarrow> string \<Rightarrow> event list \<times> string option" where
  "createAgentDriveImage env execID =
     (case run_dd env of
        Some e \<Rightarrow> ([Exec ''dd''], Some (''dd failed: '' @ e))
      | None \<Rightarrow>
          (case run_mkfs env of
             Some e \<Rightarrow> ([Exec ''dd'', Exec ''mkfs.ext4''], Some (''mkfs.ext4 failed: '' @ e))
           | None \<Rightarrow>
               (case os_MkdirAll env (agentMountOf execID) of
                  Some e \<Rightarrow>
                    ([Exec ''dd'', Exec ''mkfs.ext4'', MkdirAll (agentMountOf execID)], Some e)
                | None \<Rightarrow>
                    ([Exec ''dd'', Exec ''mkfs.ext4'', MkdirAll (agentMountOf execID),
                      Mount (agentImageOf execID) (agentMountOf execID)],
                     (case mount_loop env (agentMountOf execID) of
                        Some e \<Rightarrow> Some (''mount failed: '' @ e)
                      | None \<Rightarrow> None)))))"

text \<open>The text added to the error when the control socket does not appear: the last 50
  lines of the hypervisor log.\<close>

definition logSnippet :: "string \<Rightarrow> string" where
  "logSnippet logText =
     (let text = rev (dropWhile (\<lambda>c. c = LF) (rev (ReplaceAll_CRLF logText)));
          lines = (if text \<noteq> [] then Split text LF else []);
          lines = (if length lines > 50 then drop (length lines - 50) lines else lines)
      in Join lines [LF])"

definition socketTimeoutResponse :: "env \<Rightarrow> string \<Rightarrow> response" where
  "socketTimeoutResponse env err =
     (case read_fcLog env of
        None \<Rightarrow> httpError err 500
      | Some logText \<Rightarrow>
          if logSnippet logText \<noteq> []
          then httpError (err @ [LF] @ ''firecracker log:'' @ [LF] @ logSnippet logText) 500
          else httpError err 500)"

definition awaitAgent :: "env \<Rightarrow> RunRequest \<Rightarrow> event list \<times> response" where
  "awaitAgent env req =
     (let total = wrap64 (msDuration (effectiveTimeoutMs req) + 5 * Second) in
      case agent_message env of
        Message resp \<Rightarrow> ([WaitAgent total], writeJSON resp)
      | AgentError e \<Rightarrow>
          ([WaitAgent total],
           writeJSON \<lparr>Stdout = [], Stderr = ''execution timed out'', ExitCode = 124\<rparr>)
      | AgentTimeout \<Rightarrow>
          ([WaitAgent total],
           writeJSON \<lparr>Stdout = [], Stderr = ''execution timed out'', ExitCode = 124\<rparr>))"

definition configureAndRun_agent :: "env \<Rightarrow> RunRequest \<Rightarrow> string \<Rightarrow> event list \<times> response" where
  "configureAndRun_agent env req execID =
     (case waitForSocket fcSocket (stat_socket env) of
        (tr, Some err) \<Rightarrow> (tr, socketTimeoutResponse env err)
      | (tr, None) \<Rightarrow>
          (case
              orFail (fcPut env ''/machine-config'' (MachineConfig 1 256 False)) 500
             (orFail (fcPut env ''/boot-source'' (BootSource kernelPath (bootArgs req))) 500
             (orFail (fcPut env ''/drives/rootfs'' (Drive ''rootfs'' rootfsPath True False)) 500
             (orFail (fcPut env ''/drives/agent''
                        (Drive ''agent'' (agentImageOf execID) False False)) 500
             (orFail (fcPut env ''/actions'' (Action ''InstanceStart'')) 500
             (awaitAgent env req)))))
           of (tr', resp) \<Rightarrow> (tr @ tr', resp)))"

definition withFirecracker_agent :: "env \<Rightarrow> RunRequest \<Rightarrow> string \<Rightarrow> event list \<times> response" where
  "withFirecracker_agent env req execID =
     (case startFirecracker_agent env of
        (tr, Some e) \<Rightarrow> (tr, httpError e 500)
      | (tr, None) \<Rightarrow>
          (case configureAndRun_agent env req execID of
             (tr', resp) \<Rightarrow> (tr @ tr' @ [Kill, Wait], resp)))"

text \<open>From the mount of the rootfs to the unmount of the agent image.\<close>

definition stageAndRun_agent ::
  "env \<Rightarrow> RunRequest \<Rightarrow> string \<Rightarrow> string \<Rightarrow> event list \<times> response" where
  "stageAndRun_agent env req execID mountDir =
     (let workDir = mountDir @ ''/work'' in
      case mount_loop env mountDir of
        Some e \<Rightarrow> ([Mount rootfsPath mountDir], httpError e 500)
      | None \<Rightarrow>
          (case os_MkdirAll env workDir of
             Some e \<Rightarrow>
               ([Mount rootfsPath mountDir, MkdirAll workDir, Umount mountDir], httpError e 500)
           | None \<Rightarrow>
               (case stageFiles env mountDir workDir (Files req) of
                  (tr, Some (msg, code)) \<Rightarrow>
                    (Mount rootfsPath mountDir # MkdirAll workDir # tr, httpError msg code)
                | (tr, None) \<Rightarrow>
                    (case umount env mountDir of
                       Some e \<Rightarrow>
                         (Mount rootfsPath mountDir # MkdirAll workDir # tr @ [Umount mountDir],
                          httpError e 500)
                     | None \<Rightarrow>
                         (case umount env (agentMountOf execID) of
                            Some e \<Rightarrow>
                              (Mount rootfsPath mountDir # MkdirAll workDir # tr
                               @ [Umount mountDir, Umount (agentMountOf execID)],
                               httpError (''failed to unmount agent image: '' @ e) 500)
                          | None \<Rightarrow>
                              (case withFirecracker_agent env req execID of
                                 (tr', resp) \<Rightarrow>
                                   (Mount rootfsPath mountDir # MkdirAll workDir # tr
                                    @ [Umount mountDir, Umount (agentMountOf execID)] @ tr',
                                    resp)))))))"

text \<open>From the second listener on; its deferred close and the removal of the mount
  directory run on return.\<close>

definition withListener_agent :: "env \<Rightarrow> RunRequest \<Rightarrow> string \<Rightarrow> event list \<times> response" where
  "withListener_agent env req execID =
     (let agentSockInMount = filepath_Join (agentMountOf execID) ''agent.sock'' in
      case net_Listen env agentSockInMount of
        Some e \<Rightarrow>
          ([CloseListener, Remove (sockPathOf execID), Listen agentSockInMount],
           httpError (''failed to create socket in agent mount: '' @ e) 500)
      | None \<Rightarrow>
          (case os_MkdirTemp env of
             Inl e \<Rightarrow>
               ([CloseListener, Remove (sockPathOf execID), Listen agentSockInMount,
                 MkdirTemp, CloseListener], httpError e 500)
           | Inr mountDir \<Rightarrow>
               (case stageAndRun_agent env req execID mountDir of
                  (tr, resp) \<Rightarrow>
                    ([CloseListener, Remove (sockPathOf execID), Listen agentSockInMount,
                      MkdirTemp] @ tr @ [RemoveAll mountDir, CloseListener], resp))))"

definition runHandler_agent :: "env \<Rightarrow> http_request \<Rightarrow> event list \<times> response" where
  "runHandler_agent env r =
     (if Method r \<noteq> ''POST'' then ([], httpError ''POST only'' 405)
      else
        case Decoded r of
          None \<Rightarrow> ([], httpError ''invalid JSON'' 400)
        | Some req \<Rightarrow>
            if Cmd req = [] then ([], httpError ''cmd is required'' 400)
            else
              (let execID = new_uuid env in
               case startUDSListener env execID of
                 (tr, Some e) \<Rightarrow> (tr, httpError e 500)
               | (tr, None) \<Rightarrow>
                   (case createAgentDriveImage env execID of
                      (tr', Some e) \<Rightarrow>
                        (tr @ tr' @ [RemoveAll (filepath_Dir (sockPathOf execID)), CloseListener],
                         httpError e 500)
                    | (tr', None) \<Rightarrow>
                        (case withListener_agent env req execID of
                           (tr'', resp) \<Rightarrow>
                             (tr @ tr' @ tr''
                              @ [Umount (agentMountOf execID), RemoveAll (execDirOf execID),
                                 RemoveAll (filepath_Dir (sockPathOf execID)), CloseListener],
                              resp)))))"

section \<open>Notions used in the statements\<close>

text \<open>A line at which the scan for the exit code stops.\<close>

definition isExitLine :: "string \<Rightarrow> bool" where
  "isExitLine line = (HasPrefix line exitMarker \<and> length (Split line (CHR '':'')) = 2)"





text \<open>A read of the console after which the completion waiter goes on polling: the read
  failed, or the text has no exit line and no halt message.\<close>

definition undecided :: "string option \<Rightarrow> bool" where
  "undecided rd =
     (case rd of
        None \<Rightarrow> True
      | Some b \<Rightarrow>
          list_all (\<lambda>l. \<not> isExitLine l) (Split (ReplaceAll_CRLF b) LF)
          \<and> \<not> Contains (ReplaceAll_CRLF b) haltedMarker)"

text \<open>A read of the console after which the boot waiter goes on polling.\<close>

definition bootUndecided :: "string option \<Rightarrow> bool" where
  "bootUndecided rd =
     (case rd of
        None \<Rightarrow> True
      | Some b \<Rightarrow>
          \<not> Contains (ReplaceAll_CRLF b) initMarker
          \<and> \<not> Contains (ReplaceAll_CRLF b) panicMarker
          \<and> \<not> Contains (ReplaceAll_CRLF b) haltedMarker)"



text \<open>The exit code carried by a JSON answer.\<close>

definition exitCodeOf :: "response \<Rightarrow> int option" where
  "exitCodeOf resp = (case Body resp of Json r \<Rightarrow> Some (ExitCode r) | Plain msg \<Rightarrow> None)"

text \<open>Two console texts of a run that completes.\<close>

definition noisyConsole :: string where
  "noisyConsole = ''boot noise\<newline>[guest] init started\<newline>hi\<newline>[guest] exit code: 0\<newline>''"


text \<open>The hypervisor answers the call with 204.\<close>

definition accepted :: "env \<Rightarrow> string \<Rightarrow> bool" where
  "accepted env path =
     (case put_result env path of Responded code answer \<Rightarrow> code = 204 | PutFailed e \<Rightarrow> False)"

text \<open>Every step of the current handler before the wait for the guest succeeds.\<close>

definition reachesGuest :: "env \<Rightarrow> http_request \<Rightarrow> RunRequest \<Rightarrow> string \<Rightarrow> bool" where
  "reachesGuest env r req mountDir =
     (Method r = ''POST'' \<and> Decoded r = Some req \<and> Cmd req \<noteq> []
      \<and> os_MkdirTemp env = Inr mountDir
      \<and> mount_loop env mountDir = None
      \<and> os_MkdirAll env (mountDir @ ''/work'') = None
      \<and> snd (stageFiles env mountDir (mountDir @ ''/work'') (Files req)) = None
      \<and> umount env mountDir = None
      \<and> snd (startFirecracker env) = None
      \<and> snd (waitForSocket fcSocket (stat_socket env)) = None
      \<and> accepted env ''/machine-config'' \<and> accepted env ''/boot-source''
      \<and> accepted env ''/drives/rootfs'' \<and> accepted env ''/actions'')"

text \<open>
  A run in which every call succeeds and the guest boots, but the command (\<open>sleep 10\<close>
  with a timeout of 1000 ms) prints no completion marker before the deadline: the waiter
  polls 20 times and then returns its own timeout. In \<open>raceEnv\<close> the \<open>select\<close> takes
  the \<open>done\<close> case.
\<close>

definition raceEnv :: env where
  "raceEnv =
     \<lparr>os_MkdirTemp = Inr ''/tmp/rootfs-mount-1'',
      mount_loop = (\<lambda>dir. None), umount = (\<lambda>dir. None),
      os_MkdirAll = (\<lambda>dir. None), os_WriteFile = (\<lambda>path content. None),
      os_Chmod = (\<lambda>path. None), os_Create = (\<lambda>path. None), cmd_Start = None,
      stat_socket = [False, True], put_result = (\<lambda>path. Responded 204 []),
      init_reads = [Some ''[guest] init started\<newline>''],
      completion_reads = replicate 20 (Some ''[guest] init started\<newline>''),
      final_read = Some ''[guest] init started\<newline>'',
      select_first = DoneFirst,
      new_uuid = ''0b5e'', net_Listen = (\<lambda>path. None), run_dd = None, run_mkfs = None,
      read_fcLog = None, agent_message = AgentTimeout\<rparr>"

definition sleepRun :: RunRequest where
  "sleepRun = \<lparr>Cmd = ''sleep 10'', Files = [], TimeoutMs = 1000\<rparr>"

definition sleepRequest :: http_request where
  "sleepRequest =
     \<lparr>Method = ''POST'', Decoded = Some sleepRun\<rparr>"

text \<open>Console texts of a guest that halts and of a kernel that panics.\<close>

definition haltedConsole :: string where
  "haltedConsole = ''[guest] init started\<newline>reboot: System halted''"

definition panicConsole :: string where
  "panicConsole = ''Kernel panic - not syncing: Attempted to kill init!''"

text \<open>A console on which the guest started, the kernel panicked and the machine halted.\<close>

definition panicHaltConsole :: string where
  "panicHaltConsole =
     ''[guest] init started\<newline>Kernel panic - not syncing: Attempted to kill init!\<newline>reboot: System halted''"

text \<open>The calls to the hypervisor in a trace, in order.\<close>

fun putCalls :: "event list \<Rightarrow> (string \<times> fc_body) list" where
  "putCalls [] = []"
| "putCalls (Put p b # tr) = (p, b) # putCalls tr"
| "putCalls (e # tr) = putCalls tr"

text \<open>The events that concern the hypervisor child and its control socket.\<close>

fun isHypervisorEvent :: "event \<Rightarrow> bool" where
  "isHypervisorEvent StartProcess = True"
| "isHypervisorEvent (Stat p ok) = True"
| "isHypervisorEvent (Put p b) = True"
| "isHypervisorEvent Kill = True"
| "isHypervisorEvent Wait = True"
| "isHypervisorEvent e = False"

definition hypervisorEvents :: "event list \<Rightarrow> event list" where
  "hypervisorEvents tr = filter isHypervisorEvent tr"

text \<open>The calls of a list that are issued when each call is made only after the calls
  before it were accepted.\<close>

fun issued :: "env \<Rightarrow> (string \<times> fc_body) list \<Rightarrow> (string \<times> fc_body) list" where
  "issued env [] = []"
| "issued env ((p, b) # cs) = (p, b) # (if accepted env p then issued env cs else [])"

text \<open>A chain of calls, each guarded as in the handlers.\<close>

fun configure ::
  "env \<Rightarrow> (string \<times> fc_body) list \<Rightarrow> event list \<times> response \<Rightarrow> event list \<times> response" where
  "configure env [] rest = rest"
| "configure env ((p, b) # cs) rest = orFail (fcPut env p b) 500 (configure env cs rest)"

text \<open>The calls of each handler, in program order.\<close>

definition configCalls :: "RunRequest \<Rightarrow> (string \<times> fc_body) list" where
  "configCalls req =
     [(''/machine-config'', MachineConfig 1 256 False),
      (''/boot-source'', BootSource kernelPath (bootArgs req)),
      (''/drives/rootfs'', Drive ''rootfs'' rootfsPath True False),
      (''/actions'', Action ''InstanceStart'')]"

definition configCalls_agent :: "RunRequest \<Rightarrow> string \<Rightarrow> (string \<times> fc_body) list" where
  "configCalls_agent req execID =
     [(''/machine-config'', MachineConfig 1 256 False),
      (''/boot-source'', BootSource kernelPath (bootArgs req)),
      (''/drives/rootfs'', Drive ''rootfs'' rootfsPath True False),
      (''/drives/agent'', Drive ''agent'' (agentImageOf execID) False False),
      (''/actions'', Action ''InstanceStart'')]"

definition configCalls_v0 :: "RunRequest \<Rightarrow> (string \<times> fc_body) list" where
  "configCalls_v0 req =
     [(''/machine-config'', MachineConfig 1 256 False),
      (''/boot-source'', BootSource kernelPath (bootArgs_v0 req)),
      (''/drives/rootfs'', Drive ''rootfs'' rootfsPath True False),
      (''/actions'', Action ''InstanceStart'')]"

definition configCalls_files_v0 :: "RunRequest \<Rightarrow> (string \<times> fc_body) list" where
  "configCalls_files_v0 req =
     [(''/machine-config'', MachineConfig 1 256 False),
      (''/boot-source'', BootSource kernelPath (bootArgs_files_v0 req)),
      (''/drives/rootfs'', Drive ''rootfs'' rootfsPath True False),
      (''/actions'', Action ''InstanceStart'')]"

text \<open>Every step of the current handler up to the start of the hypervisor succeeds;
  \<open>preamble\<close> is the trace of these steps.\<close>

definition reachesStart :: "env \<Rightarrow> http_request \<Rightarrow> RunRequest \<Rightarrow> string \<Rightarrow> bool" where
  "reachesStart env r req mountDir =
     (Method r = ''POST'' \<and> Decoded r = Some req \<and> Cmd req \<noteq> []
      \<and> os_MkdirTemp env = Inr mountDir
      \<and> mount_loop env mountDir = None
      \<and> os_MkdirAll env (mountDir @ ''/work'') = None
      \<and> snd (stageFiles env mountDir (mountDir @ ''/work'') (Files req)) = None
      \<and> umount env mountDir = None
      \<and> snd (startFirecracker env) = None)"

definition preamble :: "env \<Rightarrow> RunRequest \<Rightarrow> string \<Rightarrow> event list" where
  "preamble env req mountDir =
     MkdirTemp # Mount rootfsPath mountDir # MkdirAll (mountDir @ ''/work'')
     # fst (stageFiles env mountDir (mountDir @ ''/work'') (Files req))
     @ [Umount mountDir] @ fst (startFirecracker env)"

text \<open>The same for the handler with the agent; \<open>cleanup_agent\<close> is what its deferred calls
  do after the child is reaped.\<close>

definition reachesStart_agent :: "env \<Rightarrow> http_request \<Rightarrow> RunRequest \<Rightarrow> string \<Rightarrow> bool" where
  "reachesStart_agent env r req mountDir =
     (Method r = ''POST'' \<and> Decoded r = Some req \<and> Cmd req \<noteq> []
      \<and> snd (startUDSListener env (new_uuid env)) = None
      \<and> snd (createAgentDriveImage env (new_uuid env)) = None
      \<and> net_Listen env (filepath_Join (agentMountOf (new_uuid env)) ''agent.sock'') = None
      \<and> os_MkdirTemp env = Inr mountDir
      \<and> mount_loop env mountDir = None
      \<and> os_MkdirAll env (mountDir @ ''/work'') = None
      \<and> snd (stageFiles env mountDir (mountDir @ ''/work'') (Files req)) = None
      \<and> umount env mountDir = None
      \<and> umount env (agentMountOf (new_uuid env)) = None
      \<and> snd (startFirecracker_agent env) = None)"

definition preamble_agent :: "env \<Rightarrow> RunRequest \<Rightarrow> string \<Rightarrow> event list" where
  "preamble_agent env req mountDir =
     fst (startUDSListener env (new_uuid env)) @ fst (createAgentDriveImage env (new_uuid env))
     @ [CloseListener, Remove (sockPathOf (new_uuid env)),
        Listen (filepath_Join (agentMountOf (new_uuid env)) ''agent.sock''), MkdirTemp,
        Mount rootfsPath mountDir, MkdirAll (mountDir @ ''/work'')]
     @ fst (stageFiles env mountDir (mountDir @ ''/work'') (Files req))
     @ [Umount mountDir, Umount (agentMountOf (new_uuid env))]
     @ fst (startFirecracker_agent env)"

definition cleanup_agent :: "env \<Rightarrow> string \<Rightarrow> event list" where
  "cleanup_agent env mountDir =
     [RemoveAll mountDir, CloseListener, Umount (agentMountOf (new_uuid env)),
      RemoveAll (execDirOf (new_uuid env)),
      RemoveAll (filepath_Dir (sockPathOf (new_uuid env))), CloseListener]"

text \<open>Environments in which the hypervisor answers 400 to the root drive, and in which the
  call for the agent drive fails with an IO error.\<close>

definition refusingEnv :: env where
  "refusingEnv =
     raceEnv\<lparr>put_result :=
       (\<lambda>path. if path = ''/drives/rootfs'' then Responded 400 ''{\"fault_message\":\"bad drive\"}''
               else Responded 204 [])\<rparr>"

definition ioFailEnv :: env where
  "ioFailEnv =
     raceEnv\<lparr>put_result :=
       (\<lambda>path. if path = ''/drives/agent'' then PutFailed ''context deadline exceeded''
               else Responded 204 [])\<rparr>"

text \<open>Requests without files and with one file.\<close>

definition echoRequest :: http_request where
  "echoRequest =
     \<lparr>Method = ''POST'', Decoded = Some \<lparr>Cmd = ''echo hi'', Files = [], TimeoutMs = 2000\<rparr>\<rparr>"

definition scriptRun :: RunRequest where
  "scriptRun = \<lparr>Cmd = ''sh main.sh'', Files = [(''main.sh'', ''echo file ok'')], TimeoutMs = 2000\<rparr>"

definition scriptRequest :: http_request where
  "scriptRequest = \<lparr>Method = ''POST'', Decoded = Some scriptRun\<rparr>"

text \<open>The names refused by the first three checks of \<open>resolveWorkPath\<close>, which do not
  depend on the work directory.\<close>

definition rejectedName :: "string \<Rightarrow> bool" where
  "rejectedName name =
     (name = [] \<or> filepath_IsAbs name \<or> filepath_Clean name = ''.''
      \<or> filepath_Clean name = ''..''
      \<or> HasPrefix (filepath_Clean name) (''..'' @ [Separator]))"

text \<open>A run in which every call succeeds and the guest completes; requests with one file
  of a given name.\<close>

definition completingEnv :: env where
  "completingEnv = raceEnv\<lparr>completion_reads := [Some noisyConsole]\<rparr>"

definition fileRequest :: "string \<Rightarrow> http_request" where
  "fileRequest name =
     \<lparr>Method = ''POST'',
      Decoded = Some \<lparr>Cmd = ''cat data'', Files = [(name, ''x'')], TimeoutMs = 2000\<rparr>\<rparr>"

text \<open>A request with a harmless file and a file whose name leaves the work directory.\<close>

definition mixedRun :: RunRequest where
  "mixedRun =
     \<lparr>Cmd = ''cat data'', Files = [(''ok.txt'', ''x''), (''../escaped'', ''x'')], TimeoutMs = 2000\<rparr>"

definition mixedRequest :: http_request where
  "mixedRequest = \<lparr>Method = ''POST'', Decoded = Some mixedRun\<rparr>"

text \<open>A path element as \<open>pathElems\<close> keeps it: not empty, not \<open>.\<close>, no separator.\<close>

definition properElem :: "string \<Rightarrow> bool" where
  "properElem e = (e \<noteq> [] \<and> e \<noteq> ''.'' \<and> Separator \<notin> set e)"

text \<open>The fourth check of \<open>resolveWorkPath\<close>: \<open>filepath.Rel\<close> fails, or its result is
  \<open>..\<close> or begins with \<open>..\<close> and the separator.\<close>

definition relEscapes :: "string \<Rightarrow> string \<Rightarrow> bool" where
  "relEscapes workDir targetPath =
     (case filepath_Rel workDir targetPath of
        None \<Rightarrow> True
      | Some rel \<Rightarrow> rel = ''..'' \<or> HasPrefix rel (''..'' @ [Separator]))"

text \<open>A path lies under a root: both are absolute or both relative, the elements of
  the cleaned root are a proper prefix of the elements of the path, and none of the
  elements after them is \<open>..\<close>.\<close>

definition liesUnder :: "string \<Rightarrow> string \<Rightarrow> bool" where
  "liesUnder root path =
     (let r = cleanElems (filepath_IsAbs root) root; p = pathElems path in
      filepath_IsAbs path = filepath_IsAbs root
      \<and> length r < length p \<and> take (length r) p = r
      \<and> ''..'' \<notin> set (drop (length r) p))"




section \<open>The console parsers\<close>











lemma scanExitCode_None: "scanExitCode ls = None \<longleftrightarrow> list_all (\<lambda>l. \<not> isExitLine l) ls"
  by (induction ls) (auto simp: isExitLine_def)

lemma exitMarker_guest: "HasPrefix l exitMarker \<Longrightarrow> HasPrefix l ''[guest]''"
  unfolding HasPrefix_def exitMarker_def
  by (auto simp: prefix_def)

lemma scanExitCode_filter:
  "scanExitCode (filter (\<lambda>l. HasPrefix l ''[guest]'' \<or> Q l) ls) = scanExitCode ls"
  by (induction ls) (auto dest: exitMarker_guest)

lemma scanExitCode_guestLines: "scanExitCode (guestLines t) = scanExitCode (Split t LF)"
  by (simp add: guestLines_def scanExitCode_filter)

lemma waiter_skip:
  "list_all undecided pre \<Longrightarrow>
   waitForGuestCompletion (pre @ rest) final = waitForGuestCompletion rest final"
proof (induction pre)
  case Nil
  then show ?case by simp
next
  case (Cons rd pre)
  then show ?case
    by (cases rd)
      (auto simp: undecided_def Let_def scanExitCode_None[symmetric] split: option.splits)
qed

lemma waiter_v0_skip:
  "list_all undecided pre \<Longrightarrow>
   waitForGuestCompletion_v0 (pre @ rest) final = waitForGuestCompletion_v0 rest final"
proof (induction pre)
  case Nil
  then show ?case by simp
next
  case (Cons rd pre)
  then show ?case
    by (cases rd)
      (auto simp: undecided_def Let_def scanExitCode_guestLines scanExitCode_None[symmetric]
            split: option.splits)
qed




lemma init_skip:
  "list_all bootUndecided pre \<Longrightarrow>
   waitForGuestInitStarted (pre @ rest) = waitForGuestInitStarted rest"
proof (induction pre)
  case Nil
  then show ?case by simp
next
  case (Cons rd pre)
  then show ?case
    by (cases rd) (auto simp: bootUndecided_def Let_def)
qed

lemma waiter_deadline:
  "list_all undecided reads \<Longrightarrow>
   waitForGuestCompletion reads final
     = (ReplaceAll_CRLF (case final of None \<Rightarrow> [] | Some c \<Rightarrow> c), 124, Some timeoutCompletionMsg)"
  using waiter_skip [of reads "[]" final] by simp

lemma waiter_v0_deadline:
  "list_all undecided reads \<Longrightarrow>
   waitForGuestCompletion_v0 reads final
     = (case final of None \<Rightarrow> [] | Some c \<Rightarrow> c, 124, Some timeoutCompletionMsg)"
  using waiter_v0_skip [of reads "[]" final] by simp

lemma waiter_decided:
  assumes "list_all undecided pre" and "\<not> undecided (Some b)"
  shows "fst (waitForGuestCompletion (pre @ Some b # polls) final) = ReplaceAll_CRLF b"
    and "snd (snd (waitForGuestCompletion (pre @ Some b # polls) final)) = None"
    and "fst (waitForGuestCompletion_v0 (pre @ Some b # polls) final)
           = Join (guestLines (ReplaceAll_CRLF b)) [LF] @ [LF]"
    and "snd (snd (waitForGuestCompletion_v0 (pre @ Some b # polls) final)) = None"
  using assms
  by (auto simp: waiter_skip waiter_v0_skip undecided_def Let_def scanExitCode_guestLines
        scanExitCode_None[symmetric] split: option.splits)

lemma pushByte_no_sep: "\<forall>f\<in>set fs. c \<notin> set f \<Longrightarrow> x \<noteq> c \<Longrightarrow> \<forall>f\<in>set (pushByte x fs). c \<notin> set f"
  by (cases fs) auto

lemma Split_fields_no_sep: "\<forall>f\<in>set (Split s c). c \<notin> set f"
  by (induction s) (auto simp: pushByte_no_sep)

lemma Split_not_Nil: "Split s c \<noteq> []"
  by (induction s) (auto, metis list.exhaust pushByte.simps list.distinct(1))

lemma Split_no_sep: "c \<notin> set l \<Longrightarrow> Split l c = [l]"
  by (induction l) auto





section \<open>The wait for the guest\<close>

lemma fcPut_accepted: "accepted env p \<Longrightarrow> fcPut env p b = ([Put p b], None)"
  by (auto simp: fcPut_def accepted_def split: put_result.splits)

lemma fcPut_refused: "\<not> accepted env p \<Longrightarrow> \<exists>e. fcPut env p b = ([Put p b], Some e)"
  by (auto simp: fcPut_def accepted_def split: put_result.splits)

lemma orFail_ok: "snd step = None \<Longrightarrow> orFail step code rest = (fst step @ fst rest, snd rest)"
  by (simp add: orFail_def)

lemma orFail_err: "snd step = Some e \<Longrightarrow> orFail step code rest = (fst step, httpError e code)"
  by (simp add: orFail_def)

lemma configureAndRun_reaches:
  assumes "snd (waitForSocket fcSocket (stat_socket env)) = None"
    and "accepted env ''/machine-config''" and "accepted env ''/boot-source''"
    and "accepted env ''/drives/rootfs''" and "accepted env ''/actions''"
  shows "configureAndRun env req =
    (fst (waitForSocket fcSocket (stat_socket env))
     @ [Put ''/machine-config'' (MachineConfig 1 256 False),
        Put ''/boot-source'' (BootSource kernelPath (bootArgs req)),
        Put ''/drives/rootfs'' (Drive ''rootfs'' rootfsPath True False),
        Put ''/actions'' (Action ''InstanceStart'')]
     @ fst (awaitGuest env req), snd (awaitGuest env req))"
  using assms by (simp add: configureAndRun_def orFail_ok fcPut_accepted)

lemma runHandler_reaches:
  assumes "reachesGuest env r req mountDir"
  shows "runHandler env r =
    (MkdirTemp # Mount rootfsPath mountDir # MkdirAll (mountDir @ ''/work'')
     # fst (stageFiles env mountDir (mountDir @ ''/work'') (Files req))
     @ [Umount mountDir] @ fst (startFirecracker env)
     @ fst (waitForSocket fcSocket (stat_socket env))
     @ [Put ''/machine-config'' (MachineConfig 1 256 False),
        Put ''/boot-source'' (BootSource kernelPath (bootArgs req)),
        Put ''/drives/rootfs'' (Drive ''rootfs'' rootfsPath True False),
        Put ''/actions'' (Action ''InstanceStart'')]
     @ fst (awaitGuest env req)
     @ [Kill, Wait, CloseFile fcConsole, RemoveAll mountDir],
     snd (awaitGuest env req))"
proof -
  have c: "configureAndRun env req =
    (fst (waitForSocket fcSocket (stat_socket env))
     @ [Put ''/machine-config'' (MachineConfig 1 256 False),
        Put ''/boot-source'' (BootSource kernelPath (bootArgs req)),
        Put ''/drives/rootfs'' (Drive ''rootfs'' rootfsPath True False),
        Put ''/actions'' (Action ''InstanceStart'')]
     @ fst (awaitGuest env req), snd (awaitGuest env req))"
    using assms by (intro configureAndRun_reaches) (simp_all add: reachesGuest_def)
  have w: "withFirecracker env req =
    (fst (startFirecracker env) @ fst (configureAndRun env req) @ [Kill, Wait, CloseFile fcConsole],
     snd (configureAndRun env req))"
    using assms by (auto simp: withFirecracker_def reachesGuest_def split: prod.splits)
  have s: "stageAndRun env req mountDir =
    (Mount rootfsPath mountDir # MkdirAll (mountDir @ ''/work'')
     # fst (stageFiles env mountDir (mountDir @ ''/work'') (Files req))
     @ [Umount mountDir] @ fst (withFirecracker env req), snd (withFirecracker env req))"
    using assms by (auto simp: stageAndRun_def reachesGuest_def Let_def split: prod.splits)
  show ?thesis
    using assms by (simp add: runHandler_def reachesGuest_def s w c)
qed

lemma raceEnv_reaches: "reachesGuest raceEnv sleepRequest sleepRun ''/tmp/rootfs-mount-1''"
  by code_simp

text \<open>
  C1: the claim wants stderr \<open>execution timed out\<close> and an empty stdout whenever the guest
  command has not finished within \<open>timeout_ms\<close>. The waiter has a deadline of its own of
  the same length as the timer of the handler; when its result is taken first, the handler
  answers 200 with exit code 124, but with the waiter's message as stderr and the console
  text as stdout. When the timer is taken first the answer is as the claim says.
\<close>

theorem waiter_deadline_wins_race:
  "snd (runHandler raceEnv sleepRequest)
     = \<lparr>Status = 200,
        Body = Json \<lparr>Stdout = ''[guest] init started\<newline>'',
                     Stderr = ''timeout waiting for guest completion'',
                     ExitCode = 124\<rparr>\<rparr>
   \<and> snd (runHandler (raceEnv\<lparr>select_first := TimerFirst\<rparr>) sleepRequest)
     = \<lparr>Status = 200,
        Body = Json \<lparr>Stdout = [], Stderr = ''execution timed out'', ExitCode = 124\<rparr>\<rparr>"
  by code_simp

lemma init_started_iff:
  "waitForGuestInitStarted reads = None \<longleftrightarrow>
   (\<exists>pre b rest. reads = pre @ Some b # rest \<and> list_all bootUndecided pre
      \<and> Contains (ReplaceAll_CRLF b) initMarker)"
proof
  assume "waitForGuestInitStarted reads = None"
  then show "\<exists>pre b rest. reads = pre @ Some b # rest \<and> list_all bootUndecided pre
      \<and> Contains (ReplaceAll_CRLF b) initMarker"
  proof (induction reads)
    case Nil
    then show ?case by simp
  next
    case (Cons rd reads)
    show ?case
    proof (cases rd)
      case None
      with Cons obtain pre b rest where
        "reads = pre @ Some b # rest" "list_all bootUndecided pre"
        "Contains (ReplaceAll_CRLF b) initMarker"
        by auto
      then have "rd # reads = (None # pre) @ Some b # rest \<and> list_all bootUndecided (None # pre)
          \<and> Contains (ReplaceAll_CRLF b) initMarker"
        using None by (simp add: bootUndecided_def)
      then show ?thesis by blast
    next
      case (Some c)
      show ?thesis
      proof (cases "Contains (ReplaceAll_CRLF c) initMarker")
        case True
        then have "rd # reads = [] @ Some c # reads \<and> list_all bootUndecided []
            \<and> Contains (ReplaceAll_CRLF c) initMarker"
          using Some by simp
        then show ?thesis by blast
      next
        case False
        with Cons.prems Some have u: "bootUndecided (Some c)" and r: "waitForGuestInitStarted reads = None"
          by (auto simp: bootUndecided_def Let_def split: if_splits)
        from Cons.IH [OF r] obtain pre b rest where
          "reads = pre @ Some b # rest" "list_all bootUndecided pre"
          "Contains (ReplaceAll_CRLF b) initMarker"
          by auto
        then have "rd # reads = (Some c # pre) @ Some b # rest
            \<and> list_all bootUndecided (Some c # pre) \<and> Contains (ReplaceAll_CRLF b) initMarker"
          using Some u by simp
        then show ?thesis by blast
      qed
    qed
  qed
next
  assume "\<exists>pre b rest. reads = pre @ Some b # rest \<and> list_all bootUndecided pre
      \<and> Contains (ReplaceAll_CRLF b) initMarker"
  then show "waitForGuestInitStarted reads = None"
    by (auto simp: init_skip)
qed

lemma init_halted:
  assumes "list_all bootUndecided pre" and "\<not> Contains (ReplaceAll_CRLF b) initMarker"
    and "Contains (ReplaceAll_CRLF b) panicMarker \<or> Contains (ReplaceAll_CRLF b) haltedMarker"
  shows "waitForGuestInitStarted (pre @ Some b # rest)
    = Some ''guest did not reach init started (halt/panic)''"
  using assms by (auto simp: init_skip)

lemma awaitGuest_boot_failure:
  "waitForGuestInitStarted (init_reads env) = Some err \<Longrightarrow>
   awaitGuest env req =
     ([WaitInit (5 * Second)],
      writeJSON \<lparr>Stdout = [], Stderr = ''boot timeout: '' @ err, ExitCode = 124\<rparr>)"
  by (simp add: awaitGuest_def Let_def)

lemma awaitGuest_timer:
  "waitForGuestInitStarted (init_reads env) = None \<Longrightarrow> select_first env = TimerFirst \<Longrightarrow>
   awaitGuest env req =
     ([WaitInit (5 * Second), WaitCompletion (msDuration (effectiveTimeoutMs req)),
       NewTimer (msDuration (effectiveTimeoutMs req)), Kill, Wait, StopTimer],
      writeJSON \<lparr>Stdout = [], Stderr = ''execution timed out'', ExitCode = 124\<rparr>)"
  by (simp add: awaitGuest_def Let_def)

lemma awaitGuest_done:
  "waitForGuestInitStarted (init_reads env) = None \<Longrightarrow> select_first env = DoneFirst \<Longrightarrow>
   waitForGuestCompletion (completion_reads env) (final_read env) = (out, code, err) \<Longrightarrow>
   awaitGuest env req =
     ([WaitInit (5 * Second), WaitCompletion (msDuration (effectiveTimeoutMs req)),
       NewTimer (msDuration (effectiveTimeoutMs req)), StopTimer, Kill, Wait, StopTimer],
      writeJSON \<lparr>Stdout = out, Stderr = (case err of None \<Rightarrow> [] | Some e \<Rightarrow> e),
                 ExitCode = code\<rparr>)"
  by (simp add: awaitGuest_def Let_def)

lemma awaitGuest_undecided_124:
  assumes "waitForGuestInitStarted (init_reads env) = None"
    and "list_all undecided (completion_reads env)"
  shows "exitCodeOf (snd (awaitGuest env req)) = Some 124"
proof (cases "select_first env")
  case DoneFirst
  then show ?thesis
    using assms
    by (simp add: awaitGuest_done [OF assms(1) DoneFirst waiter_deadline [OF assms(2)]]
        exitCodeOf_def writeJSON_def)
next
  case TimerFirst
  then show ?thesis
    using assms by (simp add: awaitGuest_timer exitCodeOf_def writeJSON_def)
qed

lemma awaitGuest_v0_undecided_124:
  assumes "list_all undecided (completion_reads env)"
  shows "exitCodeOf (snd (awaitGuest_v0 env req)) = Some 124"
  using assms
  by (cases "select_first env")
    (simp_all add: awaitGuest_v0_def waiter_v0_deadline exitCodeOf_def writeJSON_def Let_def)

lemma first_decided:
  assumes "\<not> list_all undecided reads"
  shows "\<exists>pre b polls. reads = pre @ Some b # polls \<and> list_all undecided pre
           \<and> \<not> undecided (Some b)"
proof -
  from assms have "\<exists>rd\<in>set reads. \<not> undecided rd" by (simp add: list_all_iff)
  from split_list_first_prop [OF this] obtain pre rd polls where
    r: "reads = pre @ rd # polls" and d: "\<not> undecided rd" and u: "\<forall>y\<in>set pre. \<not> \<not> undecided y"
    by blast
  from d obtain b where "rd = Some b" by (cases rd) (auto simp: undecided_def)
  with r d u show ?thesis by (auto simp: list_all_iff)
qed

lemma waiter_error_iff:
  "snd (snd (waitForGuestCompletion reads final)) = Some timeoutCompletionMsg
     \<longleftrightarrow> list_all undecided reads"
  "snd (snd (waitForGuestCompletion_v0 reads final)) = Some timeoutCompletionMsg
     \<longleftrightarrow> list_all undecided reads"
proof -
  show "snd (snd (waitForGuestCompletion reads final)) = Some timeoutCompletionMsg
     \<longleftrightarrow> list_all undecided reads"
  proof (cases "list_all undecided reads")
    case True
    then show ?thesis by (simp add: waiter_deadline)
  next
    case False
    from first_decided [OF this] obtain pre b polls where
      "reads = pre @ Some b # polls" "list_all undecided pre" "\<not> undecided (Some b)"
      by blast
    then show ?thesis using False by (simp add: waiter_decided(2))
  qed
  show "snd (snd (waitForGuestCompletion_v0 reads final)) = Some timeoutCompletionMsg
     \<longleftrightarrow> list_all undecided reads"
  proof (cases "list_all undecided reads")
    case True
    then show ?thesis by (simp add: waiter_v0_deadline)
  next
    case False
    from first_decided [OF this] obtain pre b polls where
      "reads = pre @ Some b # polls" "list_all undecided pre" "\<not> undecided (Some b)"
      by blast
    then show ?thesis using False by (simp add: waiter_decided(4))
  qed
qed

text \<open>
  C9, as the code has it. In both completion waiters, a read of the console with
  \<open>reboot: System halted\<close> and no exit line (a line that begins with
  \<open>[guest] exit code:\<close> and has exactly one colon) ends the wait with exit code 0 and no
  error, whatever else the text shows: the completion waiters do not look for
  \<open>Kernel panic\<close>. They return the error \<open>timeout waiting for guest completion\<close> exactly
  when no read before the deadline shows an exit line or the halt message, and the exit
  code is then 124, in the waiters and in the answer of the handlers whichever case of the
  \<open>select\<close> is taken. So a panic is reported as 124 only at the deadline, or, in the
  current handler, by the boot waiter: a panic or a halt that is read before the init
  marker is answered at once with 124 and a \<open>boot timeout\<close> message.
\<close>

theorem halt_is_zero_panic_is_timeout:
  "(list_all undecided pre \<and> list_all (\<lambda>l. \<not> isExitLine l) (Split (ReplaceAll_CRLF b) LF)
      \<and> Contains (ReplaceAll_CRLF b) haltedMarker \<longrightarrow>
      waitForGuestCompletion (pre @ Some b # polls) final = (ReplaceAll_CRLF b, 0, None)
      \<and> waitForGuestCompletion_v0 (pre @ Some b # polls) final
          = (Join (guestLines (ReplaceAll_CRLF b)) [LF] @ [LF], 0, None))
   \<and> (snd (snd (waitForGuestCompletion reads final')) = Some timeoutCompletionMsg
        \<longleftrightarrow> list_all undecided reads)
   \<and> (snd (snd (waitForGuestCompletion_v0 reads final')) = Some timeoutCompletionMsg
        \<longleftrightarrow> list_all undecided reads)
   \<and> (list_all undecided reads \<longrightarrow>
      fst (snd (waitForGuestCompletion reads final')) = 124
      \<and> fst (snd (waitForGuestCompletion_v0 reads final')) = 124
      \<and> exitCodeOf (snd (awaitGuest_v0 (env\<lparr>completion_reads := reads\<rparr>) req)) = Some 124
      \<and> (waitForGuestInitStarted (init_reads env) = None \<longrightarrow>
           exitCodeOf (snd (awaitGuest (env\<lparr>completion_reads := reads\<rparr>) req)) = Some 124))
   \<and> (list_all bootUndecided pre' \<and> \<not> Contains (ReplaceAll_CRLF d) initMarker
      \<and> (Contains (ReplaceAll_CRLF d) panicMarker \<or> Contains (ReplaceAll_CRLF d) haltedMarker) \<longrightarrow>
      snd (awaitGuest (env'\<lparr>init_reads := pre' @ Some d # rest'\<rparr>) req')
        = writeJSON \<lparr>Stdout = [],
                     Stderr = ''boot timeout: guest did not reach init started (halt/panic)'',
                     ExitCode = 124\<rparr>)"
proof (intro conjI impI)
  assume a: "list_all undecided pre \<and> list_all (\<lambda>l. \<not> isExitLine l) (Split (ReplaceAll_CRLF b) LF)
      \<and> Contains (ReplaceAll_CRLF b) haltedMarker"
  then have n: "scanExitCode (Split (ReplaceAll_CRLF b) LF) = None"
    by (simp add: scanExitCode_None)
  show "waitForGuestCompletion (pre @ Some b # polls) final = (ReplaceAll_CRLF b, 0, None)"
    using a n by (simp add: waiter_skip Let_def)
  show "waitForGuestCompletion_v0 (pre @ Some b # polls) final
          = (Join (guestLines (ReplaceAll_CRLF b)) [LF] @ [LF], 0, None)"
    using a n by (simp add: waiter_v0_skip Let_def scanExitCode_guestLines)
next
  show "snd (snd (waitForGuestCompletion reads final')) = Some timeoutCompletionMsg
        \<longleftrightarrow> list_all undecided reads"
    by (rule waiter_error_iff)
  show "snd (snd (waitForGuestCompletion_v0 reads final')) = Some timeoutCompletionMsg
        \<longleftrightarrow> list_all undecided reads"
    by (rule waiter_error_iff)
next
  assume a: "list_all undecided reads"
  then show "fst (snd (waitForGuestCompletion reads final')) = 124"
    and "fst (snd (waitForGuestCompletion_v0 reads final')) = 124"
    by (simp_all add: waiter_deadline waiter_v0_deadline)
  show "exitCodeOf (snd (awaitGuest_v0 (env\<lparr>completion_reads := reads\<rparr>) req)) = Some 124"
    using a by (simp add: awaitGuest_v0_undecided_124)
  show "exitCodeOf (snd (awaitGuest (env\<lparr>completion_reads := reads\<rparr>) req)) = Some 124"
    if "waitForGuestInitStarted (init_reads env) = None"
    using a that by (simp add: awaitGuest_undecided_124)
next
  assume "list_all bootUndecided pre' \<and> \<not> Contains (ReplaceAll_CRLF d) initMarker
      \<and> (Contains (ReplaceAll_CRLF d) panicMarker \<or> Contains (ReplaceAll_CRLF d) haltedMarker)"
  then have "waitForGuestInitStarted (pre' @ Some d # rest')
      = Some ''guest did not reach init started (halt/panic)''"
    by (intro init_halted) auto
  then show "snd (awaitGuest (env'\<lparr>init_reads := pre' @ Some d # rest'\<rparr>) req')
        = writeJSON \<lparr>Stdout = [],
                     Stderr = ''boot timeout: guest did not reach init started (halt/panic)'',
                     ExitCode = 124\<rparr>"
    by (simp add: awaitGuest_boot_failure)
qed

theorem halt_is_zero_panic_is_timeout_witness:
  "waitForGuestCompletion ([None] @ Some panicHaltConsole # []) None
     = (ReplaceAll_CRLF panicHaltConsole, 0, None)
   \<and> waitForGuestCompletion_v0 ([None] @ Some panicHaltConsole # []) None
     = (Join (guestLines (ReplaceAll_CRLF panicHaltConsole)) [LF] @ [LF], 0, None)
   \<and> fst (snd (waitForGuestCompletion [Some panicConsole] None)) = 124
   \<and> fst (snd (waitForGuestCompletion_v0 [Some panicConsole] None)) = 124
   \<and> exitCodeOf (snd (awaitGuest_v0 (raceEnv\<lparr>completion_reads := [Some panicConsole]\<rparr>) sleepRun))
       = Some 124
   \<and> exitCodeOf (snd (awaitGuest (raceEnv\<lparr>completion_reads := [Some panicConsole]\<rparr>) sleepRun))
       = Some 124
   \<and> snd (awaitGuest (raceEnv\<lparr>init_reads := [None] @ Some panicConsole # []\<rparr>) sleepRun)
       = writeJSON \<lparr>Stdout = [],
                    Stderr = ''boot timeout: guest did not reach init started (halt/panic)'',
                    ExitCode = 124\<rparr>"
proof -
  have 1: "list_all undecided [None]
    \<and> list_all (\<lambda>l. \<not> isExitLine l) (Split (ReplaceAll_CRLF panicHaltConsole) LF)
    \<and> Contains (ReplaceAll_CRLF panicHaltConsole) haltedMarker"
    by code_simp
  have 2: "list_all undecided [Some panicConsole]"
    by code_simp
  have 3: "waitForGuestInitStarted (init_reads raceEnv) = None"
    by code_simp
  have 4: "list_all bootUndecided [None] \<and> \<not> Contains (ReplaceAll_CRLF panicConsole) initMarker
    \<and> (Contains (ReplaceAll_CRLF panicConsole) panicMarker
        \<or> Contains (ReplaceAll_CRLF panicConsole) haltedMarker)"
    by code_simp
  note t = halt_is_zero_panic_is_timeout [where pre = "[None]" and b = panicHaltConsole
        and polls = "[]" and final = None and reads = "[Some panicConsole]"
        and final' = None and env = raceEnv and req = sleepRun and pre' = "[None]"
        and d = panicConsole and rest' = "[]" and env' = raceEnv and req' = sleepRun]
  note c1 = t [THEN conjunct1, THEN mp, OF 1]
  note c4 = t [THEN conjunct2, THEN conjunct2, THEN conjunct2, THEN conjunct1, THEN mp, OF 2]
  note c5 = t [THEN conjunct2, THEN conjunct2, THEN conjunct2, THEN conjunct2, THEN mp, OF 4]
  show ?thesis
    by (intro conjI c1 [THEN conjunct1] c1 [THEN conjunct2] c4 [THEN conjunct1]
        c4 [THEN conjunct2, THEN conjunct1] c4 [THEN conjunct2, THEN conjunct2, THEN conjunct1]
        c4 [THEN conjunct2, THEN conjunct2, THEN conjunct2, THEN mp, OF 3] c5)
qed

text \<open>
  C9 as stated fails: a console that shows \<open>Kernel panic\<close> and then
  \<open>reboot: System halted\<close> after the init marker ends the wait with exit code 0, in both
  waiters and in the answer of the current handler; and a halt with no exit line is
  reported as 0, not as 124.
\<close>

theorem halt_is_zero_panic_is_timeout_counterexample:
  "Contains panicHaltConsole panicMarker
   \<and> list_all (\<lambda>l. \<not> HasPrefix l exitMarker) (Split panicHaltConsole LF)
   \<and> waitForGuestCompletion [Some panicHaltConsole] None = (panicHaltConsole, 0, None)
   \<and> waitForGuestCompletion_v0 [Some panicHaltConsole] None
       = (''[guest] init started\<newline>'', 0, None)
   \<and> snd (runHandler (raceEnv\<lparr>completion_reads := [Some panicHaltConsole]\<rparr>) sleepRequest)
       = \<lparr>Status = 200,
          Body = Json \<lparr>Stdout = panicHaltConsole, Stderr = [], ExitCode = 0\<rparr>\<rparr>
   \<and> waitForGuestCompletion [Some haltedConsole] None = (haltedConsole, 0, None)"
  by code_simp









lemma msDuration_in_range:
  "- 9223372036854 \<le> ms \<Longrightarrow> ms \<le> 9223372036854 \<Longrightarrow> msDuration ms = ms * Millisecond"
  by (simp add: msDuration_def wrap64_def Millisecond_def)

text \<open>
  The boot grace of the current handler. The handler waits for the init marker with a
  limit of 5 seconds. If the marker is not seen (deadline, or a halt or panic first), the
  answer is stdout empty, exit code 124 and a stderr that begins with \<open>boot timeout: \<close>,
  and no completion wait or timer is started. If it is seen, the completion waiter and
  the timer are started after it, both with the full \<open>timeout_ms\<close> (5000 ms when it is not
  positive) as long as the product with \<open>time.Millisecond\<close> fits 64 bits: the boot time is
  not deducted. The marker counts as seen exactly when some read contains it and no
  earlier read shows a halt or a panic.
\<close>

theorem boot_grace_not_charged:
  "(waitForGuestInitStarted (init_reads env) = Some err \<longrightarrow>
      awaitGuest env req =
        ([WaitInit (5 * Second)],
         writeJSON \<lparr>Stdout = [], Stderr = ''boot timeout: '' @ err, ExitCode = 124\<rparr>))
   \<and> (waitForGuestInitStarted (init_reads env) = None \<longrightarrow>
      (\<exists>rest. fst (awaitGuest env req) =
         WaitInit (5 * Second) # WaitCompletion (msDuration (effectiveTimeoutMs req))
         # NewTimer (msDuration (effectiveTimeoutMs req)) # rest))
   \<and> (0 < TimeoutMs req \<and> TimeoutMs req \<le> 9223372036854 \<longrightarrow>
      msDuration (effectiveTimeoutMs req) = TimeoutMs req * Millisecond)
   \<and> (TimeoutMs req \<le> 0 \<longrightarrow> msDuration (effectiveTimeoutMs req) = 5000 * Millisecond)
   \<and> (waitForGuestInitStarted reads = None \<longleftrightarrow>
      (\<exists>pre b rest. reads = pre @ Some b # rest \<and> list_all bootUndecided pre
         \<and> Contains (ReplaceAll_CRLF b) initMarker))
   \<and> (reachesGuest env r req mountDir \<longrightarrow>
      snd (runHandler env r) = snd (awaitGuest env req)
      \<and> (\<exists>pre. fst (runHandler env r)
            = pre @ fst (awaitGuest env req) @ [Kill, Wait, CloseFile fcConsole, RemoveAll mountDir]
            \<and> (\<forall>d. WaitInit d \<notin> set pre \<and> WaitCompletion d \<notin> set pre \<and> NewTimer d \<notin> set pre)))"
proof (intro conjI impI)
  show "awaitGuest env req =
        ([WaitInit (5 * Second)],
         writeJSON \<lparr>Stdout = [], Stderr = ''boot timeout: '' @ err, ExitCode = 124\<rparr>)"
    if "waitForGuestInitStarted (init_reads env) = Some err"
    using that by (rule awaitGuest_boot_failure)
  show "\<exists>rest. fst (awaitGuest env req) =
         WaitInit (5 * Second) # WaitCompletion (msDuration (effectiveTimeoutMs req))
         # NewTimer (msDuration (effectiveTimeoutMs req)) # rest"
    if "waitForGuestInitStarted (init_reads env) = None"
    using that
    by (cases "select_first env")
      (auto simp: awaitGuest_def Let_def split: prod.splits)
  show "msDuration (effectiveTimeoutMs req) = TimeoutMs req * Millisecond"
    if "0 < TimeoutMs req \<and> TimeoutMs req \<le> 9223372036854"
    using that by (simp add: effectiveTimeoutMs_def msDuration_in_range)
  show "msDuration (effectiveTimeoutMs req) = 5000 * Millisecond"
    if "TimeoutMs req \<le> 0"
    using that by (simp add: effectiveTimeoutMs_def msDuration_in_range)
  show "waitForGuestInitStarted reads = None \<longleftrightarrow>
      (\<exists>pre b rest. reads = pre @ Some b # rest \<and> list_all bootUndecided pre
         \<and> Contains (ReplaceAll_CRLF b) initMarker)"
    by (rule init_started_iff)
next
  assume a: "reachesGuest env r req mountDir"
  show "snd (runHandler env r) = snd (awaitGuest env req)"
    by (simp add: runHandler_reaches [OF a])
  have q: "\<forall>d. WaitInit d \<notin> set tr \<and> WaitCompletion d \<notin> set tr \<and> NewTimer d \<notin> set tr"
    if "tr = fst (stageFiles env m w files)" for tr m w files
    using that
  proof (induction files arbitrary: tr)
    case Nil
    then show ?case by simp
  next
    case (Cons f files)
    then show ?case
      by (cases f) (auto split: sum.splits option.splits prod.splits if_splits)
  qed
  have s: "\<forall>d. WaitInit d \<notin> set (fst (waitForSocket p l)) \<and> WaitCompletion d \<notin> set (fst (waitForSocket p l))
      \<and> NewTimer d \<notin> set (fst (waitForSocket p l))" for p l
    by (induction l) (auto split: prod.splits)
  have f: "\<forall>d. WaitInit d \<notin> set (fst (startFirecracker env)) \<and> WaitCompletion d \<notin> set (fst (startFirecracker env))
      \<and> NewTimer d \<notin> set (fst (startFirecracker env))"
    by (auto simp: startFirecracker_def split: option.splits)
  let ?pre = "MkdirTemp # Mount rootfsPath mountDir # MkdirAll (mountDir @ ''/work'')
     # fst (stageFiles env mountDir (mountDir @ ''/work'') (Files req))
     @ [Umount mountDir] @ fst (startFirecracker env)
     @ fst (waitForSocket fcSocket (stat_socket env))
     @ [Put ''/machine-config'' (MachineConfig 1 256 False),
        Put ''/boot-source'' (BootSource kernelPath (bootArgs req)),
        Put ''/drives/rootfs'' (Drive ''rootfs'' rootfsPath True False),
        Put ''/actions'' (Action ''InstanceStart'')]"
  have "fst (runHandler env r)
            = ?pre @ fst (awaitGuest env req) @ [Kill, Wait, CloseFile fcConsole, RemoveAll mountDir]"
    by (simp add: runHandler_reaches [OF a])
  moreover have "\<forall>d. WaitInit d \<notin> set ?pre \<and> WaitCompletion d \<notin> set ?pre \<and> NewTimer d \<notin> set ?pre"
    using q [OF refl, of mountDir "mountDir @ ''/work''" "Files req"] s [of fcSocket "stat_socket env"] f
    by auto
  ultimately show "\<exists>pre. fst (runHandler env r)
            = pre @ fst (awaitGuest env req) @ [Kill, Wait, CloseFile fcConsole, RemoveAll mountDir]
            \<and> (\<forall>d. WaitInit d \<notin> set pre \<and> WaitCompletion d \<notin> set pre \<and> NewTimer d \<notin> set pre)"
    by blast
qed

theorem boot_grace_not_charged_witness:
  "awaitGuest (raceEnv\<lparr>init_reads := [None]\<rparr>) sleepRun =
     ([WaitInit (5 * Second)],
      writeJSON \<lparr>Stdout = [],
                 Stderr = ''boot timeout: '' @ ''timeout waiting for guest init started'',
                 ExitCode = 124\<rparr>)
   \<and> (\<exists>rest. fst (awaitGuest raceEnv sleepRun) =
         WaitInit (5 * Second) # WaitCompletion (msDuration (effectiveTimeoutMs sleepRun))
         # NewTimer (msDuration (effectiveTimeoutMs sleepRun)) # rest)
   \<and> msDuration (effectiveTimeoutMs sleepRun) = TimeoutMs sleepRun * Millisecond
   \<and> msDuration (effectiveTimeoutMs (sleepRun\<lparr>TimeoutMs := 0\<rparr>)) = 5000 * Millisecond
   \<and> snd (runHandler raceEnv sleepRequest) = snd (awaitGuest raceEnv sleepRun)"
proof -
  have 1: "waitForGuestInitStarted (init_reads (raceEnv\<lparr>init_reads := [None]\<rparr>))
             = Some ''timeout waiting for guest init started''"
    by code_simp
  have 2: "waitForGuestInitStarted (init_reads raceEnv) = None"
    by code_simp
  have 3: "0 < TimeoutMs sleepRun \<and> TimeoutMs sleepRun \<le> 9223372036854"
    by code_simp
  have 4: "TimeoutMs (sleepRun\<lparr>TimeoutMs := 0\<rparr>) \<le> 0"
    by code_simp
  note a = boot_grace_not_charged [where env = "raceEnv\<lparr>init_reads := [None]\<rparr>"
        and err = "''timeout waiting for guest init started''" and req = sleepRun]
  note b = boot_grace_not_charged [where env = raceEnv and req = sleepRun and r = sleepRequest
        and mountDir = "''/tmp/rootfs-mount-1''"]
  note c = boot_grace_not_charged [where req = "sleepRun\<lparr>TimeoutMs := 0\<rparr>"]
  note c1 = a [THEN conjunct1, THEN mp, OF 1]
  note c2 = b [THEN conjunct2, THEN conjunct1, THEN mp, OF 2]
  note c3 = b [THEN conjunct2, THEN conjunct2, THEN conjunct1, THEN mp, OF 3]
  note c4 = c [THEN conjunct2, THEN conjunct2, THEN conjunct2, THEN conjunct1, THEN mp, OF 4]
  note c6 = b [THEN conjunct2, THEN conjunct2, THEN conjunct2, THEN conjunct2, THEN conjunct2,
      THEN mp, OF raceEnv_reaches, THEN conjunct1]
  show ?thesis
    by (intro conjI c1 c2 c3 c4 c6)
qed

text \<open>
  C7: the claim wants an execution timer of \<open>timeout_ms\<close> milliseconds, started after
  the init marker. The handler computes \<open>time.Duration(timeoutMs) * time.Millisecond\<close> in
  64 bits and puts no upper bound on \<open>timeoutMs\<close>: for \<open>timeout_ms = 9223372036855\<close> the
  product wraps to a negative duration. The deadline of the completion waiter has then
  passed before its first read of the console, and the timer fires at once: after the
  init marker the handler answers 124 immediately, whichever case of the \<open>select\<close> is
  taken, instead of letting the command run for \<open>timeout_ms\<close> milliseconds.
\<close>

theorem timer_duration_wraps:
  "msDuration (effectiveTimeoutMs (sleepRun\<lparr>TimeoutMs := 9223372036855\<rparr>))
     = - 9223372036854551616
   \<and> fst (awaitGuest (raceEnv\<lparr>completion_reads := []\<rparr>) (sleepRun\<lparr>TimeoutMs := 9223372036855\<rparr>))
     = [WaitInit (5 * Second), WaitCompletion (- 9223372036854551616),
        NewTimer (- 9223372036854551616), StopTimer, Kill, Wait, StopTimer]
   \<and> snd (runHandler (raceEnv\<lparr>completion_reads := []\<rparr>)
           \<lparr>Method = ''POST'', Decoded = Some (sleepRun\<lparr>TimeoutMs := 9223372036855\<rparr>)\<rparr>)
     = \<lparr>Status = 200,
        Body = Json \<lparr>Stdout = ''[guest] init started\<newline>'',
                     Stderr = ''timeout waiting for guest completion'',
                     ExitCode = 124\<rparr>\<rparr>
   \<and> snd (runHandler (raceEnv\<lparr>completion_reads := [], select_first := TimerFirst\<rparr>)
           \<lparr>Method = ''POST'', Decoded = Some (sleepRun\<lparr>TimeoutMs := 9223372036855\<rparr>)\<rparr>)
     = \<lparr>Status = 200,
        Body = Json \<lparr>Stdout = [], Stderr = ''execution timed out'', ExitCode = 124\<rparr>\<rparr>
   \<and> msDuration (effectiveTimeoutMs (sleepRun\<lparr>TimeoutMs := 9223372036854\<rparr>))
     = 9223372036854 * Millisecond"
  by code_simp

section \<open>Traces of the handlers\<close>

lemma putCalls_append [simp]: "putCalls (xs @ ys) = putCalls xs @ putCalls ys"
  by (induction xs rule: putCalls.induct) auto

lemma putCalls_hypervisorEvents [simp]: "putCalls (hypervisorEvents tr) = putCalls tr"
  unfolding hypervisorEvents_def
  by (induction tr rule: putCalls.induct) auto

lemma hypervisorEvents_append [simp]:
  "hypervisorEvents (xs @ ys) = hypervisorEvents xs @ hypervisorEvents ys"
  by (simp add: hypervisorEvents_def)

lemma hypervisorEvents_Nil [simp]: "hypervisorEvents [] = []"
  by (simp add: hypervisorEvents_def)

lemma hypervisorEvents_Cons:
  "hypervisorEvents (e # tr) = (if isHypervisorEvent e then e # hypervisorEvents tr else hypervisorEvents tr)"
  by (simp add: hypervisorEvents_def)

lemma hv_waitForSocket [simp]: "hypervisorEvents (fst (waitForSocket p l)) = fst (waitForSocket p l)"
  by (induction l) (auto simp: hypervisorEvents_Cons hypervisorEvents_def split: prod.splits)

lemma putCalls_waitForSocket [simp]: "putCalls (fst (waitForSocket p l)) = []"
  by (induction l) (auto split: prod.splits)

lemma waitForSocket_ok:
  "snd (waitForSocket p l) = None \<Longrightarrow> \<exists>pre. fst (waitForSocket p l) = pre @ [Stat p True]"
proof (induction l)
  case Nil
  then show ?case by simp
next
  case (Cons ok l)
  show ?case
  proof (cases ok)
    case True
    then show ?thesis by simp
  next
    case False
    with Cons.prems have "snd (waitForSocket p l) = None"
      by (simp split: prod.splits)
    from Cons.IH [OF this] obtain pre where "fst (waitForSocket p l) = pre @ [Stat p True]" ..
    then have "fst (waitForSocket p (ok # l)) = (Stat p False # pre) @ [Stat p True]"
      using False by (auto split: prod.splits)
    then show ?thesis by blast
  qed
qed

lemma hv_stageFiles [simp]: "hypervisorEvents (fst (stageFiles env m w files)) = []"
  by (induction files)
    (auto simp: hypervisorEvents_Cons hypervisorEvents_def split: sum.splits option.splits prod.splits)

lemma hv_stageFiles_v0 [simp]: "hypervisorEvents (fst (stageFiles_v0 env m w files)) = []"
  by (induction files)
    (auto simp: hypervisorEvents_Cons hypervisorEvents_def Let_def split: option.splits prod.splits)

lemma hv_startFirecracker:
  "hypervisorEvents (fst (startFirecracker env))
     = (if snd (startFirecracker env) = None then [StartProcess] else [])"
  by (auto simp: startFirecracker_def hypervisorEvents_def split: option.splits)

lemma hv_startFirecracker_v0:
  "hypervisorEvents (fst (startFirecracker_v0 env))
     = (if snd (startFirecracker_v0 env) = None then [StartProcess] else [])"
  by (auto simp: startFirecracker_v0_def hypervisorEvents_def split: option.splits)

lemma hv_startFirecracker_agent:
  "hypervisorEvents (fst (startFirecracker_agent env))
     = (if snd (startFirecracker_agent env) = None then [StartProcess] else [])"
  by (auto simp: startFirecracker_agent_def hypervisorEvents_def split: option.splits)

lemma configure_accepted:
  "list_all (\<lambda>c. accepted env (fst c)) cs \<Longrightarrow>
   configure env cs rest = (map (\<lambda>c. Put (fst c) (snd c)) cs @ fst rest, snd rest)"
  by (induction cs) (auto simp: orFail_ok fcPut_accepted)

lemma configure_refused:
  "\<not> list_all (\<lambda>c. accepted env (fst c)) cs \<Longrightarrow>
   fst (configure env cs rest) = map (\<lambda>c. Put (fst c) (snd c)) (issued env cs)
   \<and> Status (snd (configure env cs rest)) = 500"
proof (induction cs)
  case Nil
  then show ?case by simp
next
  case (Cons c cs)
  obtain p b where c: "c = (p, b)" by (cases c)
  show ?case
  proof (cases "accepted env p")
    case True
    with Cons c show ?thesis
      by (simp add: orFail_ok fcPut_accepted)
  next
    case False
    from fcPut_refused [OF False] obtain e where "fcPut env p b = ([Put p b], Some e)" ..
    with False c show ?thesis
      by (simp add: orFail_err httpError_def)
  qed
qed

lemma issued_accepted: "list_all (\<lambda>c. accepted env (fst c)) cs \<Longrightarrow> issued env cs = cs"
  by (induction cs) auto

lemma putCalls_map_Put [simp]: "putCalls (map (\<lambda>c. Put (fst c) (snd c)) cs) = cs"
  by (induction cs) auto

lemma putCalls_configure:
  "putCalls (fst (configure env cs rest))
     = (if list_all (\<lambda>c. accepted env (fst c)) cs then cs @ putCalls (fst rest) else issued env cs)"
  by (simp add: configure_accepted configure_refused)

lemma issued_prefix: "prefix (issued env cs) cs"
  by (induction cs) auto

lemma issued_refused_last:
  "issued env cs = xs @ (p, b) # ys \<Longrightarrow> \<not> accepted env p \<Longrightarrow> ys = []"
proof (induction cs arbitrary: xs)
  case Nil
  then show ?case by simp
next
  case (Cons c cs)
  obtain q d where c: "c = (q, d)" by (cases c)
  show ?case
  proof (cases xs)
    case Nil
    with Cons.prems c show ?thesis by (auto split: if_splits)
  next
    case (Cons x xs')
    with Cons.prems c have "accepted env q" and "issued env cs = xs' @ (p, b) # ys"
      by (auto split: if_splits)
    with Cons.IH Cons.prems show ?thesis by blast
  qed
qed

lemma issued_refused_not_all:
  "(p, b) \<in> set (issued env cs) \<Longrightarrow> \<not> accepted env p \<Longrightarrow> \<not> list_all (\<lambda>c. accepted env (fst c)) cs"
  by (induction cs) (auto split: if_splits)

lemma configureAndRun_configure:
  "configureAndRun env req =
     orFail (waitForSocket fcSocket (stat_socket env)) 500
       (configure env (configCalls req) (awaitGuest env req))"
  by (simp add: configureAndRun_def configCalls_def)

lemma configureAndRun_v0_configure:
  "configureAndRun_v0 env req =
     orFail (waitForSocket fcSocket (stat_socket env)) 500
       (configure env (configCalls_v0 req) (awaitGuest_v0 env req))"
  by (simp add: configureAndRun_v0_def configCalls_v0_def)

lemma configureAndRun_files_v0_configure:
  "configureAndRun_files_v0 env req =
     orFail (waitForSocket fcSocket (stat_socket env)) 500
       (configure env (configCalls_files_v0 req) (awaitGuest_files_v0 env))"
  by (simp add: configureAndRun_files_v0_def configCalls_files_v0_def)

lemma configureAndRun_agent_configure:
  "configureAndRun_agent env req execID =
     (case waitForSocket fcSocket (stat_socket env) of
        (tr, Some err) \<Rightarrow> (tr, socketTimeoutResponse env err)
      | (tr, None) \<Rightarrow>
          (tr @ fst (configure env (configCalls_agent req execID) (awaitAgent env req)),
           snd (configure env (configCalls_agent req execID) (awaitAgent env req))))"
  by (simp add: configureAndRun_agent_def configCalls_agent_def split: prod.splits option.splits)

lemma hv_awaitGuest:
  "\<exists>mid. hypervisorEvents (fst (awaitGuest env req)) = mid \<and> putCalls mid = []
     \<and> StartProcess \<notin> set mid \<and> (\<forall>p ok. Stat p ok \<notin> set mid)"
  by (cases "select_first env")
    (auto simp: awaitGuest_def Let_def hypervisorEvents_def split: option.splits prod.splits)

lemma putCalls_awaitGuest [simp]: "putCalls (fst (awaitGuest env req)) = []"
  by (cases "select_first env")
    (auto simp: awaitGuest_def Let_def split: option.splits prod.splits)

lemma putCalls_awaitGuest_v0 [simp]: "putCalls (fst (awaitGuest_v0 env req)) = []"
  by (cases "select_first env")
    (auto simp: awaitGuest_v0_def Let_def split: option.splits prod.splits)

lemma putCalls_awaitGuest_files_v0 [simp]: "putCalls (fst (awaitGuest_files_v0 env)) = []"
  by (auto simp: awaitGuest_files_v0_def split: prod.splits)

lemma putCalls_awaitAgent [simp]: "putCalls (fst (awaitAgent env req)) = []"
  by (auto simp: awaitAgent_def Let_def split: agent_result.splits)

text \<open>The calls made by the current handler.\<close>

lemma putCalls_orFail_socket:
  "putCalls (fst (orFail (waitForSocket p l) 500 rest))
     = (if snd (waitForSocket p l) = None then putCalls (fst rest) else [])"
  by (auto simp: orFail_def split: option.splits)

lemma putCalls_stageFiles [simp]: "putCalls (fst (stageFiles env m w files)) = []"
  using putCalls_hypervisorEvents [of "fst (stageFiles env m w files)"] by simp

lemma putCalls_stageFiles_v0 [simp]: "putCalls (fst (stageFiles_v0 env m w files)) = []"
  using putCalls_hypervisorEvents [of "fst (stageFiles_v0 env m w files)"] by simp

lemma putCalls_startFirecracker [simp]: "putCalls (fst (startFirecracker env)) = []"
  by (auto simp: startFirecracker_def split: option.splits)

lemma putCalls_startFirecracker_v0 [simp]: "putCalls (fst (startFirecracker_v0 env)) = []"
  by (auto simp: startFirecracker_v0_def split: option.splits)

lemma putCalls_startFirecracker_agent [simp]: "putCalls (fst (startFirecracker_agent env)) = []"
  by (auto simp: startFirecracker_agent_def split: option.splits)

lemma withFirecracker_alt:
  "withFirecracker env req =
     (case snd (startFirecracker env) of
        Some e \<Rightarrow> (fst (startFirecracker env), httpError e 500)
      | None \<Rightarrow>
          (fst (startFirecracker env) @ fst (configureAndRun env req)
           @ [Kill, Wait, CloseFile fcConsole], snd (configureAndRun env req)))"
  by (simp add: withFirecracker_def split: prod.splits option.splits)

lemma stageAndRun_alt:
  "stageAndRun env req m =
     (case mount_loop env m of
        Some e \<Rightarrow> ([Mount rootfsPath m], httpError e 500)
      | None \<Rightarrow>
          (case os_MkdirAll env (m @ ''/work'') of
             Some e \<Rightarrow> ([Mount rootfsPath m, MkdirAll (m @ ''/work''), Umount m], httpError e 500)
           | None \<Rightarrow>
               (case snd (stageFiles env m (m @ ''/work'') (Files req)) of
                  Some (msg, code) \<Rightarrow>
                    (Mount rootfsPath m # MkdirAll (m @ ''/work'')
                     # fst (stageFiles env m (m @ ''/work'') (Files req)), httpError msg code)
                | None \<Rightarrow>
                    (case umount env m of
                       Some e \<Rightarrow>
                         (Mount rootfsPath m # MkdirAll (m @ ''/work'')
                          # fst (stageFiles env m (m @ ''/work'') (Files req)) @ [Umount m],
                          httpError e 500)
                     | None \<Rightarrow>
                         (Mount rootfsPath m # MkdirAll (m @ ''/work'')
                          # fst (stageFiles env m (m @ ''/work'') (Files req)) @ [Umount m]
                          @ fst (withFirecracker env req), snd (withFirecracker env req))))))"
  by (simp add: stageAndRun_def Let_def split: prod.splits option.splits)

lemma runHandler_alt:
  "runHandler env r =
     (if Method r \<noteq> ''POST'' then ([], httpError ''POST only'' 405)
      else
        case Decoded r of
          None \<Rightarrow> ([], httpError ''invalid JSON'' 400)
        | Some req \<Rightarrow>
            if Cmd req = [] then ([], httpError ''cmd is required'' 400)
            else
              (case os_MkdirTemp env of
                 Inl e \<Rightarrow> ([MkdirTemp], httpError e 500)
               | Inr m \<Rightarrow>
                   (MkdirTemp # fst (stageAndRun env req m) @ [RemoveAll m],
                    snd (stageAndRun env req m))))"
  by (simp add: runHandler_def split: prod.splits option.splits sum.splits)

lemma putCalls_configureAndRun:
  "putCalls (fst (configureAndRun env req)) = []
   \<or> putCalls (fst (configureAndRun env req)) = issued env (configCalls req)"
  by (auto simp: configureAndRun_configure putCalls_orFail_socket putCalls_configure issued_accepted)

lemma putCalls_withFirecracker:
  "putCalls (fst (withFirecracker env req)) = []
   \<or> putCalls (fst (withFirecracker env req)) = issued env (configCalls req)"
  using putCalls_configureAndRun [of env req]
  by (auto simp: withFirecracker_alt split: option.splits)

lemma putCalls_stageAndRun:
  "putCalls (fst (stageAndRun env req m)) = []
   \<or> putCalls (fst (stageAndRun env req m)) = issued env (configCalls req)"
  using putCalls_withFirecracker [of env req]
  by (auto simp: stageAndRun_alt split: option.splits)

lemma putCalls_runHandler:
  "putCalls (fst (runHandler env r)) = []
   \<or> (\<exists>req. Decoded r = Some req \<and> putCalls (fst (runHandler env r)) = issued env (configCalls req))"
proof (cases "Decoded r")
  case None
  then show ?thesis by (simp add: runHandler_alt)
next
  case (Some req)
  show ?thesis
  proof (cases "os_MkdirTemp env")
    case (Inl e)
    then show ?thesis using Some by (simp add: runHandler_alt)
  next
    case (Inr m)
    then show ?thesis
      using Some putCalls_stageAndRun [of env req m]
      by (auto simp: runHandler_alt)
  qed
qed

lemma stageFiles_code:
  "snd (stageFiles env m w files) = Some (msg, code) \<Longrightarrow> code = 400 \<or> code = 500"
  by (induction files) (auto split: sum.splits option.splits prod.splits if_splits)

lemma runHandler_started:
  assumes "reachesStart env r req m"
  shows "runHandler env r =
    (preamble env req m @ fst (configureAndRun env req) @ [Kill, Wait, CloseFile fcConsole, RemoveAll m],
     snd (configureAndRun env req))"
  using assms
  by (simp add: reachesStart_def preamble_def runHandler_alt stageAndRun_alt withFirecracker_alt)

lemma hv_preamble: "reachesStart env r req m \<Longrightarrow> hypervisorEvents (preamble env req m) = [StartProcess]"
  by (simp add: reachesStart_def preamble_def hypervisorEvents_Cons hv_startFirecracker)

lemma runHandler_not_started:
  assumes "\<forall>req m. \<not> reachesStart env r req m"
  shows "hypervisorEvents (fst (runHandler env r)) = []
    \<and> Status (snd (runHandler env r)) \<in> {400, 405, 500}"
proof -
  have "hypervisorEvents (fst (runHandler env r)) = []"
    using assms
    by (auto simp: reachesStart_def runHandler_alt stageAndRun_alt withFirecracker_alt
        hypervisorEvents_Cons hv_startFirecracker
        split: option.splits sum.splits if_splits)
  moreover have "Status (snd (runHandler env r)) \<in> {400, 405, 500}"
    using assms
    by (auto simp: reachesStart_def runHandler_alt stageAndRun_alt withFirecracker_alt httpError_def
        split: option.splits sum.splits if_splits dest: stageFiles_code)
  ultimately show ?thesis by simp
qed

lemma withFirecracker_agent_alt:
  "withFirecracker_agent env req x =
     (case snd (startFirecracker_agent env) of
        Some e \<Rightarrow> (fst (startFirecracker_agent env), httpError e 500)
      | None \<Rightarrow>
          (fst (startFirecracker_agent env) @ fst (configureAndRun_agent env req x) @ [Kill, Wait],
           snd (configureAndRun_agent env req x)))"
  by (simp add: withFirecracker_agent_def split: prod.splits option.splits)

lemma stageAndRun_agent_alt:
  "stageAndRun_agent env req x m =
     (case mount_loop env m of
        Some e \<Rightarrow> ([Mount rootfsPath m], httpError e 500)
      | None \<Rightarrow>
          (case os_MkdirAll env (m @ ''/work'') of
             Some e \<Rightarrow> ([Mount rootfsPath m, MkdirAll (m @ ''/work''), Umount m], httpError e 500)
           | None \<Rightarrow>
               (case snd (stageFiles env m (m @ ''/work'') (Files req)) of
                  Some (msg, code) \<Rightarrow>
                    (Mount rootfsPath m # MkdirAll (m @ ''/work'')
                     # fst (stageFiles env m (m @ ''/work'') (Files req)), httpError msg code)
                | None \<Rightarrow>
                    (case umount env m of
                       Some e \<Rightarrow>
                         (Mount rootfsPath m # MkdirAll (m @ ''/work'')
                          # fst (stageFiles env m (m @ ''/work'') (Files req)) @ [Umount m],
                          httpError e 500)
                     | None \<Rightarrow>
                         (case umount env (agentMountOf x) of
                            Some e \<Rightarrow>
                              (Mount rootfsPath m # MkdirAll (m @ ''/work'')
                               # fst (stageFiles env m (m @ ''/work'') (Files req))
                               @ [Umount m, Umount (agentMountOf x)],
                               httpError (''failed to unmount agent image: '' @ e) 500)
                          | None \<Rightarrow>
                              (Mount rootfsPath m # MkdirAll (m @ ''/work'')
                               # fst (stageFiles env m (m @ ''/work'') (Files req))
                               @ [Umount m, Umount (agentMountOf x)]
                               @ fst (withFirecracker_agent env req x),
                               snd (withFirecracker_agent env req x)))))))"
  by (simp add: stageAndRun_agent_def Let_def split: prod.splits option.splits)

lemma withListener_agent_alt:
  "withListener_agent env req x =
     (case net_Listen env (filepath_Join (agentMountOf x) ''agent.sock'') of
        Some e \<Rightarrow>
          ([CloseListener, Remove (sockPathOf x),
            Listen (filepath_Join (agentMountOf x) ''agent.sock'')],
           httpError (''failed to create socket in agent mount: '' @ e) 500)
      | None \<Rightarrow>
          (case os_MkdirTemp env of
             Inl e \<Rightarrow>
               ([CloseListener, Remove (sockPathOf x),
                 Listen (filepath_Join (agentMountOf x) ''agent.sock''), MkdirTemp, CloseListener],
                httpError e 500)
           | Inr m \<Rightarrow>
               ([CloseListener, Remove (sockPathOf x),
                 Listen (filepath_Join (agentMountOf x) ''agent.sock''), MkdirTemp]
                @ fst (stageAndRun_agent env req x m) @ [RemoveAll m, CloseListener],
                snd (stageAndRun_agent env req x m))))"
  by (simp add: withListener_agent_def Let_def split: prod.splits option.splits sum.splits)

lemma runHandler_agent_alt:
  "runHandler_agent env r =
     (if Method r \<noteq> ''POST'' then ([], httpError ''POST only'' 405)
      else
        case Decoded r of
          None \<Rightarrow> ([], httpError ''invalid JSON'' 400)
        | Some req \<Rightarrow>
            if Cmd req = [] then ([], httpError ''cmd is required'' 400)
            else
              (case snd (startUDSListener env (new_uuid env)) of
                 Some e \<Rightarrow> (fst (startUDSListener env (new_uuid env)), httpError e 500)
               | None \<Rightarrow>
                   (case snd (createAgentDriveImage env (new_uuid env)) of
                      Some e \<Rightarrow>
                        (fst (startUDSListener env (new_uuid env))
                         @ fst (createAgentDriveImage env (new_uuid env))
                         @ [RemoveAll (filepath_Dir (sockPathOf (new_uuid env))), CloseListener],
                         httpError e 500)
                    | None \<Rightarrow>
                        (fst (startUDSListener env (new_uuid env))
                         @ fst (createAgentDriveImage env (new_uuid env))
                         @ fst (withListener_agent env req (new_uuid env))
                         @ [Umount (agentMountOf (new_uuid env)),
                            RemoveAll (execDirOf (new_uuid env)),
                            RemoveAll (filepath_Dir (sockPathOf (new_uuid env))), CloseListener],
                         snd (withListener_agent env req (new_uuid env))))))"
  by (auto simp: runHandler_agent_def Let_def split: prod.splits option.splits)

lemma hv_startUDSListener [simp]: "hypervisorEvents (fst (startUDSListener env x)) = []"
  by (auto simp: startUDSListener_def hypervisorEvents_def split: option.splits)

lemma hv_createAgentDriveImage [simp]: "hypervisorEvents (fst (createAgentDriveImage env x)) = []"
  by (auto simp: createAgentDriveImage_def hypervisorEvents_def split: option.splits)

lemma runHandler_agent_started:
  assumes "reachesStart_agent env r req m"
  shows "runHandler_agent env r =
    (preamble_agent env req m @ fst (configureAndRun_agent env req (new_uuid env))
     @ Kill # Wait # cleanup_agent env m,
     snd (configureAndRun_agent env req (new_uuid env)))"
  using assms
  by (simp add: reachesStart_agent_def preamble_agent_def cleanup_agent_def runHandler_agent_alt
      withListener_agent_alt stageAndRun_agent_alt withFirecracker_agent_alt)

lemma hv_preamble_agent:
  "reachesStart_agent env r req m \<Longrightarrow> hypervisorEvents (preamble_agent env req m) = [StartProcess]"
  by (simp add: reachesStart_agent_def preamble_agent_def hypervisorEvents_Cons
      hv_startFirecracker_agent)

lemma hv_cleanup_agent [simp]: "hypervisorEvents (cleanup_agent env m) = []"
  by (simp add: cleanup_agent_def hypervisorEvents_Cons)

lemma hv_withFirecracker_agent_fail:
  "snd (startFirecracker_agent env) \<noteq> None \<Longrightarrow>
   hypervisorEvents (fst (withFirecracker_agent env req x)) = []
   \<and> Status (snd (withFirecracker_agent env req x)) = 500"
  by (auto simp: withFirecracker_agent_alt hv_startFirecracker_agent httpError_def)

lemma hv_stageAndRun_agent_fail:
  assumes "\<not> (mount_loop env m = None \<and> os_MkdirAll env (m @ ''/work'') = None
      \<and> snd (stageFiles env m (m @ ''/work'') (Files req)) = None
      \<and> umount env m = None \<and> umount env (agentMountOf x) = None
      \<and> snd (startFirecracker_agent env) = None)"
  shows "hypervisorEvents (fst (stageAndRun_agent env req x m)) = []
    \<and> Status (snd (stageAndRun_agent env req x m)) \<in> {400, 500}"
  using assms hv_withFirecracker_agent_fail [of env req x]
  by (auto simp: stageAndRun_agent_alt hypervisorEvents_Cons httpError_def
      split: option.splits dest: stageFiles_code)

lemma hv_withListener_agent_fail:
  assumes "\<not> (net_Listen env (filepath_Join (agentMountOf x) ''agent.sock'') = None
      \<and> (\<exists>m. os_MkdirTemp env = Inr m \<and> mount_loop env m = None
            \<and> os_MkdirAll env (m @ ''/work'') = None
            \<and> snd (stageFiles env m (m @ ''/work'') (Files req)) = None
            \<and> umount env m = None \<and> umount env (agentMountOf x) = None
            \<and> snd (startFirecracker_agent env) = None))"
  shows "hypervisorEvents (fst (withListener_agent env req x)) = []
    \<and> Status (snd (withListener_agent env req x)) \<in> {400, 500}"
proof (cases "net_Listen env (filepath_Join (agentMountOf x) ''agent.sock'')")
  case (Some e)
  then show ?thesis
    by (simp add: withListener_agent_alt hypervisorEvents_Cons httpError_def)
next
  case None
  show ?thesis
  proof (cases "os_MkdirTemp env")
    case (Inl e)
    then show ?thesis
      using None by (simp add: withListener_agent_alt hypervisorEvents_Cons httpError_def)
  next
    case (Inr m)
    with None assms have "\<not> (mount_loop env m = None \<and> os_MkdirAll env (m @ ''/work'') = None
      \<and> snd (stageFiles env m (m @ ''/work'') (Files req)) = None
      \<and> umount env m = None \<and> umount env (agentMountOf x) = None
      \<and> snd (startFirecracker_agent env) = None)"
      by auto
    from hv_stageAndRun_agent_fail [OF this] show ?thesis
      using None Inr by (simp add: withListener_agent_alt hypervisorEvents_Cons)
  qed
qed

lemma runHandler_agent_not_started:
  assumes "\<forall>req m. \<not> reachesStart_agent env r req m"
  shows "hypervisorEvents (fst (runHandler_agent env r)) = []
    \<and> Status (snd (runHandler_agent env r)) \<in> {400, 405, 500}"
proof (cases "Method r = ''POST'' \<and> (\<exists>req. Decoded r = Some req \<and> Cmd req \<noteq> []
    \<and> snd (startUDSListener env (new_uuid env)) = None
    \<and> snd (createAgentDriveImage env (new_uuid env)) = None)")
  case False
  then show ?thesis
    by (auto simp: runHandler_agent_alt httpError_def hypervisorEvents_Cons split: option.splits)
next
  case True
  then obtain req where req: "Method r = ''POST''" "Decoded r = Some req" "Cmd req \<noteq> []"
    "snd (startUDSListener env (new_uuid env)) = None"
    "snd (createAgentDriveImage env (new_uuid env)) = None"
    by auto
  with assms have "\<not> (net_Listen env (filepath_Join (agentMountOf (new_uuid env)) ''agent.sock'') = None
      \<and> (\<exists>m. os_MkdirTemp env = Inr m \<and> mount_loop env m = None
            \<and> os_MkdirAll env (m @ ''/work'') = None
            \<and> snd (stageFiles env m (m @ ''/work'') (Files req)) = None
            \<and> umount env m = None \<and> umount env (agentMountOf (new_uuid env)) = None
            \<and> snd (startFirecracker_agent env) = None))"
    by (auto simp: reachesStart_agent_def)
  from hv_withListener_agent_fail [OF this] show ?thesis
    using req by (auto simp: runHandler_agent_alt hypervisorEvents_Cons)
qed

lemma suffix_after_event:
  assumes "pre @ e # post = xs @ suf" and "e \<notin> set suf"
  shows "\<exists>post'. post = post' @ suf"
  using assms
proof (induction pre arbitrary: xs)
  case Nil
  then show ?case by (cases xs) auto
next
  case (Cons a pre)
  then show ?case by (cases xs) auto
qed

lemma config_shape:
  assumes tr: "tr = pre @ fst (waitForSocket fcSocket l) @ fst (configure env cs rest) @ Kill # Wait # suf"
    and pre: "putCalls pre = []"
    and sock: "snd (waitForSocket fcSocket l) = None"
    and rest: "putCalls (fst rest) = []"
    and suf: "putCalls suf = []"
  shows "putCalls tr = issued env cs"
    and "\<exists>pre' post. tr = pre' @ Stat fcSocket True # post \<and> putCalls pre' = []"
    and "(p, b) \<in> set (putCalls tr) \<Longrightarrow> \<not> accepted env p \<Longrightarrow>
         Status (snd (configure env cs rest)) = 500
         \<and> (\<exists>pre' mid post. tr = pre' @ Put p b # mid @ Kill # Wait # post
               \<and> putCalls mid = [] \<and> putCalls post = [])"
proof -
  show calls: "putCalls tr = issued env cs"
    using tr pre rest suf by (simp add: putCalls_configure issued_accepted)
  from waitForSocket_ok [OF sock] obtain s where s: "fst (waitForSocket fcSocket l) = s @ [Stat fcSocket True]" ..
  have "putCalls s = []"
    using putCalls_waitForSocket [of fcSocket l] s by simp
  then have "tr = (pre @ s) @ Stat fcSocket True # (fst (configure env cs rest) @ Kill # Wait # suf)
      \<and> putCalls (pre @ s) = []"
    using tr s pre by simp
  then show "\<exists>pre' post. tr = pre' @ Stat fcSocket True # post \<and> putCalls pre' = []"
    by blast
  show "Status (snd (configure env cs rest)) = 500
         \<and> (\<exists>pre' mid post. tr = pre' @ Put p b # mid @ Kill # Wait # post
               \<and> putCalls mid = [] \<and> putCalls post = [])"
    if mem: "(p, b) \<in> set (putCalls tr)" and ref: "\<not> accepted env p"
  proof -
    have na: "\<not> list_all (\<lambda>c. accepted env (fst c)) cs"
      using mem ref calls by (auto dest: issued_refused_not_all)
    from mem calls obtain xs ys where xy: "issued env cs = xs @ (p, b) # ys"
      by (auto simp: in_set_conv_decomp)
    with issued_refused_last ref have "ys = []" by blast
    with xy have i: "issued env cs = xs @ [(p, b)]" by simp
    have "fst (configure env cs rest) = map (\<lambda>c. Put (fst c) (snd c)) xs @ [Put p b]"
      using configure_refused [OF na, of rest] i by simp
    then have "tr = (pre @ fst (waitForSocket fcSocket l) @ map (\<lambda>c. Put (fst c) (snd c)) xs)
        @ Put p b # [] @ Kill # Wait # suf \<and> putCalls [] = [] \<and> putCalls suf = []"
      using tr suf by simp
    then have "\<exists>pre' mid post. tr = pre' @ Put p b # mid @ Kill # Wait # post
               \<and> putCalls mid = [] \<and> putCalls post = []"
      by blast
    then show ?thesis
      using configure_refused [OF na, of rest] by simp
  qed
qed

lemma configureAndRun_socket_fail:
  "snd (waitForSocket fcSocket (stat_socket env)) \<noteq> None \<Longrightarrow>
   putCalls (fst (configureAndRun env req)) = []"
  by (auto simp: configureAndRun_configure putCalls_orFail_socket)

lemma configureAndRun_socket_ok:
  "snd (waitForSocket fcSocket (stat_socket env)) = None \<Longrightarrow>
   configureAndRun env req =
     (fst (waitForSocket fcSocket (stat_socket env))
      @ fst (configure env (configCalls req) (awaitGuest env req)),
      snd (configure env (configCalls req) (awaitGuest env req)))"
  by (simp add: configureAndRun_configure orFail_ok)

lemma configureAndRun_agent_socket_fail:
  "snd (waitForSocket fcSocket (stat_socket env)) \<noteq> None \<Longrightarrow>
   putCalls (fst (configureAndRun_agent env req x)) = []"
  by (cases "waitForSocket fcSocket (stat_socket env)")
    (use putCalls_waitForSocket [of fcSocket "stat_socket env"] in
      \<open>auto simp: configureAndRun_agent_configure\<close>)

lemma configureAndRun_agent_socket_ok:
  "snd (waitForSocket fcSocket (stat_socket env)) = None \<Longrightarrow>
   configureAndRun_agent env req x =
     (fst (waitForSocket fcSocket (stat_socket env))
      @ fst (configure env (configCalls_agent req x) (awaitAgent env req)),
      snd (configure env (configCalls_agent req x) (awaitAgent env req)))"
  by (cases "waitForSocket fcSocket (stat_socket env)")
    (auto simp: configureAndRun_agent_configure)

lemma runHandler_config:
  "putCalls (fst (runHandler env r)) = []
   \<or> (\<exists>req pre suf. Decoded r = Some req
        \<and> fst (runHandler env r) = pre @ fst (waitForSocket fcSocket (stat_socket env))
            @ fst (configure env (configCalls req) (awaitGuest env req)) @ Kill # Wait # suf
        \<and> putCalls pre = [] \<and> putCalls suf = []
        \<and> snd (waitForSocket fcSocket (stat_socket env)) = None
        \<and> snd (runHandler env r) = snd (configure env (configCalls req) (awaitGuest env req)))"
proof (cases "\<exists>req m. reachesStart env r req m")
  case False
  then have "hypervisorEvents (fst (runHandler env r)) = []"
    using runHandler_not_started [of env r] by simp
  then have "putCalls (fst (runHandler env r)) = []"
    using putCalls_hypervisorEvents [of "fst (runHandler env r)"] by simp
  then show ?thesis ..
next
  case True
  then obtain req m where st: "reachesStart env r req m" by blast
  show ?thesis
  proof (cases "snd (waitForSocket fcSocket (stat_socket env)) = None")
    case False
    then show ?thesis
      using configureAndRun_socket_fail [OF False, of req] putCalls_hypervisorEvents [of "preamble env req m"]
      by (simp add: runHandler_started [OF st] hv_preamble [OF st] hypervisorEvents_Cons)
  next
    case ok: True
    have p: "putCalls (preamble env req m) = []"
      using putCalls_hypervisorEvents [of "preamble env req m"]
      by (simp add: hv_preamble [OF st] hypervisorEvents_Cons)
    have "Decoded r = Some req
        \<and> fst (runHandler env r) = preamble env req m @ fst (waitForSocket fcSocket (stat_socket env))
            @ fst (configure env (configCalls req) (awaitGuest env req))
            @ Kill # Wait # [CloseFile fcConsole, RemoveAll m]
        \<and> putCalls (preamble env req m) = [] \<and> putCalls [CloseFile fcConsole, RemoveAll m] = []
        \<and> snd (waitForSocket fcSocket (stat_socket env)) = None
        \<and> snd (runHandler env r) = snd (configure env (configCalls req) (awaitGuest env req))"
      using st ok p
      by (simp add: runHandler_started [OF st] configureAndRun_socket_ok [OF ok] reachesStart_def)
    then show ?thesis by blast
  qed
qed

lemma runHandler_agent_config:
  "putCalls (fst (runHandler_agent env r)) = []
   \<or> (\<exists>req pre suf. Decoded r = Some req
        \<and> fst (runHandler_agent env r) = pre @ fst (waitForSocket fcSocket (stat_socket env))
            @ fst (configure env (configCalls_agent req (new_uuid env)) (awaitAgent env req))
            @ Kill # Wait # suf
        \<and> putCalls pre = [] \<and> putCalls suf = []
        \<and> snd (waitForSocket fcSocket (stat_socket env)) = None
        \<and> snd (runHandler_agent env r)
            = snd (configure env (configCalls_agent req (new_uuid env)) (awaitAgent env req)))"
proof (cases "\<exists>req m. reachesStart_agent env r req m")
  case False
  then have "hypervisorEvents (fst (runHandler_agent env r)) = []"
    using runHandler_agent_not_started [of env r] by simp
  then have "putCalls (fst (runHandler_agent env r)) = []"
    using putCalls_hypervisorEvents [of "fst (runHandler_agent env r)"] by simp
  then show ?thesis ..
next
  case True
  then obtain req m where st: "reachesStart_agent env r req m" by blast
  have p: "putCalls (preamble_agent env req m) = []"
    using putCalls_hypervisorEvents [of "preamble_agent env req m"]
    by (simp add: hv_preamble_agent [OF st] hypervisorEvents_Cons)
  have c: "putCalls (cleanup_agent env m) = []"
    using putCalls_hypervisorEvents [of "cleanup_agent env m"] by simp
  show ?thesis
  proof (cases "snd (waitForSocket fcSocket (stat_socket env)) = None")
    case False
    then show ?thesis
      using configureAndRun_agent_socket_fail [OF False, of req "new_uuid env"] p c
      by (simp add: runHandler_agent_started [OF st])
  next
    case ok: True
    have "Decoded r = Some req
        \<and> fst (runHandler_agent env r) = preamble_agent env req m
            @ fst (waitForSocket fcSocket (stat_socket env))
            @ fst (configure env (configCalls_agent req (new_uuid env)) (awaitAgent env req))
            @ Kill # Wait # cleanup_agent env m
        \<and> putCalls (preamble_agent env req m) = [] \<and> putCalls (cleanup_agent env m) = []
        \<and> snd (waitForSocket fcSocket (stat_socket env)) = None
        \<and> snd (runHandler_agent env r)
            = snd (configure env (configCalls_agent req (new_uuid env)) (awaitAgent env req))"
      using st ok p c
      by (simp add: runHandler_agent_started [OF st] configureAndRun_agent_socket_ok [OF ok]
          reachesStart_agent_def)
    then show ?thesis by blast
  qed
qed

lemma map_fst_issued_prefix: "prefix (map fst (issued env cs)) (map fst cs)"
  by (rule map_mono_prefix) (rule issued_prefix)

lemma issued_take:
  "k < length cs \<Longrightarrow> list_all (\<lambda>c. accepted env (fst c)) (take k cs) \<Longrightarrow>
   \<not> accepted env (fst (cs ! k)) \<Longrightarrow> issued env cs = take (Suc k) cs"
proof (induction cs arbitrary: k)
  case Nil
  then show ?case by simp
next
  case (Cons c cs)
  obtain p b where c: "c = (p, b)" by (cases c)
  show ?case
  proof (cases k)
    case 0
    with Cons.prems c show ?thesis by simp
  next
    case (Suc k')
    with Cons.prems have "k' < length cs" "list_all (\<lambda>c. accepted env (fst c)) (take k' cs)"
      "\<not> accepted env (fst (cs ! k'))" "accepted env p"
      using c by auto
    with Cons.IH [of k'] Suc c show ?thesis by simp
  qed
qed

lemma putCalls_preamble: "reachesStart env r req m \<Longrightarrow> putCalls (preamble env req m) = []"
  using putCalls_hypervisorEvents [of "preamble env req m"]
  by (simp add: hv_preamble hypervisorEvents_Cons)

lemma putCalls_preamble_agent:
  "reachesStart_agent env r req m \<Longrightarrow> putCalls (preamble_agent env req m) = []"
  using putCalls_hypervisorEvents [of "preamble_agent env req m"]
  by (simp add: hv_preamble_agent hypervisorEvents_Cons)

lemma putCalls_cleanup_agent [simp]: "putCalls (cleanup_agent env m) = []"
  using putCalls_hypervisorEvents [of "cleanup_agent env m"] by simp

lemma putCalls_started:
  assumes st: "reachesStart env r req m"
  shows "putCalls (fst (runHandler env r))
    = (if snd (waitForSocket fcSocket (stat_socket env)) = None
       then issued env (configCalls req) else [])"
proof (cases "snd (waitForSocket fcSocket (stat_socket env)) = None")
  case True
  then show ?thesis
    by (simp add: runHandler_started [OF st] putCalls_preamble [OF st]
        configureAndRun_socket_ok putCalls_configure issued_accepted)
next
  case False
  then show ?thesis
    using configureAndRun_socket_fail [of env req]
    by (auto simp: runHandler_started [OF st] putCalls_preamble [OF st])
qed

lemma putCalls_not_started:
  "\<forall>req m. \<not> reachesStart env r req m \<Longrightarrow> putCalls (fst (runHandler env r)) = []"
  using runHandler_not_started [of env r] putCalls_hypervisorEvents [of "fst (runHandler env r)"]
  by simp

lemma putCalls_agent_started:
  assumes st: "reachesStart_agent env r req m"
  shows "putCalls (fst (runHandler_agent env r))
    = (if snd (waitForSocket fcSocket (stat_socket env)) = None
       then issued env (configCalls_agent req (new_uuid env)) else [])"
proof (cases "snd (waitForSocket fcSocket (stat_socket env)) = None")
  case True
  then show ?thesis
    by (simp add: runHandler_agent_started [OF st] putCalls_preamble_agent [OF st]
        configureAndRun_agent_socket_ok putCalls_configure issued_accepted)
next
  case False
  then show ?thesis
    using configureAndRun_agent_socket_fail [of env req "new_uuid env"]
    by (auto simp: runHandler_agent_started [OF st] putCalls_preamble_agent [OF st])
qed

lemma putCalls_agent_not_started:
  "\<forall>req m. \<not> reachesStart_agent env r req m \<Longrightarrow> putCalls (fst (runHandler_agent env r)) = []"
  using runHandler_agent_not_started [of env r]
    putCalls_hypervisorEvents [of "fst (runHandler_agent env r)"]
  by simp

lemma reachesStart_unique:
  "reachesStart env r req m \<Longrightarrow> reachesStart env r req' m' \<Longrightarrow> req' = req \<and> m' = m"
  by (simp add: reachesStart_def)

lemma reachesStart_agent_unique:
  "reachesStart_agent env r req m \<Longrightarrow> reachesStart_agent env r req' m' \<Longrightarrow> req' = req \<and> m' = m"
  by (simp add: reachesStart_agent_def)

lemma status_started_refused:
  assumes st: "reachesStart env r req m"
    and ok: "snd (waitForSocket fcSocket (stat_socket env)) = None"
    and na: "\<not> list_all (\<lambda>c. accepted env (fst c)) (configCalls req)"
  shows "Status (snd (runHandler env r)) = 500"
  using configure_refused [OF na, of "awaitGuest env req"]
  by (simp add: runHandler_started [OF st] configureAndRun_socket_ok [OF ok])

lemma status_agent_started_refused:
  assumes st: "reachesStart_agent env r req m"
    and ok: "snd (waitForSocket fcSocket (stat_socket env)) = None"
    and na: "\<not> list_all (\<lambda>c. accepted env (fst c)) (configCalls_agent req (new_uuid env))"
  shows "Status (snd (runHandler_agent env r)) = 500"
  using configure_refused [OF na, of "awaitAgent env req"]
  by (simp add: runHandler_agent_started [OF st] configureAndRun_agent_socket_ok [OF ok])

lemma not_all_accepted:
  "k < length cs \<Longrightarrow> \<not> accepted env (fst (cs ! k)) \<Longrightarrow> \<not> list_all (\<lambda>c. accepted env (fst c)) cs"
  by (auto simp: list_all_length)

text \<open>
  C5: in the current handler (four calls) and in the handler with the agent (five
  calls), take a run in which the child was started and \<open>os.Stat\<close> succeeded on the
  control socket. If every call is answered 204, the calls made are exactly
  machine-config, boot-source, root drive, (agent drive,) InstanceStart, in this order and
  once each. If the call at position \<open>k\<close> is the first that is answered with another
  status or fails with an IO error, the calls made are exactly the first \<open>k + 1\<close> and the
  handler answers 500. In every other run (the child is not started, or the socket does
  not appear) no call is made. So the calls are always a prefix of the sequence, a call
  is made only after \<open>os.Stat\<close> succeeded on the socket, and after a refused call no call
  follows and the child is killed and reaped.
\<close>

theorem configuration_protocol:
  "(reachesStart env r req m \<and> snd (waitForSocket fcSocket (stat_socket env)) = None
      \<and> accepted env ''/machine-config'' \<and> accepted env ''/boot-source''
      \<and> accepted env ''/drives/rootfs'' \<and> accepted env ''/actions'' \<longrightarrow>
      putCalls (fst (runHandler env r))
        = [(''/machine-config'', MachineConfig 1 256 False),
           (''/boot-source'', BootSource kernelPath (bootArgs req)),
           (''/drives/rootfs'', Drive ''rootfs'' rootfsPath True False),
           (''/actions'', Action ''InstanceStart'')])
   \<and> (reachesStart env r req m \<and> snd (waitForSocket fcSocket (stat_socket env)) = None
      \<and> k < length (configCalls req) \<and> list_all (\<lambda>c. accepted env (fst c)) (take k (configCalls req))
      \<and> \<not> accepted env (fst (configCalls req ! k)) \<longrightarrow>
      putCalls (fst (runHandler env r)) = take (Suc k) (configCalls req)
      \<and> Status (snd (runHandler env r)) = 500)
   \<and> ((\<forall>req m. \<not> (reachesStart env r req m
                  \<and> snd (waitForSocket fcSocket (stat_socket env)) = None)) \<longrightarrow>
      putCalls (fst (runHandler env r)) = [])
   \<and> prefix (map fst (putCalls (fst (runHandler env r))))
     [''/machine-config'', ''/boot-source'', ''/drives/rootfs'', ''/actions'']
   \<and> (putCalls (fst (runHandler env r)) \<noteq> [] \<longrightarrow>
        (\<exists>pre post. fst (runHandler env r) = pre @ Stat fcSocket True # post \<and> putCalls pre = []))
   \<and> ((p, b) \<in> set (putCalls (fst (runHandler env r))) \<and> \<not> accepted env p \<longrightarrow>
        Status (snd (runHandler env r)) = 500
        \<and> (\<exists>pre mid post. fst (runHandler env r) = pre @ Put p b # mid @ Kill # Wait # post
              \<and> putCalls mid = [] \<and> putCalls post = []))
   \<and> (reachesStart_agent env r req m \<and> snd (waitForSocket fcSocket (stat_socket env)) = None
      \<and> accepted env ''/machine-config'' \<and> accepted env ''/boot-source''
      \<and> accepted env ''/drives/rootfs'' \<and> accepted env ''/drives/agent''
      \<and> accepted env ''/actions'' \<longrightarrow>
      putCalls (fst (runHandler_agent env r))
        = [(''/machine-config'', MachineConfig 1 256 False),
           (''/boot-source'', BootSource kernelPath (bootArgs req)),
           (''/drives/rootfs'', Drive ''rootfs'' rootfsPath True False),
           (''/drives/agent'', Drive ''agent'' (agentImageOf (new_uuid env)) False False),
           (''/actions'', Action ''InstanceStart'')])
   \<and> (reachesStart_agent env r req m \<and> snd (waitForSocket fcSocket (stat_socket env)) = None
      \<and> k < length (configCalls_agent req (new_uuid env)) \<and> list_all (\<lambda>c. accepted env (fst c)) (take k (configCalls_agent req (new_uuid env)))
      \<and> \<not> accepted env (fst (configCalls_agent req (new_uuid env) ! k)) \<longrightarrow>
      putCalls (fst (runHandler_agent env r)) = take (Suc k) (configCalls_agent req (new_uuid env))
      \<and> Status (snd (runHandler_agent env r)) = 500)
   \<and> ((\<forall>req m. \<not> (reachesStart_agent env r req m
                  \<and> snd (waitForSocket fcSocket (stat_socket env)) = None)) \<longrightarrow>
      putCalls (fst (runHandler_agent env r)) = [])
   \<and> prefix (map fst (putCalls (fst (runHandler_agent env r))))
     [''/machine-config'', ''/boot-source'', ''/drives/rootfs'', ''/drives/agent'', ''/actions'']
   \<and> (putCalls (fst (runHandler_agent env r)) \<noteq> [] \<longrightarrow>
        (\<exists>pre post. fst (runHandler_agent env r) = pre @ Stat fcSocket True # post \<and> putCalls pre = []))
   \<and> ((p, b) \<in> set (putCalls (fst (runHandler_agent env r))) \<and> \<not> accepted env p \<longrightarrow>
        Status (snd (runHandler_agent env r)) = 500
        \<and> (\<exists>pre mid post. fst (runHandler_agent env r) = pre @ Put p b # mid @ Kill # Wait # post
              \<and> putCalls mid = [] \<and> putCalls post = []))"
proof -
  have A: "prefix (map fst (putCalls (fst (runHandler env r))))
     [''/machine-config'', ''/boot-source'', ''/drives/rootfs'', ''/actions'']
   \<and> (putCalls (fst (runHandler env r)) \<noteq> [] \<longrightarrow>
        (\<exists>pre post. fst (runHandler env r) = pre @ Stat fcSocket True # post \<and> putCalls pre = []))
   \<and> ((p, b) \<in> set (putCalls (fst (runHandler env r))) \<and> \<not> accepted env p \<longrightarrow>
        Status (snd (runHandler env r)) = 500
        \<and> (\<exists>pre mid post. fst (runHandler env r) = pre @ Put p b # mid @ Kill # Wait # post
              \<and> putCalls mid = [] \<and> putCalls post = []))"
  proof (cases "putCalls (fst (runHandler env r)) = []")
    case True
    then show ?thesis by simp
  next
    case False
    with runHandler_config [of env r] obtain req pre suf where
      tr: "fst (runHandler env r) = pre @ fst (waitForSocket fcSocket (stat_socket env))
            @ fst (configure env (configCalls req) (awaitGuest env req)) @ Kill # Wait # suf"
      and pre: "putCalls pre = []" and suf: "putCalls suf = []"
      and sock: "snd (waitForSocket fcSocket (stat_socket env)) = None"
      and resp: "snd (runHandler env r) = snd (configure env (configCalls req) (awaitGuest env req))"
      by blast
    note sh = config_shape [OF tr pre sock putCalls_awaitGuest suf]
    have "prefix (map fst (putCalls (fst (runHandler env r)))) (map fst (configCalls req))"
      using sh(1) map_fst_issued_prefix by simp
    then show ?thesis
      using sh(2) sh(3) [of p b] resp by (simp add: configCalls_def)
  qed
  have B: "prefix (map fst (putCalls (fst (runHandler_agent env r))))
     [''/machine-config'', ''/boot-source'', ''/drives/rootfs'', ''/drives/agent'', ''/actions'']
   \<and> (putCalls (fst (runHandler_agent env r)) \<noteq> [] \<longrightarrow>
        (\<exists>pre post. fst (runHandler_agent env r) = pre @ Stat fcSocket True # post
           \<and> putCalls pre = []))
   \<and> ((p, b) \<in> set (putCalls (fst (runHandler_agent env r))) \<and> \<not> accepted env p \<longrightarrow>
        Status (snd (runHandler_agent env r)) = 500
        \<and> (\<exists>pre mid post. fst (runHandler_agent env r) = pre @ Put p b # mid @ Kill # Wait # post
              \<and> putCalls mid = [] \<and> putCalls post = []))"
  proof (cases "putCalls (fst (runHandler_agent env r)) = []")
    case True
    then show ?thesis by simp
  next
    case False
    with runHandler_agent_config [of env r] obtain req pre suf where
      tr: "fst (runHandler_agent env r) = pre @ fst (waitForSocket fcSocket (stat_socket env))
            @ fst (configure env (configCalls_agent req (new_uuid env)) (awaitAgent env req))
            @ Kill # Wait # suf"
      and pre: "putCalls pre = []" and suf: "putCalls suf = []"
      and sock: "snd (waitForSocket fcSocket (stat_socket env)) = None"
      and resp: "snd (runHandler_agent env r)
            = snd (configure env (configCalls_agent req (new_uuid env)) (awaitAgent env req))"
      by blast
    note sh = config_shape [OF tr pre sock putCalls_awaitAgent suf]
    have "prefix (map fst (putCalls (fst (runHandler_agent env r))))
        (map fst (configCalls_agent req (new_uuid env)))"
      using sh(1) map_fst_issued_prefix by simp
    then show ?thesis
      using sh(2) sh(3) [of p b] resp by (simp add: configCalls_agent_def)
  qed
  have A1: "putCalls (fst (runHandler env r)) = configCalls req"
    if "reachesStart env r req m" "snd (waitForSocket fcSocket (stat_socket env)) = None"
      "list_all (\<lambda>c. accepted env (fst c)) (configCalls req)"
    using that by (simp add: putCalls_started issued_accepted)
  have A2: "putCalls (fst (runHandler env r)) = take (Suc k) (configCalls req)
      \<and> Status (snd (runHandler env r)) = 500"
    if "reachesStart env r req m" "snd (waitForSocket fcSocket (stat_socket env)) = None"
      "k < length (configCalls req)" "list_all (\<lambda>c. accepted env (fst c)) (take k (configCalls req))"
      "\<not> accepted env (fst (configCalls req ! k))"
    using that status_started_refused [OF that(1,2) not_all_accepted [OF that(3,5)]]
    by (simp add: putCalls_started issued_take)
  have A3: "putCalls (fst (runHandler env r)) = []"
    if n: "\<forall>req m. \<not> (reachesStart env r req m
                  \<and> snd (waitForSocket fcSocket (stat_socket env)) = None)"
  proof (cases "\<exists>req m. reachesStart env r req m")
    case True
    then obtain req' m' where st: "reachesStart env r req' m'" by blast
    from n [rule_format, of req' m'] st
    have "snd (waitForSocket fcSocket (stat_socket env)) \<noteq> None" by simp
    then show ?thesis by (auto simp: putCalls_started [OF st])
  next
    case False
    then show ?thesis by (simp add: putCalls_not_started)
  qed
  have B1: "putCalls (fst (runHandler_agent env r)) = configCalls_agent req (new_uuid env)"
    if "reachesStart_agent env r req m" "snd (waitForSocket fcSocket (stat_socket env)) = None"
      "list_all (\<lambda>c. accepted env (fst c)) (configCalls_agent req (new_uuid env))"
    using that by (simp add: putCalls_agent_started issued_accepted)
  have B2: "putCalls (fst (runHandler_agent env r)) = take (Suc k) (configCalls_agent req (new_uuid env))
      \<and> Status (snd (runHandler_agent env r)) = 500"
    if "reachesStart_agent env r req m" "snd (waitForSocket fcSocket (stat_socket env)) = None"
      "k < length (configCalls_agent req (new_uuid env))" "list_all (\<lambda>c. accepted env (fst c)) (take k (configCalls_agent req (new_uuid env)))"
      "\<not> accepted env (fst (configCalls_agent req (new_uuid env) ! k))"
    using that status_agent_started_refused [OF that(1,2) not_all_accepted [OF that(3,5)]]
    by (simp add: putCalls_agent_started issued_take)
  have B3: "putCalls (fst (runHandler_agent env r)) = []"
    if n: "\<forall>req m. \<not> (reachesStart_agent env r req m
                  \<and> snd (waitForSocket fcSocket (stat_socket env)) = None)"
  proof (cases "\<exists>req m. reachesStart_agent env r req m")
    case True
    then obtain req' m' where st: "reachesStart_agent env r req' m'" by blast
    from n [rule_format, of req' m'] st
    have "snd (waitForSocket fcSocket (stat_socket env)) \<noteq> None" by simp
    then show ?thesis by (auto simp: putCalls_agent_started [OF st])
  next
    case False
    then show ?thesis by (simp add: putCalls_agent_not_started)
  qed
  show ?thesis
  proof (intro conjI impI)
    show "putCalls (fst (runHandler env r))
        = [(''/machine-config'', MachineConfig 1 256 False),
           (''/boot-source'', BootSource kernelPath (bootArgs req)),
           (''/drives/rootfs'', Drive ''rootfs'' rootfsPath True False),
           (''/actions'', Action ''InstanceStart'')]"
      if "reachesStart env r req m \<and> snd (waitForSocket fcSocket (stat_socket env)) = None
      \<and> accepted env ''/machine-config'' \<and> accepted env ''/boot-source''
      \<and> accepted env ''/drives/rootfs'' \<and> accepted env ''/actions''"
      using A1 that by (simp add: configCalls_def)
    show "putCalls (fst (runHandler_agent env r))
        = [(''/machine-config'', MachineConfig 1 256 False),
           (''/boot-source'', BootSource kernelPath (bootArgs req)),
           (''/drives/rootfs'', Drive ''rootfs'' rootfsPath True False),
           (''/drives/agent'', Drive ''agent'' (agentImageOf (new_uuid env)) False False),
           (''/actions'', Action ''InstanceStart'')]"
      if "reachesStart_agent env r req m \<and> snd (waitForSocket fcSocket (stat_socket env)) = None
      \<and> accepted env ''/machine-config'' \<and> accepted env ''/boot-source''
      \<and> accepted env ''/drives/rootfs'' \<and> accepted env ''/drives/agent''
      \<and> accepted env ''/actions''"
      using B1 that by (simp add: configCalls_agent_def)
  qed (use A B A2 A3 B2 B3 in \<open>blast+\<close>)
qed


theorem configuration_protocol_witness:
  "putCalls (fst (runHandler raceEnv sleepRequest))
     = [(''/machine-config'', MachineConfig 1 256 False),
        (''/boot-source'', BootSource kernelPath (bootArgs sleepRun)),
        (''/drives/rootfs'', Drive ''rootfs'' rootfsPath True False),
        (''/actions'', Action ''InstanceStart'')]
   \<and> putCalls (fst (runHandler_agent raceEnv sleepRequest))
     = [(''/machine-config'', MachineConfig 1 256 False),
        (''/boot-source'', BootSource kernelPath (bootArgs sleepRun)),
        (''/drives/rootfs'', Drive ''rootfs'' rootfsPath True False),
        (''/drives/agent'', Drive ''agent'' (agentImageOf (new_uuid raceEnv)) False False),
        (''/actions'', Action ''InstanceStart'')]
   \<and> putCalls (fst (runHandler refusingEnv sleepRequest)) = take (Suc 2) (configCalls sleepRun)
   \<and> Status (snd (runHandler refusingEnv sleepRequest)) = 500
   \<and> (\<exists>pre post. fst (runHandler refusingEnv sleepRequest) = pre @ Stat fcSocket True # post
         \<and> putCalls pre = [])
   \<and> (\<exists>pre mid post. fst (runHandler refusingEnv sleepRequest)
           = pre @ Put ''/drives/rootfs'' (Drive ''rootfs'' rootfsPath True False) # mid
             @ Kill # Wait # post
         \<and> putCalls mid = [] \<and> putCalls post = [])
   \<and> putCalls (fst (runHandler_agent ioFailEnv sleepRequest))
       = take (Suc 3) (configCalls_agent sleepRun (new_uuid ioFailEnv))
   \<and> Status (snd (runHandler_agent ioFailEnv sleepRequest)) = 500
   \<and> (\<exists>pre post. fst (runHandler_agent ioFailEnv sleepRequest) = pre @ Stat fcSocket True # post
         \<and> putCalls pre = [])
   \<and> (\<exists>pre mid post. fst (runHandler_agent ioFailEnv sleepRequest)
           = pre @ Put ''/drives/agent'' (Drive ''agent'' (agentImageOf (new_uuid ioFailEnv)) False False)
             # mid @ Kill # Wait # post
         \<and> putCalls mid = [] \<and> putCalls post = [])
   \<and> putCalls (fst (runHandler (raceEnv\<lparr>stat_socket := [False, False]\<rparr>) sleepRequest)) = []
   \<and> putCalls (fst (runHandler_agent (raceEnv\<lparr>stat_socket := [False, False]\<rparr>) sleepRequest)) = []"
proof -
  have a1: "reachesStart raceEnv sleepRequest sleepRun ''/tmp/rootfs-mount-1''
      \<and> snd (waitForSocket fcSocket (stat_socket raceEnv)) = None
      \<and> accepted raceEnv ''/machine-config'' \<and> accepted raceEnv ''/boot-source''
      \<and> accepted raceEnv ''/drives/rootfs'' \<and> accepted raceEnv ''/actions''"
    by code_simp
  have a7: "reachesStart_agent raceEnv sleepRequest sleepRun ''/tmp/rootfs-mount-1''
      \<and> snd (waitForSocket fcSocket (stat_socket raceEnv)) = None
      \<and> accepted raceEnv ''/machine-config'' \<and> accepted raceEnv ''/boot-source''
      \<and> accepted raceEnv ''/drives/rootfs'' \<and> accepted raceEnv ''/drives/agent''
      \<and> accepted raceEnv ''/actions''"
    by code_simp
  have a2: "reachesStart refusingEnv sleepRequest sleepRun ''/tmp/rootfs-mount-1''
      \<and> snd (waitForSocket fcSocket (stat_socket refusingEnv)) = None
      \<and> 2 < length (configCalls sleepRun)
      \<and> list_all (\<lambda>c. accepted refusingEnv (fst c)) (take 2 (configCalls sleepRun))
      \<and> \<not> accepted refusingEnv (fst (configCalls sleepRun ! 2))"
    by code_simp
  have a5: "putCalls (fst (runHandler refusingEnv sleepRequest)) \<noteq> []"
    by code_simp
  have a6: "(''/drives/rootfs'', Drive ''rootfs'' rootfsPath True False)
             \<in> set (putCalls (fst (runHandler refusingEnv sleepRequest)))
           \<and> \<not> accepted refusingEnv ''/drives/rootfs''"
    by code_simp
  have a8: "reachesStart_agent ioFailEnv sleepRequest sleepRun ''/tmp/rootfs-mount-1''
      \<and> snd (waitForSocket fcSocket (stat_socket ioFailEnv)) = None
      \<and> 3 < length (configCalls_agent sleepRun (new_uuid ioFailEnv))
      \<and> list_all (\<lambda>c. accepted ioFailEnv (fst c))
           (take 3 (configCalls_agent sleepRun (new_uuid ioFailEnv)))
      \<and> \<not> accepted ioFailEnv (fst (configCalls_agent sleepRun (new_uuid ioFailEnv) ! 3))"
    by code_simp
  have a11: "putCalls (fst (runHandler_agent ioFailEnv sleepRequest)) \<noteq> []"
    by code_simp
  have a12: "(''/drives/agent'', Drive ''agent'' (agentImageOf (new_uuid ioFailEnv)) False False)
             \<in> set (putCalls (fst (runHandler_agent ioFailEnv sleepRequest)))
           \<and> \<not> accepted ioFailEnv ''/drives/agent''"
    by code_simp
  have s: "snd (waitForSocket fcSocket (stat_socket (raceEnv\<lparr>stat_socket := [False, False]\<rparr>))) \<noteq> None"
    by code_simp
  have a3: "\<forall>req m. \<not> (reachesStart (raceEnv\<lparr>stat_socket := [False, False]\<rparr>) sleepRequest req m
      \<and> snd (waitForSocket fcSocket (stat_socket (raceEnv\<lparr>stat_socket := [False, False]\<rparr>))) = None)"
    using s by blast
  have a9: "\<forall>req m. \<not> (reachesStart_agent (raceEnv\<lparr>stat_socket := [False, False]\<rparr>) sleepRequest req m
      \<and> snd (waitForSocket fcSocket (stat_socket (raceEnv\<lparr>stat_socket := [False, False]\<rparr>))) = None)"
    using s by blast
  note t1 = configuration_protocol [where env = raceEnv and r = sleepRequest and req = sleepRun
      and m = "''/tmp/rootfs-mount-1''"]
  note t2 = configuration_protocol [where env = refusingEnv and r = sleepRequest and req = sleepRun
      and m = "''/tmp/rootfs-mount-1''" and k = 2
      and p = "''/drives/rootfs''" and b = "Drive ''rootfs'' rootfsPath True False"]
  note t3 = configuration_protocol [where env = ioFailEnv and r = sleepRequest and req = sleepRun
      and m = "''/tmp/rootfs-mount-1''" and k = 3
      and p = "''/drives/agent''"
      and b = "Drive ''agent'' (agentImageOf (new_uuid ioFailEnv)) False False"]
  note t4 = configuration_protocol [where env = "raceEnv\<lparr>stat_socket := [False, False]\<rparr>"
      and r = sleepRequest]
  note c1 = t1 [THEN conjunct1, THEN mp, OF a1]
  note c7 = t1 [THEN conjunct2, THEN conjunct2, THEN conjunct2, THEN conjunct2, THEN conjunct2, THEN conjunct2, THEN conjunct1, THEN mp, OF a7]
  note c2 = t2 [THEN conjunct2, THEN conjunct1, THEN mp, OF a2]
  note c5 = t2 [THEN conjunct2, THEN conjunct2, THEN conjunct2, THEN conjunct2, THEN conjunct1, THEN mp, OF a5]
  note c6 = t2 [THEN conjunct2, THEN conjunct2, THEN conjunct2, THEN conjunct2, THEN conjunct2, THEN conjunct1, THEN mp, OF a6]
  note c8 = t3 [THEN conjunct2, THEN conjunct2, THEN conjunct2, THEN conjunct2, THEN conjunct2, THEN conjunct2, THEN conjunct2, THEN conjunct1, THEN mp, OF a8]
  note c11 = t3 [THEN conjunct2, THEN conjunct2, THEN conjunct2, THEN conjunct2, THEN conjunct2, THEN conjunct2, THEN conjunct2, THEN conjunct2, THEN conjunct2, THEN conjunct2, THEN conjunct1, THEN mp, OF a11]
  note c12 = t3 [THEN conjunct2, THEN conjunct2, THEN conjunct2, THEN conjunct2, THEN conjunct2, THEN conjunct2, THEN conjunct2, THEN conjunct2, THEN conjunct2, THEN conjunct2, THEN conjunct2, THEN mp, OF a12]
  note c3 = t4 [THEN conjunct2, THEN conjunct2, THEN conjunct1, THEN mp, OF a3]
  note c9 = t4 [THEN conjunct2, THEN conjunct2, THEN conjunct2, THEN conjunct2, THEN conjunct2, THEN conjunct2, THEN conjunct2, THEN conjunct2, THEN conjunct1, THEN mp, OF a9]
  show ?thesis
    by (intro conjI c1 c7 c2 [THEN conjunct1] c2 [THEN conjunct2] c5 c6 [THEN conjunct2]
        c8 [THEN conjunct1] c8 [THEN conjunct2] c11 c12 [THEN conjunct2] c3 c9)
qed

lemma StartProcess_hv: "StartProcess \<in> set tr \<longleftrightarrow> StartProcess \<in> set (hypervisorEvents tr)"
  by (simp add: hypervisorEvents_def)

lemma no_start_waitForSocket: "StartProcess \<notin> set (fst (waitForSocket p l))"
  by (induction l) (auto split: prod.splits)

lemma no_start_configure:
  "StartProcess \<notin> set (fst rest) \<Longrightarrow> StartProcess \<notin> set (fst (configure env cs rest))"
  by (induction cs) (auto simp: orFail_def fcPut_def split: option.splits put_result.splits)

lemma no_start_awaitGuest: "StartProcess \<notin> set (fst (awaitGuest env req))"
  by (cases "select_first env")
    (auto simp: awaitGuest_def Let_def split: option.splits prod.splits)

lemma no_start_awaitAgent: "StartProcess \<notin> set (fst (awaitAgent env req))"
  by (auto simp: awaitAgent_def Let_def split: agent_result.splits)

lemma no_start_configureAndRun: "StartProcess \<notin> set (fst (configureAndRun env req))"
  using no_start_waitForSocket [of fcSocket "stat_socket env"]
    no_start_configure [where rest = "awaitGuest env req" and env = env
      and cs = "configCalls req", OF no_start_awaitGuest]
  by (auto simp: configureAndRun_configure orFail_def split: option.splits)

lemma no_start_configureAndRun_agent: "StartProcess \<notin> set (fst (configureAndRun_agent env req x))"
  using no_start_waitForSocket [of fcSocket "stat_socket env"]
    no_start_configure [where rest = "awaitAgent env req" and env = env
      and cs = "configCalls_agent req x", OF no_start_awaitAgent]
  by (cases "waitForSocket fcSocket (stat_socket env)")
    (auto simp: configureAndRun_agent_configure split: option.splits)

text \<open>
  C6: in the current handler and in the handler with the agent, on every path on which
  the hypervisor child was started (every step before it succeeded), the events that
  concern the child begin with its start and end with the force kill followed by the
  wait: whatever happens in between (socket timeout, refused configuration, boot
  failure, timeout or completion), the child is killed and reaped before the handler
  returns, and it is started only once.
\<close>

theorem child_killed_and_reaped:
  "(StartProcess \<in> set (fst (runHandler env r)) \<longrightarrow>
      (\<exists>mid. hypervisorEvents (fst (runHandler env r)) = StartProcess # mid @ [Kill, Wait]
         \<and> StartProcess \<notin> set mid))
   \<and> (StartProcess \<in> set (fst (runHandler env r)) \<longleftrightarrow> (\<exists>req m. reachesStart env r req m))
   \<and> (StartProcess \<in> set (fst (runHandler_agent env' r')) \<longrightarrow>
      (\<exists>mid. hypervisorEvents (fst (runHandler_agent env' r')) = StartProcess # mid @ [Kill, Wait]
         \<and> StartProcess \<notin> set mid))
   \<and> (StartProcess \<in> set (fst (runHandler_agent env' r'))
        \<longleftrightarrow> (\<exists>req m. reachesStart_agent env' r' req m))"
proof -
  have A: "\<exists>mid. hypervisorEvents (fst (runHandler env r)) = StartProcess # mid @ [Kill, Wait]
         \<and> StartProcess \<notin> set mid" if "reachesStart env r req m" for req m
  proof -
    have "hypervisorEvents (fst (runHandler env r))
        = StartProcess # hypervisorEvents (fst (configureAndRun env req)) @ [Kill, Wait]"
      by (simp add: runHandler_started [OF that] hv_preamble [OF that] hypervisorEvents_Cons)
    moreover have "StartProcess \<notin> set (hypervisorEvents (fst (configureAndRun env req)))"
      using no_start_configureAndRun [of env req] StartProcess_hv by blast
    ultimately show ?thesis by blast
  qed
  have A': "StartProcess \<notin> set (fst (runHandler env r))" if "\<forall>req m. \<not> reachesStart env r req m"
    using runHandler_not_started [OF that] StartProcess_hv [of "fst (runHandler env r)"] by simp
  have B: "\<exists>mid. hypervisorEvents (fst (runHandler_agent env' r')) = StartProcess # mid @ [Kill, Wait]
         \<and> StartProcess \<notin> set mid" if "reachesStart_agent env' r' req m" for req m
  proof -
    have "hypervisorEvents (fst (runHandler_agent env' r'))
        = StartProcess # hypervisorEvents (fst (configureAndRun_agent env' req (new_uuid env')))
          @ [Kill, Wait]"
      by (simp add: runHandler_agent_started [OF that] hv_preamble_agent [OF that]
          hypervisorEvents_Cons)
    moreover have "StartProcess \<notin> set (hypervisorEvents (fst (configureAndRun_agent env' req (new_uuid env'))))"
      using no_start_configureAndRun_agent [of env' req] StartProcess_hv by blast
    ultimately show ?thesis by blast
  qed
  have B': "StartProcess \<notin> set (fst (runHandler_agent env' r'))"
    if "\<forall>req m. \<not> reachesStart_agent env' r' req m"
    using runHandler_agent_not_started [OF that] StartProcess_hv [of "fst (runHandler_agent env' r')"]
    by simp
  have A'': "StartProcess \<in> set (fst (runHandler env r))" if "reachesStart env r req m" for req m
    using A [OF that] StartProcess_hv [of "fst (runHandler env r)"] by auto
  have B'': "StartProcess \<in> set (fst (runHandler_agent env' r'))"
    if "reachesStart_agent env' r' req m" for req m
    using B [OF that] StartProcess_hv [of "fst (runHandler_agent env' r')"] by auto
  show ?thesis
    using A A' A'' B B' B'' by blast
qed

theorem child_killed_and_reaped_witness:
  "(\<exists>mid. hypervisorEvents (fst (runHandler raceEnv sleepRequest)) = StartProcess # mid @ [Kill, Wait]
         \<and> StartProcess \<notin> set mid)
   \<and> (\<exists>mid. hypervisorEvents (fst (runHandler_agent ioFailEnv sleepRequest))
          = StartProcess # mid @ [Kill, Wait] \<and> StartProcess \<notin> set mid)"
proof -
  have 1: "StartProcess \<in> set (fst (runHandler raceEnv sleepRequest))"
    by code_simp
  have 2: "StartProcess \<in> set (fst (runHandler_agent ioFailEnv sleepRequest))"
    by code_simp
  note t = child_killed_and_reaped [where env = raceEnv and r = sleepRequest
      and env' = ioFailEnv and r' = sleepRequest]
  show ?thesis
    by (intro conjI t [THEN conjunct1, THEN mp, OF 1]
        t [THEN conjunct2, THEN conjunct2, THEN conjunct1, THEN mp, OF 2])
qed

section \<open>Boot arguments and file names\<close>

lemma issued_subset: "x \<in> set (issued env cs) \<Longrightarrow> x \<in> set cs"
  using issued_prefix [of env cs] by (auto dest: set_mono_prefix)

lemma putCalls_runHandler_v0:
  "putCalls (fst (runHandler_v0 env r)) = []
   \<or> (\<exists>req. Decoded r = Some req
        \<and> putCalls (fst (runHandler_v0 env r)) = issued env (configCalls_v0 req))"
proof (cases "Decoded r")
  case None
  then show ?thesis by (simp add: runHandler_v0_def)
next
  case (Some req)
  have c: "putCalls (fst (configureAndRun_v0 env req)) = []
      \<or> putCalls (fst (configureAndRun_v0 env req)) = issued env (configCalls_v0 req)"
    by (auto simp: configureAndRun_v0_configure putCalls_orFail_socket putCalls_configure
        issued_accepted)
  show ?thesis
    using Some c putCalls_startFirecracker_v0 [of env]
    by (cases "startFirecracker_v0 env"; cases "configureAndRun_v0 env req")
      (auto simp: runHandler_v0_def split: option.splits)
qed

lemma putCalls_runHandler_files_v0:
  "putCalls (fst (runHandler_files_v0 env r)) = []
   \<or> (\<exists>req. Decoded r = Some req
        \<and> putCalls (fst (runHandler_files_v0 env r)) = issued env (configCalls_files_v0 req))"
proof (cases "Decoded r")
  case None
  then show ?thesis by (simp add: runHandler_files_v0_def)
next
  case (Some req)
  have c: "putCalls (fst (configureAndRun_files_v0 env req)) = []
      \<or> putCalls (fst (configureAndRun_files_v0 env req)) = issued env (configCalls_files_v0 req)"
    by (auto simp: configureAndRun_files_v0_configure putCalls_orFail_socket putCalls_configure
        issued_accepted)
  have w: "putCalls (fst (withFirecracker_files_v0 env req)) = []
      \<or> putCalls (fst (withFirecracker_files_v0 env req)) = issued env (configCalls_files_v0 req)"
    using c putCalls_startFirecracker_v0 [of env]
    by (cases "startFirecracker_v0 env"; cases "configureAndRun_files_v0 env req")
      (auto simp: withFirecracker_files_v0_def split: option.splits)
  have s: "putCalls (fst (stageAndRun_files_v0 env req m)) = []
      \<or> putCalls (fst (stageAndRun_files_v0 env req m)) = issued env (configCalls_files_v0 req)" for m
    using w putCalls_stageFiles_v0 [of env m "m @ ''/work''" "Files req"]
    by (cases "stageFiles_v0 env m (m @ ''/work'') (Files req)"; cases "withFirecracker_files_v0 env req")
      (auto simp: stageAndRun_files_v0_def Let_def split: option.splits)
  show ?thesis
  proof (cases "os_MkdirTemp env")
    case (Inl e)
    then show ?thesis using Some by (simp add: runHandler_files_v0_def)
  next
    case (Inr m)
    then show ?thesis
      using Some s [of m]
      by (cases "stageAndRun_files_v0 env req m") (auto simp: runHandler_files_v0_def)
  qed
qed

text \<open>
  C8, as the code has it. In the current handler and in the handler with the agent, the
  boot arguments passed with the boot-source call are the fixed tokens (with
  \<open>quiet loglevel=0\<close> after \<open>console=ttyS0\<close>) followed by \<open>CMD="<embedded>"\<close>, where the
  embedded command is \<open>cd /work && \<close> followed by the caller's command exactly when the
  request has files, and the caller's command otherwise; each of the five tokens is a
  space-separated field of the string. The handler that added file injection always
  prefixes \<open>cd /work && \<close>, and the first handler never does.
\<close>

theorem boot_arguments:
  "bootArgs req
     = ''console=ttyS0 quiet loglevel=0 reboot=k panic=1 pci=off init=/sbin/init CMD=\"''
       @ cmdForGuest req @ ''\"''
   \<and> (cmdForGuest req = ''cd /work && '' @ Cmd req) = (Files req \<noteq> [])
   \<and> (cmdForGuest req = Cmd req) = (Files req = [])
   \<and> list_all (\<lambda>t. t \<in> set (Split (bootArgs req) (CHR '' '')))
        [''console=ttyS0'', ''reboot=k'', ''panic=1'', ''pci=off'', ''init=/sbin/init'']
   \<and> (Decoded r = Some req \<and> (''/boot-source'', b) \<in> set (putCalls (fst (runHandler env r))) \<longrightarrow>
        b = BootSource kernelPath (bootArgs req))
   \<and> (Decoded r = Some req \<and> (''/boot-source'', b) \<in> set (putCalls (fst (runHandler_agent env r))) \<longrightarrow>
        b = BootSource kernelPath (bootArgs req))
   \<and> (Decoded r = Some req \<and> (''/boot-source'', b) \<in> set (putCalls (fst (runHandler_files_v0 env r))) \<longrightarrow>
        b = BootSource kernelPath
              (''console=ttyS0 reboot=k panic=1 pci=off init=/sbin/init CMD=\"''
               @ ''cd /work && '' @ Cmd req @ ''\"''))
   \<and> (Decoded r = Some req \<and> (''/boot-source'', b) \<in> set (putCalls (fst (runHandler_v0 env r))) \<longrightarrow>
        b = BootSource kernelPath
              (''console=ttyS0 reboot=k panic=1 pci=off init=/sbin/init CMD=\"''
               @ Cmd req @ ''\"''))"
proof (intro conjI impI)
  show "bootArgs req
     = ''console=ttyS0 quiet loglevel=0 reboot=k panic=1 pci=off init=/sbin/init CMD=\"''
       @ cmdForGuest req @ ''\"''"
    by (simp add: bootArgs_def)
  show "(cmdForGuest req = ''cd /work && '' @ Cmd req) = (Files req \<noteq> [])"
    by (simp add: cmdForGuest_def)
  show "(cmdForGuest req = Cmd req) = (Files req = [])"
    by (simp add: cmdForGuest_def)
  show "list_all (\<lambda>t. t \<in> set (Split (bootArgs req) (CHR '' '')))
        [''console=ttyS0'', ''reboot=k'', ''panic=1'', ''pci=off'', ''init=/sbin/init'']"
    by (simp add: bootArgs_def)
next
  assume a: "Decoded r = Some req \<and> (''/boot-source'', b) \<in> set (putCalls (fst (runHandler env r)))"
  with putCalls_runHandler [of env r]
  have "(''/boot-source'', b) \<in> set (issued env (configCalls req))" by auto
  then have "(''/boot-source'', b) \<in> set (configCalls req)" by (rule issued_subset)
  then show "b = BootSource kernelPath (bootArgs req)" by (simp add: configCalls_def)
next
  assume a: "Decoded r = Some req \<and> (''/boot-source'', b) \<in> set (putCalls (fst (runHandler_agent env r)))"
  with runHandler_agent_config [of env r] obtain pre suf where
    tr: "fst (runHandler_agent env r) = pre @ fst (waitForSocket fcSocket (stat_socket env))
            @ fst (configure env (configCalls_agent req (new_uuid env)) (awaitAgent env req))
            @ Kill # Wait # suf"
    and pre: "putCalls pre = []" and suf: "putCalls suf = []"
    and sock: "snd (waitForSocket fcSocket (stat_socket env)) = None"
    by auto
  from config_shape(1) [OF tr pre sock putCalls_awaitAgent suf] a
  have "(''/boot-source'', b) \<in> set (issued env (configCalls_agent req (new_uuid env)))" by simp
  then have "(''/boot-source'', b) \<in> set (configCalls_agent req (new_uuid env))" by (rule issued_subset)
  then show "b = BootSource kernelPath (bootArgs req)" by (simp add: configCalls_agent_def)
next
  assume a: "Decoded r = Some req \<and> (''/boot-source'', b) \<in> set (putCalls (fst (runHandler_files_v0 env r)))"
  with putCalls_runHandler_files_v0 [of env r]
  have "(''/boot-source'', b) \<in> set (issued env (configCalls_files_v0 req))" by auto
  then have "(''/boot-source'', b) \<in> set (configCalls_files_v0 req)" by (rule issued_subset)
  then show "b = BootSource kernelPath
              (''console=ttyS0 reboot=k panic=1 pci=off init=/sbin/init CMD=\"''
               @ ''cd /work && '' @ Cmd req @ ''\"'')"
    by (simp add: configCalls_files_v0_def bootArgs_files_v0_def)
next
  assume a: "Decoded r = Some req \<and> (''/boot-source'', b) \<in> set (putCalls (fst (runHandler_v0 env r)))"
  with putCalls_runHandler_v0 [of env r]
  have "(''/boot-source'', b) \<in> set (issued env (configCalls_v0 req))" by auto
  then have "(''/boot-source'', b) \<in> set (configCalls_v0 req)" by (rule issued_subset)
  then show "b = BootSource kernelPath
              (''console=ttyS0 reboot=k panic=1 pci=off init=/sbin/init CMD=\"''
               @ Cmd req @ ''\"'')"
    by (simp add: configCalls_v0_def bootArgs_v0_def)
qed

text \<open>
  C8 as stated fails on two of the handlers it is drawn from: without files the
  file-injecting handler still embeds \<open>cd /work && echo hi\<close>, and with a file the first
  handler embeds the bare command.
\<close>

theorem boot_arguments_counterexample:
  "Files \<lparr>Cmd = ''echo hi'', Files = [], TimeoutMs = 2000\<rparr> = []
   \<and> (''/boot-source'',
        BootSource kernelPath
          ''console=ttyS0 reboot=k panic=1 pci=off init=/sbin/init CMD=\"cd /work && echo hi\"'')
       \<in> set (putCalls (fst (runHandler_files_v0 raceEnv echoRequest)))
   \<and> Files scriptRun \<noteq> []
   \<and> (''/boot-source'',
        BootSource kernelPath
          ''console=ttyS0 reboot=k panic=1 pci=off init=/sbin/init CMD=\"sh main.sh\"'')
       \<in> set (putCalls (fst (runHandler_v0 raceEnv scriptRequest)))"
  by code_simp

theorem boot_arguments_witness:
  "BootSource kernelPath
     ''console=ttyS0 quiet loglevel=0 reboot=k panic=1 pci=off init=/sbin/init CMD=\"cd /work && sh main.sh\"''
     = BootSource kernelPath (bootArgs scriptRun)
   \<and> BootSource kernelPath
     ''console=ttyS0 reboot=k panic=1 pci=off init=/sbin/init CMD=\"sh main.sh\"''
     = BootSource kernelPath
              (''console=ttyS0 reboot=k panic=1 pci=off init=/sbin/init CMD=\"''
               @ Cmd scriptRun @ ''\"'')"
proof -
  have 1: "Decoded scriptRequest = Some scriptRun
    \<and> (''/boot-source'', BootSource kernelPath
     ''console=ttyS0 quiet loglevel=0 reboot=k panic=1 pci=off init=/sbin/init CMD=\"cd /work && sh main.sh\"'')
       \<in> set (putCalls (fst (runHandler raceEnv scriptRequest)))"
    by code_simp
  have 2: "Decoded scriptRequest = Some scriptRun
    \<and> (''/boot-source'', BootSource kernelPath
     ''console=ttyS0 reboot=k panic=1 pci=off init=/sbin/init CMD=\"sh main.sh\"'')
       \<in> set (putCalls (fst (runHandler_v0 raceEnv scriptRequest)))"
    by code_simp
  note t1 = boot_arguments [where r = scriptRequest and req = scriptRun and env = raceEnv
      and b = "BootSource kernelPath
     ''console=ttyS0 quiet loglevel=0 reboot=k panic=1 pci=off init=/sbin/init CMD=\"cd /work && sh main.sh\"''"]
  note t2 = boot_arguments [where r = scriptRequest and req = scriptRun and env = raceEnv
      and b = "BootSource kernelPath
     ''console=ttyS0 reboot=k panic=1 pci=off init=/sbin/init CMD=\"sh main.sh\"''"]
  show ?thesis
    by (intro conjI
        t1 [THEN conjunct2, THEN conjunct2, THEN conjunct2, THEN conjunct2, THEN conjunct1,
          THEN mp, OF 1]
        t2 [THEN conjunct2, THEN conjunct2, THEN conjunct2, THEN conjunct2, THEN conjunct2,
          THEN conjunct2, THEN conjunct2, THEN mp, OF 2])
qed

lemma rejectedName_resolve: "rejectedName name \<Longrightarrow> \<exists>e. resolveWorkPath w name = Inl e"
  by (auto simp: rejectedName_def resolveWorkPath_def Let_def)

lemma stageFiles_rejected:
  "(name, content) \<in> set files \<Longrightarrow> rejectedName name \<Longrightarrow>
   snd (stageFiles env m w files) \<noteq> None"
proof (induction files)
  case Nil
  then show ?case by simp
next
  case (Cons f files)
  obtain n c where f: "f = (n, c)" by (cases f)
  show ?case
  proof (cases "(name, content) = (n, c)")
    case True
    with rejectedName_resolve [OF Cons.prems(2), of w] f show ?thesis by auto
  next
    case False
    with Cons f have "snd (stageFiles env m w files) \<noteq> None" by auto
    then show ?thesis
      using f by (auto split: sum.splits option.splits prod.splits)
  qed
qed

lemma stageFiles_rejected_400:
  assumes "(name, content) \<in> set files" and "rejectedName name"
    and "\<forall>p c. os_WriteFile env p c = None" and "\<forall>p. os_Chmod env p = None"
  shows "\<exists>msg. snd (stageFiles env m w files) = Some (msg, 400)"
  using assms(1)
proof (induction files)
  case Nil
  then show ?case by simp
next
  case (Cons f files)
  obtain n c where f: "f = (n, c)" by (cases f)
  show ?case
  proof (cases "resolveWorkPath w n")
    case (Inl e)
    then show ?thesis using f by simp
  next
    case (Inr t)
    with rejectedName_resolve [OF assms(2), of w] have "name \<noteq> n" by auto
    with Cons f obtain msg where "snd (stageFiles env m w files) = Some (msg, 400)" by auto
    then show ?thesis
      using f Inr assms(3,4) by (auto split: prod.splits)
  qed
qed

lemma stageFiles_append:
  "snd (stageFiles env m w before) = None \<Longrightarrow>
   stageFiles env m w (before @ rest)
     = (fst (stageFiles env m w before) @ fst (stageFiles env m w rest),
        snd (stageFiles env m w rest))"
proof (induction before)
  case Nil
  then show ?case by simp
next
  case (Cons f before)
  obtain n c where f: "f = (n, c)" by (cases f)
  from Cons.prems f have "snd (stageFiles env m w before) = None"
    by (auto split: sum.splits option.splits prod.splits if_splits)
  with Cons.IH have "stageFiles env m w (before @ rest)
     = (fst (stageFiles env m w before) @ fst (stageFiles env m w rest),
        snd (stageFiles env m w rest))"
    by simp
  then show ?case
    using Cons.prems f
    by (auto split: sum.splits option.splits prod.splits if_splits)
qed

lemma stageFiles_first_rejected:
  assumes "snd (stageFiles env m w before) = None" and "rejectedName name"
  shows "\<exists>msg. snd (stageFiles env m w (before @ (name, content) # rest)) = Some (msg, 400)"
proof -
  from rejectedName_resolve [OF assms(2), of w] obtain e where "resolveWorkPath w name = Inl e" ..
  then have "snd (stageFiles env m w ((name, content) # rest)) = Some (e, 400)" by simp
  then show ?thesis by (simp add: stageFiles_append [OF assms(1)])
qed

lemma runHandler_staging_fails:
  assumes "Method r = ''POST'' \<and> Decoded r = Some req \<and> Cmd req \<noteq> [] \<and> os_MkdirTemp env = Inr m \<and> mount_loop env m = None \<and> os_MkdirAll env (m @ ''/work'') = None"
    and "snd (stageFiles env m (m @ ''/work'') (Files req)) = Some (msg, code)"
  shows "Status (snd (runHandler env r)) = code"
  using assms by (simp add: runHandler_alt stageAndRun_alt httpError_def)

lemma runHandler_agent_staging_fails:
  assumes "Method r = ''POST'' \<and> Decoded r = Some req \<and> Cmd req \<noteq> [] \<and> snd (startUDSListener env (new_uuid env)) = None \<and> snd (createAgentDriveImage env (new_uuid env)) = None \<and> net_Listen env (filepath_Join (agentMountOf (new_uuid env)) ''agent.sock'') = None \<and> os_MkdirTemp env = Inr m \<and> mount_loop env m = None \<and> os_MkdirAll env (m @ ''/work'') = None"
    and "snd (stageFiles env m (m @ ''/work'') (Files req)) = Some (msg, code)"
  shows "Status (snd (runHandler_agent env r)) = code"
  using assms
  by (simp add: runHandler_agent_alt withListener_agent_alt stageAndRun_agent_alt httpError_def)

text \<open>
  C3, as the code has it. In the current handler and in the handler with the agent, a
  request with a file name that is empty, absolute, or whose cleaned form is \<open>.\<close>,
  \<open>..\<close> or begins with \<open>../\<close> never starts the hypervisor and is never answered 200:
  the answer is 400, 405 or 500. In both handlers it is 400 when the request is a POST
  with a command, every step before the loop over the files succeeds (temp dir, mount of
  the rootfs, work directory; with the agent also the listener, the agent image and the
  socket in its mount) and the loop reaches the name, that is, every file visited before
  it was staged without error; in particular when no write and no chmod fails. Names that
  only contain \<open>..\<close> as an inner component and stay inside the work directory after
  cleaning are accepted.
\<close>

theorem unsafe_names_rejected:
  "(Decoded r = Some req \<and> (name, content) \<in> set (Files req) \<and> rejectedName name \<longrightarrow>
      StartProcess \<notin> set (fst (runHandler env r))
      \<and> Status (snd (runHandler env r)) \<in> {400, 405, 500}
      \<and> StartProcess \<notin> set (fst (runHandler_agent env r))
      \<and> Status (snd (runHandler_agent env r)) \<in> {400, 405, 500})
   \<and> (Method r = ''POST'' \<and> Decoded r = Some req \<and> Cmd req \<noteq> []
       \<and> os_MkdirTemp env = Inr m \<and> mount_loop env m = None
       \<and> os_MkdirAll env (m @ ''/work'') = None
       \<and> Files req = before @ (name, content) # rest
       \<and> snd (stageFiles env m (m @ ''/work'') before) = None \<and> rejectedName name \<longrightarrow>
      Status (snd (runHandler env r)) = 400)
   \<and> (Method r = ''POST'' \<and> Decoded r = Some req \<and> Cmd req \<noteq> []
       \<and> snd (startUDSListener env (new_uuid env)) = None
       \<and> snd (createAgentDriveImage env (new_uuid env)) = None
       \<and> net_Listen env (filepath_Join (agentMountOf (new_uuid env)) ''agent.sock'') = None
       \<and> os_MkdirTemp env = Inr m \<and> mount_loop env m = None
       \<and> os_MkdirAll env (m @ ''/work'') = None
       \<and> Files req = before @ (name, content) # rest
       \<and> snd (stageFiles env m (m @ ''/work'') before) = None \<and> rejectedName name \<longrightarrow>
      Status (snd (runHandler_agent env r)) = 400)
   \<and> (Method r = ''POST'' \<and> Decoded r = Some req \<and> Cmd req \<noteq> []
       \<and> os_MkdirTemp env = Inr m \<and> mount_loop env m = None
       \<and> os_MkdirAll env (m @ ''/work'') = None
       \<and> (name, content) \<in> set (Files req) \<and> rejectedName name
       \<and> (\<forall>p c. os_WriteFile env p c = None) \<and> (\<forall>p. os_Chmod env p = None) \<longrightarrow>
      Status (snd (runHandler env r)) = 400)
   \<and> (Method r = ''POST'' \<and> Decoded r = Some req \<and> Cmd req \<noteq> []
       \<and> snd (startUDSListener env (new_uuid env)) = None
       \<and> snd (createAgentDriveImage env (new_uuid env)) = None
       \<and> net_Listen env (filepath_Join (agentMountOf (new_uuid env)) ''agent.sock'') = None
       \<and> os_MkdirTemp env = Inr m \<and> mount_loop env m = None
       \<and> os_MkdirAll env (m @ ''/work'') = None
       \<and> (name, content) \<in> set (Files req) \<and> rejectedName name
       \<and> (\<forall>p c. os_WriteFile env p c = None) \<and> (\<forall>p. os_Chmod env p = None) \<longrightarrow>
      Status (snd (runHandler_agent env r)) = 400)
   \<and> (name' = [] \<or> filepath_IsAbs name' \<or> filepath_Clean name' = ''..''
       \<or> HasPrefix (filepath_Clean name') ''../'' \<longrightarrow> rejectedName name')"
proof (intro conjI impI)
  assume a: "Decoded r = Some req \<and> (name, content) \<in> set (Files req) \<and> rejectedName name"
  then have s: "snd (stageFiles env m' w (Files req)) \<noteq> None" for m' w
    using stageFiles_rejected [of name content "Files req" env m' w] by blast
  have "\<forall>req' m'. \<not> reachesStart env r req' m'"
    using a s by (auto simp: reachesStart_def)
  from runHandler_not_started [OF this]
  show "StartProcess \<notin> set (fst (runHandler env r))"
    and "Status (snd (runHandler env r)) \<in> {400, 405, 500}"
    using StartProcess_hv [of "fst (runHandler env r)"] by auto
  have "\<forall>req' m'. \<not> reachesStart_agent env r req' m'"
    using a s by (auto simp: reachesStart_agent_def)
  from runHandler_agent_not_started [OF this]
  show "StartProcess \<notin> set (fst (runHandler_agent env r))"
    and "Status (snd (runHandler_agent env r)) \<in> {400, 405, 500}"
    using StartProcess_hv [of "fst (runHandler_agent env r)"] by auto
next
  assume a: "Method r = ''POST'' \<and> Decoded r = Some req \<and> Cmd req \<noteq> []
       \<and> os_MkdirTemp env = Inr m \<and> mount_loop env m = None
       \<and> os_MkdirAll env (m @ ''/work'') = None
       \<and> Files req = before @ (name, content) # rest
       \<and> snd (stageFiles env m (m @ ''/work'') before) = None \<and> rejectedName name"
  then obtain msg where "snd (stageFiles env m (m @ ''/work'') (Files req)) = Some (msg, 400)"
    using stageFiles_first_rejected [of env m "m @ ''/work''" before name content rest] by auto
  with a show "Status (snd (runHandler env r)) = 400"
    by (intro runHandler_staging_fails [where m = m and msg = msg and req = req]) simp_all
next
  assume a: "Method r = ''POST'' \<and> Decoded r = Some req \<and> Cmd req \<noteq> []
       \<and> snd (startUDSListener env (new_uuid env)) = None
       \<and> snd (createAgentDriveImage env (new_uuid env)) = None
       \<and> net_Listen env (filepath_Join (agentMountOf (new_uuid env)) ''agent.sock'') = None
       \<and> os_MkdirTemp env = Inr m \<and> mount_loop env m = None
       \<and> os_MkdirAll env (m @ ''/work'') = None
       \<and> Files req = before @ (name, content) # rest
       \<and> snd (stageFiles env m (m @ ''/work'') before) = None \<and> rejectedName name"
  then obtain msg where "snd (stageFiles env m (m @ ''/work'') (Files req)) = Some (msg, 400)"
    using stageFiles_first_rejected [of env m "m @ ''/work''" before name content rest] by auto
  with a show "Status (snd (runHandler_agent env r)) = 400"
    by (intro runHandler_agent_staging_fails [where m = m and msg = msg and req = req]) simp_all
next
  assume a: "Method r = ''POST'' \<and> Decoded r = Some req \<and> Cmd req \<noteq> []
       \<and> os_MkdirTemp env = Inr m \<and> mount_loop env m = None
       \<and> os_MkdirAll env (m @ ''/work'') = None
       \<and> (name, content) \<in> set (Files req) \<and> rejectedName name
       \<and> (\<forall>p c. os_WriteFile env p c = None) \<and> (\<forall>p. os_Chmod env p = None)"
  then obtain msg where "snd (stageFiles env m (m @ ''/work'') (Files req)) = Some (msg, 400)"
    using stageFiles_rejected_400 [of name content "Files req" env m "m @ ''/work''"] by auto
  with a show "Status (snd (runHandler env r)) = 400"
    by (intro runHandler_staging_fails [where m = m and msg = msg and req = req]) simp_all
next
  assume a: "Method r = ''POST'' \<and> Decoded r = Some req \<and> Cmd req \<noteq> []
       \<and> snd (startUDSListener env (new_uuid env)) = None
       \<and> snd (createAgentDriveImage env (new_uuid env)) = None
       \<and> net_Listen env (filepath_Join (agentMountOf (new_uuid env)) ''agent.sock'') = None
       \<and> os_MkdirTemp env = Inr m \<and> mount_loop env m = None
       \<and> os_MkdirAll env (m @ ''/work'') = None
       \<and> (name, content) \<in> set (Files req) \<and> rejectedName name
       \<and> (\<forall>p c. os_WriteFile env p c = None) \<and> (\<forall>p. os_Chmod env p = None)"
  then obtain msg where "snd (stageFiles env m (m @ ''/work'') (Files req)) = Some (msg, 400)"
    using stageFiles_rejected_400 [of name content "Files req" env m "m @ ''/work''"] by auto
  with a show "Status (snd (runHandler_agent env r)) = 400"
    by (intro runHandler_agent_staging_fails [where m = m and msg = msg and req = req]) simp_all
next
  assume "name' = [] \<or> filepath_IsAbs name' \<or> filepath_Clean name' = ''..''
       \<or> HasPrefix (filepath_Clean name') ''../''"
  then show "rejectedName name'"
    by (auto simp: rejectedName_def Separator_def)
qed

text \<open>
  C3 as stated fails: \<open>a/../b\<close> has the component \<open>..\<close>, and the current handler writes
  \<open>work/b\<close>, starts the hypervisor and answers 200; the handler that added file injection
  validates nothing and writes \<open>work/../escaped\<close>; and an absolute name is answered 500,
  not 400, when mounting the rootfs fails before the names are looked at.
\<close>

theorem unsafe_names_rejected_counterexample:
  "''..'' \<in> set (Split ''a/../b'' Separator)
   \<and> Status (snd (runHandler completingEnv (fileRequest ''a/../b''))) = 200
   \<and> StartProcess \<in> set (fst (runHandler completingEnv (fileRequest ''a/../b'')))
   \<and> WriteFile ''/tmp/rootfs-mount-1/work/b'' ''x''
       \<in> set (fst (runHandler completingEnv (fileRequest ''a/../b'')))
   \<and> Status (snd (runHandler_files_v0 completingEnv (fileRequest ''../escaped''))) = 200
   \<and> StartProcess \<in> set (fst (runHandler_files_v0 completingEnv (fileRequest ''../escaped'')))
   \<and> WriteFile ''/tmp/rootfs-mount-1/work/../escaped'' ''x''
       \<in> set (fst (runHandler_files_v0 completingEnv (fileRequest ''../escaped'')))
   \<and> filepath_IsAbs ''/etc/passwd''
   \<and> Status (snd (runHandler (completingEnv\<lparr>mount_loop := (\<lambda>dir. Some ''exit status 32'')\<rparr>)
                    (fileRequest ''/etc/passwd''))) = 500"
  by code_simp

theorem unsafe_names_rejected_witness:
  "StartProcess \<notin> set (fst (runHandler completingEnv (fileRequest ''../escaped'')))
   \<and> Status (snd (runHandler completingEnv (fileRequest ''../escaped''))) \<in> {400, 405, 500}
   \<and> StartProcess \<notin> set (fst (runHandler_agent completingEnv (fileRequest ''../escaped'')))
   \<and> Status (snd (runHandler_agent completingEnv (fileRequest ''../escaped''))) \<in> {400, 405, 500}
   \<and> Status (snd (runHandler completingEnv
        mixedRequest)) = 400
   \<and> Status (snd (runHandler_agent completingEnv
        mixedRequest)) = 400
   \<and> Status (snd (runHandler completingEnv (fileRequest ''../escaped''))) = 400
   \<and> Status (snd (runHandler_agent completingEnv (fileRequest ''../escaped''))) = 400
   \<and> rejectedName ''/etc/passwd''"
proof -
  have io: "(\<forall>p c. os_WriteFile completingEnv p c = None) \<and> (\<forall>p. os_Chmod completingEnv p = None)"
    by (simp add: completingEnv_def raceEnv_def)
  have 1: "Decoded (fileRequest ''../escaped'') = Some \<lparr>Cmd = ''cat data'', Files = [(''../escaped'', ''x'')], TimeoutMs = 2000\<rparr>
      \<and> (''../escaped'', ''x'') \<in> set (Files \<lparr>Cmd = ''cat data'', Files = [(''../escaped'', ''x'')], TimeoutMs = 2000\<rparr>)
      \<and> rejectedName ''../escaped''"
    by code_simp
  have 2: "Method mixedRequest = ''POST''
      \<and> Decoded mixedRequest = Some mixedRun
      \<and> Cmd mixedRun \<noteq> []
      \<and> os_MkdirTemp completingEnv = Inr ''/tmp/rootfs-mount-1''
      \<and> mount_loop completingEnv ''/tmp/rootfs-mount-1'' = None
      \<and> os_MkdirAll completingEnv (''/tmp/rootfs-mount-1'' @ ''/work'') = None
      \<and> Files mixedRun = [(''ok.txt'', ''x'')] @ (''../escaped'', ''x'') # []
      \<and> snd (stageFiles completingEnv ''/tmp/rootfs-mount-1'' (''/tmp/rootfs-mount-1'' @ ''/work'') [(''ok.txt'', ''x'')]) = None
      \<and> rejectedName ''../escaped''"
    by code_simp
  have 3: "Method mixedRequest = ''POST''
      \<and> Decoded mixedRequest = Some mixedRun
      \<and> Cmd mixedRun \<noteq> []
      \<and> snd (startUDSListener completingEnv (new_uuid completingEnv)) = None
      \<and> snd (createAgentDriveImage completingEnv (new_uuid completingEnv)) = None
      \<and> net_Listen completingEnv
            (filepath_Join (agentMountOf (new_uuid completingEnv)) ''agent.sock'') = None
      \<and> os_MkdirTemp completingEnv = Inr ''/tmp/rootfs-mount-1''
      \<and> mount_loop completingEnv ''/tmp/rootfs-mount-1'' = None
      \<and> os_MkdirAll completingEnv (''/tmp/rootfs-mount-1'' @ ''/work'') = None
      \<and> Files mixedRun = [(''ok.txt'', ''x'')] @ (''../escaped'', ''x'') # []
      \<and> snd (stageFiles completingEnv ''/tmp/rootfs-mount-1'' (''/tmp/rootfs-mount-1'' @ ''/work'') [(''ok.txt'', ''x'')]) = None
      \<and> rejectedName ''../escaped''"
    by code_simp
  have 4: "Method (fileRequest ''../escaped'') = ''POST''
      \<and> Decoded (fileRequest ''../escaped'') = Some \<lparr>Cmd = ''cat data'', Files = [(''../escaped'', ''x'')], TimeoutMs = 2000\<rparr>
      \<and> Cmd \<lparr>Cmd = ''cat data'', Files = [(''../escaped'', ''x'')], TimeoutMs = 2000\<rparr> \<noteq> []
      \<and> os_MkdirTemp completingEnv = Inr ''/tmp/rootfs-mount-1''
      \<and> mount_loop completingEnv ''/tmp/rootfs-mount-1'' = None
      \<and> os_MkdirAll completingEnv (''/tmp/rootfs-mount-1'' @ ''/work'') = None
      \<and> (''../escaped'', ''x'') \<in> set (Files \<lparr>Cmd = ''cat data'', Files = [(''../escaped'', ''x'')], TimeoutMs = 2000\<rparr>)
      \<and> rejectedName ''../escaped''"
    by code_simp
  have 5: "Method (fileRequest ''../escaped'') = ''POST''
      \<and> Decoded (fileRequest ''../escaped'') = Some \<lparr>Cmd = ''cat data'', Files = [(''../escaped'', ''x'')], TimeoutMs = 2000\<rparr>
      \<and> Cmd \<lparr>Cmd = ''cat data'', Files = [(''../escaped'', ''x'')], TimeoutMs = 2000\<rparr> \<noteq> []
      \<and> snd (startUDSListener completingEnv (new_uuid completingEnv)) = None
      \<and> snd (createAgentDriveImage completingEnv (new_uuid completingEnv)) = None
      \<and> net_Listen completingEnv
            (filepath_Join (agentMountOf (new_uuid completingEnv)) ''agent.sock'') = None
      \<and> os_MkdirTemp completingEnv = Inr ''/tmp/rootfs-mount-1''
      \<and> mount_loop completingEnv ''/tmp/rootfs-mount-1'' = None
      \<and> os_MkdirAll completingEnv (''/tmp/rootfs-mount-1'' @ ''/work'') = None
      \<and> (''../escaped'', ''x'') \<in> set (Files \<lparr>Cmd = ''cat data'', Files = [(''../escaped'', ''x'')], TimeoutMs = 2000\<rparr>)
      \<and> rejectedName ''../escaped''"
    by code_simp
  have 40: "Method (fileRequest ''../escaped'') = ''POST''
      \<and> Decoded (fileRequest ''../escaped'') = Some \<lparr>Cmd = ''cat data'', Files = [(''../escaped'', ''x'')], TimeoutMs = 2000\<rparr>
      \<and> Cmd \<lparr>Cmd = ''cat data'', Files = [(''../escaped'', ''x'')], TimeoutMs = 2000\<rparr> \<noteq> []
      \<and> os_MkdirTemp completingEnv = Inr ''/tmp/rootfs-mount-1''
      \<and> mount_loop completingEnv ''/tmp/rootfs-mount-1'' = None
      \<and> os_MkdirAll completingEnv (''/tmp/rootfs-mount-1'' @ ''/work'') = None
      \<and> (''../escaped'', ''x'') \<in> set (Files \<lparr>Cmd = ''cat data'', Files = [(''../escaped'', ''x'')], TimeoutMs = 2000\<rparr>)
      \<and> rejectedName ''../escaped''
      \<and> (\<forall>p c. os_WriteFile completingEnv p c = None) \<and> (\<forall>p. os_Chmod completingEnv p = None)"
    using 4 io by (intro conjI) (elim conjE, assumption)+
  have 50: "Method (fileRequest ''../escaped'') = ''POST''
      \<and> Decoded (fileRequest ''../escaped'') = Some \<lparr>Cmd = ''cat data'', Files = [(''../escaped'', ''x'')], TimeoutMs = 2000\<rparr>
      \<and> Cmd \<lparr>Cmd = ''cat data'', Files = [(''../escaped'', ''x'')], TimeoutMs = 2000\<rparr> \<noteq> []
      \<and> snd (startUDSListener completingEnv (new_uuid completingEnv)) = None
      \<and> snd (createAgentDriveImage completingEnv (new_uuid completingEnv)) = None
      \<and> net_Listen completingEnv
            (filepath_Join (agentMountOf (new_uuid completingEnv)) ''agent.sock'') = None
      \<and> os_MkdirTemp completingEnv = Inr ''/tmp/rootfs-mount-1''
      \<and> mount_loop completingEnv ''/tmp/rootfs-mount-1'' = None
      \<and> os_MkdirAll completingEnv (''/tmp/rootfs-mount-1'' @ ''/work'') = None
      \<and> (''../escaped'', ''x'') \<in> set (Files \<lparr>Cmd = ''cat data'', Files = [(''../escaped'', ''x'')], TimeoutMs = 2000\<rparr>)
      \<and> rejectedName ''../escaped''
      \<and> (\<forall>p c. os_WriteFile completingEnv p c = None) \<and> (\<forall>p. os_Chmod completingEnv p = None)"
    using 5 io by (intro conjI) (elim conjE, assumption)+
  have 6: "''/etc/passwd'' = [] \<or> filepath_IsAbs ''/etc/passwd'' \<or> filepath_Clean ''/etc/passwd'' = ''..''
       \<or> HasPrefix (filepath_Clean ''/etc/passwd'') ''../''"
    by code_simp
  note t = unsafe_names_rejected [where r = "fileRequest ''../escaped''"
      and req = "\<lparr>Cmd = ''cat data'', Files = [(''../escaped'', ''x'')], TimeoutMs = 2000\<rparr>"
      and name = "''../escaped''" and content = "''x''" and env = completingEnv
      and m = "''/tmp/rootfs-mount-1''" and name' = "''/etc/passwd''"]
  note u = unsafe_names_rejected [where r = "mixedRequest"
      and req = "mixedRun"
      and name = "''../escaped''" and content = "''x''" and env = completingEnv
      and m = "''/tmp/rootfs-mount-1''" and before = "[(''ok.txt'', ''x'')]" and rest = "[]"]
  note c1 = t [THEN conjunct1, THEN mp, OF 1]
  note c2 = u [THEN conjunct2, THEN conjunct1, THEN mp, OF 2]
  note c3 = u [THEN conjunct2, THEN conjunct2, THEN conjunct1, THEN mp, OF 3]
  note c4 = t [THEN conjunct2, THEN conjunct2, THEN conjunct2, THEN conjunct1, THEN mp, OF 40]
  note c5 = t [THEN conjunct2, THEN conjunct2, THEN conjunct2, THEN conjunct2, THEN conjunct1, THEN mp, OF 50]
  note c6 = t [THEN conjunct2, THEN conjunct2, THEN conjunct2, THEN conjunct2, THEN conjunct2, THEN mp, OF 6]
  show ?thesis
    by (intro conjI c1 [THEN conjunct1] c1 [THEN conjunct2, THEN conjunct1]
        c1 [THEN conjunct2, THEN conjunct2, THEN conjunct1]
        c1 [THEN conjunct2, THEN conjunct2, THEN conjunct2] c2 c3 c4 c5 c6)
qed

lemma Split_append: "Split (a @ c # b) c = Split a c @ Split b c"
proof (induction a)
  case Nil
  then show ?case by simp
next
  case (Cons x a)
  show ?case
  proof (cases "x = c")
    case True
    then show ?thesis using Cons by simp
  next
    case False
    obtain f fs where "Split a c = f # fs"
      using Split_not_Nil [of a c] by (cases "Split a c") auto
    then show ?thesis using Cons False by simp
  qed
qed

lemma pathElems_proper: "list_all properElem (pathElems p)"
  using Split_fields_no_sep [of p Separator]
  by (auto simp: pathElems_def properElem_def list_all_iff)

lemma pathElems_append: "pathElems (a @ Separator # b) = pathElems a @ pathElems b"
  by (simp add: pathElems_def Split_append)

lemma pathElems_Nil [simp]: "pathElems [] = []"
  by (simp add: pathElems_def)

lemma pathElems_elem: "properElem e \<Longrightarrow> pathElems e = [e]"
  by (simp add: pathElems_def properElem_def Split_no_sep)

lemma pathElems_Join: "list_all properElem es \<Longrightarrow> pathElems (Join es [Separator]) = es"
proof (induction es "[Separator]" rule: Join.induct)
  case 1
  then show ?case by simp
next
  case (2 x)
  then show ?case by (simp add: pathElems_elem)
next
  case (3 x y ys)
  then show ?case by (simp add: pathElems_append pathElems_elem)
qed

lemma pathElems_rooted: "pathElems (Separator # s) = pathElems s"
  by (simp add: pathElems_def)

lemma cleanStep_proper:
  "list_all properElem out \<Longrightarrow> properElem e \<Longrightarrow> list_all properElem (cleanStep r out e)"
  by (auto simp: cleanStep_def properElem_def Separator_def list_all_iff dest: in_set_butlastD)

lemma foldl_cleanStep_proper:
  "list_all properElem out \<Longrightarrow> list_all properElem es \<Longrightarrow>
   list_all properElem (foldl (cleanStep r) out es)"
  by (induction es arbitrary: out) (auto simp: cleanStep_proper)

lemma cleanElems_proper: "list_all properElem (cleanElems r p)"
  by (simp add: cleanElems_def foldl_cleanStep_proper pathElems_proper)

text \<open>Leading \<open>..\<close> elements first, then names.\<close>

lemma cleanStep_dots:
  "''..'' \<notin> set (dropWhile (\<lambda>e. e = ''..'') out) \<Longrightarrow>
   ''..'' \<notin> set (dropWhile (\<lambda>e. e = ''..'') (cleanStep False out e))"
proof (cases "e = ''..''")
  case False
  assume a: "''..'' \<notin> set (dropWhile (\<lambda>e. e = ''..'') out)"
  have "dropWhile (\<lambda>e. e = ''..'') (out @ [e])
      = (if \<forall>x\<in>set out. x = ''..'' then [e] else dropWhile (\<lambda>e. e = ''..'') out @ [e])"
    using False by (simp add: dropWhile_append)
  then show ?thesis using a False by (auto simp: cleanStep_def)
next
  case True
  assume a: "''..'' \<notin> set (dropWhile (\<lambda>e. e = ''..'') out)"
  show ?thesis
  proof (cases "out \<noteq> [] \<and> last out \<noteq> ''..''")
    case True
    then obtain ys y where o: "out = ys @ [y]" "y \<noteq> ''..''"
      by (metis append_butlast_last_id)
    have "set (dropWhile (\<lambda>e. e = ''..'') ys) \<subseteq> set (dropWhile (\<lambda>e. e = ''..'') (ys @ [y]))"
    proof (cases "\<forall>x\<in>set ys. x = ''..''")
      case True
      then have d: "dropWhile (\<lambda>e. e = ''..'') ys = []" by (simp add: dropWhile_eq_Nil_conv)
      show ?thesis unfolding d by simp
    next
      case False
      then show ?thesis by (auto simp: dropWhile_append)
    qed
    then show ?thesis using a o \<open>e = ''..''\<close> by (auto simp: cleanStep_def)
  next
    case False
    then have "\<forall>x\<in>set out. x = ''..''"
    proof (cases "out = []")
      case True
      then show ?thesis by simp
    next
      case ne: False
      with False have l: "last out = ''..''" by simp
      show ?thesis
      proof (rule ccontr)
        assume "\<not> (\<forall>x\<in>set out. x = ''..'')"
        then have "dropWhile (\<lambda>e. e = ''..'') out \<noteq> []" by (simp add: dropWhile_eq_Nil_conv)
        then have "last (dropWhile (\<lambda>e. e = ''..'') out) \<in> set (dropWhile (\<lambda>e. e = ''..'') out)"
          by simp
        moreover have "last (dropWhile (\<lambda>e. e = ''..'') out) = last out"
          using \<open>dropWhile (\<lambda>e. e = ''..'') out \<noteq> []\<close>
          by (metis last_appendR takeWhile_dropWhile_id)
        ultimately show False using a l by simp
      qed
    qed
    then have "dropWhile (\<lambda>e. e = ''..'') (out @ [''..'']) = []"
      by (simp add: dropWhile_eq_Nil_conv)
    then show ?thesis using False \<open>e = ''..''\<close> by (auto simp: cleanStep_def)
  qed
qed

lemma foldl_cleanStep_dots:
  "''..'' \<notin> set (dropWhile (\<lambda>e. e = ''..'') out) \<Longrightarrow>
   ''..'' \<notin> set (dropWhile (\<lambda>e. e = ''..'') (foldl (cleanStep False) out es))"
  by (induction es arbitrary: out) (auto simp: cleanStep_dots)

lemma cleanElems_dots: "''..'' \<notin> set (dropWhile (\<lambda>e. e = ''..'') (cleanElems False p))"
  by (simp add: cleanElems_def foldl_cleanStep_dots)

lemma foldl_cleanStep_names:
  "''..'' \<notin> set es \<Longrightarrow> foldl (cleanStep r) out es = out @ es"
  by (induction es arbitrary: out) (auto simp: cleanStep_def)

text \<open>The cleaned form of an accepted name: names only, at least one.\<close>

lemma Join_Cons_prefix:
  "Join (x # y # ys) sep = x @ sep @ Join (y # ys) sep"
  by simp

lemma accepted_clean_elems:
  assumes ne: "name \<noteq> []" and rel: "\<not> filepath_IsAbs name"
    and c1: "filepath_Clean name \<noteq> ''.''" and c2: "filepath_Clean name \<noteq> ''..''"
    and c3: "\<not> HasPrefix (filepath_Clean name) (''..'' @ [Separator])"
  shows "cleanElems False name \<noteq> [] \<and> ''..'' \<notin> set (cleanElems False name)
    \<and> filepath_Clean name = Join (cleanElems False name) [Separator]"
proof -
  let ?E = "cleanElems False name"
  have hd: "hd name \<noteq> Separator"
    using ne rel by (cases name) (auto simp: filepath_IsAbs_def HasPrefix_def)
  have cl: "filepath_Clean name = (if ?E = [] then ''.'' else Join ?E [Separator])"
    using ne hd by (simp add: filepath_Clean_def)
  with c1 have E: "?E \<noteq> []" and j: "filepath_Clean name = Join ?E [Separator]"
    by (auto split: if_splits)
  have first: "hd ?E \<noteq> ''..''"
  proof
    assume h: "hd ?E = ''..''"
    show False
    proof (cases ?E)
      case Nil
      with E show ?thesis by simp
    next
      case (Cons x xs)
      with h have x: "x = ''..''" by simp
      show ?thesis
      proof (cases xs)
        case Nil
        with Cons x j c2 show ?thesis by simp
      next
        case (Cons y ys)
        with \<open>?E = x # xs\<close> x j have "filepath_Clean name = ''..'' @ [Separator] @ Join (y # ys) [Separator]"
          by simp
        with c3 show ?thesis by (simp add: HasPrefix_def)
      qed
    qed
  qed
  have "dropWhile (\<lambda>e. e = ''..'') ?E = ?E"
    using E first by (cases ?E) auto
  with cleanElems_dots [of name] have "''..'' \<notin> set ?E" by simp
  with E j show ?thesis by simp
qed

lemma Join_hd:
  "es \<noteq> [] \<Longrightarrow> list_all properElem es \<Longrightarrow> Join es [Separator] \<noteq> [] \<and> hd (Join es [Separator]) \<noteq> Separator"
proof (induction es "[Separator]" rule: Join.induct)
  case 1
  then show ?case by simp
next
  case (2 x)
  then show ?case by (cases x) (auto simp: properElem_def)
next
  case (3 x y ys)
  then show ?case by (cases x) (auto simp: properElem_def)
qed

lemma accepted_target:
  assumes ne: "name \<noteq> []" and rel: "\<not> filepath_IsAbs name"
    and c1: "filepath_Clean name \<noteq> ''.''" and c2: "filepath_Clean name \<noteq> ''..''"
    and c3: "\<not> HasPrefix (filepath_Clean name) (''..'' @ [Separator])"
  shows "liesUnder workDir (filepath_Join workDir (filepath_Clean name))"
proof -
  let ?E = "cleanElems False name"
  let ?r = "filepath_IsAbs workDir"
  let ?R = "cleanElems ?r workDir"
  from accepted_clean_elems [OF assms] have E: "?E \<noteq> []" and nd: "''..'' \<notin> set ?E"
    and j: "filepath_Clean name = Join ?E [Separator]"
    by auto
  have pE: "list_all properElem ?E" by (rule cleanElems_proper)
  have pR: "list_all properElem ?R" by (rule cleanElems_proper)
  have pRE: "list_all properElem (?R @ ?E)" using pE pR by simp
  have elemsE: "pathElems (Join ?E [Separator]) = ?E" using pE by (rule pathElems_Join)
  have jn: "Join ?E [Separator] \<noteq> [] \<and> hd (Join ?E [Separator]) \<noteq> Separator"
    using E pE by (rule Join_hd)
  have jRE: "Join (?R @ ?E) [Separator] \<noteq> [] \<and> hd (Join (?R @ ?E) [Separator]) \<noteq> Separator"
    using E pRE by (intro Join_hd) auto
  show ?thesis
  proof (cases "workDir = []")
    case True
    have "cleanElems False (Join ?E [Separator])
        = foldl (cleanStep False) [] (pathElems (Join ?E [Separator]))"
      by (simp only: cleanElems_def)
    also have "\<dots> = foldl (cleanStep False) [] ?E" by (simp only: elemsE)
    also have "\<dots> = ?E" using foldl_cleanStep_names [OF nd, of False "[]"] by simp
    finally have "cleanElems False (Join ?E [Separator]) = ?E" .
    then have t: "filepath_Join workDir (filepath_Clean name) = Join ?E [Separator]"
      using True j jn E by (simp add: filepath_Join_def filepath_Clean_def)
    have "\<not> filepath_IsAbs (Join ?E [Separator])"
      using jn by (cases "Join ?E [Separator]") (auto simp: filepath_IsAbs_def HasPrefix_def)
    then show ?thesis
      using True t elemsE E nd
      by (simp add: liesUnder_def Let_def filepath_IsAbs_def HasPrefix_def cleanElems_def)
  next
    case False
    let ?p = "workDir @ Separator # Join ?E [Separator]"
    have r: "(hd workDir = Separator) = ?r"
      using False by (cases workDir) (auto simp: filepath_IsAbs_def HasPrefix_def)
    have ce: "cleanElems b ?p = cleanElems b workDir @ ?E" for b
    proof -
      have "cleanElems b ?p = foldl (cleanStep b) [] (pathElems ?p)"
        by (simp only: cleanElems_def)
      also have "pathElems ?p = pathElems workDir @ ?E"
        using pathElems_append [of workDir "Join ?E [Separator]"] by (simp only: elemsE)
      also have "foldl (cleanStep b) [] (pathElems workDir @ ?E)
          = foldl (cleanStep b) (foldl (cleanStep b) [] (pathElems workDir)) ?E"
        by (simp only: foldl_append)
      also have "\<dots> = foldl (cleanStep b) [] (pathElems workDir) @ ?E"
        using nd by (rule foldl_cleanStep_names)
      also have "foldl (cleanStep b) [] (pathElems workDir) = cleanElems b workDir"
        by (simp only: cleanElems_def)
      finally show ?thesis .
    qed
    have t0: "filepath_Join workDir (Join ?E [Separator]) = filepath_Clean ?p"
      using False by (simp add: filepath_Join_def)
    have t1: "filepath_Clean ?p
        = (if ?r then Separator # Join (?R @ ?E) [Separator] else Join (?R @ ?E) [Separator])"
      using False r E by (simp add: filepath_Clean_def ce)
    have t: "filepath_Join workDir (filepath_Clean name)
        = (if ?r then Separator # Join (?R @ ?E) [Separator] else Join (?R @ ?E) [Separator])"
      using t0 t1 by (simp only: j)
    have abs: "filepath_IsAbs (filepath_Join workDir (filepath_Clean name)) = ?r"
      using t jRE
      by (cases "Join (?R @ ?E) [Separator]") (auto simp: filepath_IsAbs_def HasPrefix_def)
    have el: "pathElems (filepath_Join workDir (filepath_Clean name)) = ?R @ ?E"
      using t pRE by (auto simp: pathElems_rooted pathElems_Join)
    show ?thesis
      using abs el E nd by (simp add: liesUnder_def Let_def)
  qed
qed

lemma resolveWorkPath_error_iff:
  "isl (resolveWorkPath workDir name) \<longleftrightarrow>
     (name = [] \<or> filepath_IsAbs name \<or> filepath_Clean name = ''.''
      \<or> filepath_Clean name = ''..''
      \<or> HasPrefix (filepath_Clean name) (''..'' @ [Separator])
      \<or> relEscapes workDir (filepath_Join workDir (filepath_Clean name)))"
  by (auto simp: resolveWorkPath_def relEscapes_def Let_def split: option.splits)

lemma resolveWorkPath_accepted:
  assumes "resolveWorkPath workDir name = Inr target"
  shows "liesUnder workDir target"
proof -
  from assms have "name \<noteq> []" "\<not> filepath_IsAbs name" "filepath_Clean name \<noteq> ''.''"
    "filepath_Clean name \<noteq> ''..''" "\<not> HasPrefix (filepath_Clean name) (''..'' @ [Separator])"
    and t: "target = filepath_Join workDir (filepath_Clean name)"
    by (auto simp: resolveWorkPath_def Let_def split: if_splits option.splits)
  then show ?thesis
    using accepted_target [of name workDir] by simp
qed

text \<open>
  C2. \<open>resolveWorkPath\<close> returns an error exactly when the name is empty, is absolute, has
  a cleaned form equal to \<open>.\<close> or \<open>..\<close> or beginning with \<open>..\<close> and the separator, or when
  the relative form of its join with the work directory escapes the work directory. A
  target it returns lies under the work directory. When the staging loop of the current
  handler reaches a name that the validator refuses, the handler unmounts and removes the
  mount directory and answers HTTP 400 with the validator's message; nothing is written for
  that name and no hypervisor is started.
\<close>

theorem path_validation:
  "(isl (resolveWorkPath workDir name) \<longleftrightarrow>
      (name = [] \<or> filepath_IsAbs name \<or> filepath_Clean name = ''.''
       \<or> filepath_Clean name = ''..''
       \<or> HasPrefix (filepath_Clean name) (''..'' @ [Separator])
       \<or> relEscapes workDir (filepath_Join workDir (filepath_Clean name))))
   \<and> (resolveWorkPath workDir name = Inr target \<longrightarrow> liesUnder workDir target)
   \<and> (Method r = ''POST'' \<and> Decoded r = Some req \<and> Cmd req \<noteq> []
       \<and> os_MkdirTemp env = Inr m \<and> mount_loop env m = None
       \<and> os_MkdirAll env (m @ ''/work'') = None
       \<and> Files req = before @ (name', content) # rest
       \<and> snd (stageFiles env m (m @ ''/work'') before) = None
       \<and> resolveWorkPath (m @ ''/work'') name' = Inl err \<longrightarrow>
      runHandler env r =
        (MkdirTemp # Mount rootfsPath m # MkdirAll (m @ ''/work'')
         # fst (stageFiles env m (m @ ''/work'') before) @ [Umount m, RemoveAll m],
         httpError err 400))"
proof (intro conjI impI)
  show "isl (resolveWorkPath workDir name) \<longleftrightarrow>
      (name = [] \<or> filepath_IsAbs name \<or> filepath_Clean name = ''.''
       \<or> filepath_Clean name = ''..''
       \<or> HasPrefix (filepath_Clean name) (''..'' @ [Separator])
       \<or> relEscapes workDir (filepath_Join workDir (filepath_Clean name)))"
    by (rule resolveWorkPath_error_iff)
  show "liesUnder workDir target" if "resolveWorkPath workDir name = Inr target"
    using that by (rule resolveWorkPath_accepted)
next
  assume a: "Method r = ''POST'' \<and> Decoded r = Some req \<and> Cmd req \<noteq> []
       \<and> os_MkdirTemp env = Inr m \<and> mount_loop env m = None
       \<and> os_MkdirAll env (m @ ''/work'') = None
       \<and> Files req = before @ (name', content) # rest
       \<and> snd (stageFiles env m (m @ ''/work'') before) = None
       \<and> resolveWorkPath (m @ ''/work'') name' = Inl err"
  then have "stageFiles env m (m @ ''/work'') (Files req)
      = (fst (stageFiles env m (m @ ''/work'') before) @ [Umount m], Some (err, 400))"
    by (simp add: stageFiles_append)
  then show "runHandler env r =
        (MkdirTemp # Mount rootfsPath m # MkdirAll (m @ ''/work'')
         # fst (stageFiles env m (m @ ''/work'') before) @ [Umount m, RemoveAll m],
         httpError err 400)"
    using a by (simp add: runHandler_alt stageAndRun_alt)
qed

theorem path_validation_witness:
  "liesUnder ''/tmp/rootfs-mount-1/work'' ''/tmp/rootfs-mount-1/work/b''
   \<and> runHandler completingEnv (fileRequest ''../escaped'') =
        (MkdirTemp # Mount rootfsPath ''/tmp/rootfs-mount-1''
         # MkdirAll (''/tmp/rootfs-mount-1'' @ ''/work'')
         # fst (stageFiles completingEnv ''/tmp/rootfs-mount-1'' (''/tmp/rootfs-mount-1'' @ ''/work'') [])
         @ [Umount ''/tmp/rootfs-mount-1'', RemoveAll ''/tmp/rootfs-mount-1''],
         httpError ''path traversal is not allowed'' 400)"
proof -
  have 1: "resolveWorkPath ''/tmp/rootfs-mount-1/work'' ''a/../b'' = Inr ''/tmp/rootfs-mount-1/work/b''"
    by code_simp
  have 2: "Method (fileRequest ''../escaped'') = ''POST''
       \<and> Decoded (fileRequest ''../escaped'')
           = Some \<lparr>Cmd = ''cat data'', Files = [(''../escaped'', ''x'')], TimeoutMs = 2000\<rparr>
       \<and> Cmd \<lparr>Cmd = ''cat data'', Files = [(''../escaped'', ''x'')], TimeoutMs = 2000\<rparr> \<noteq> []
       \<and> os_MkdirTemp completingEnv = Inr ''/tmp/rootfs-mount-1''
       \<and> mount_loop completingEnv ''/tmp/rootfs-mount-1'' = None
       \<and> os_MkdirAll completingEnv (''/tmp/rootfs-mount-1'' @ ''/work'') = None
       \<and> Files \<lparr>Cmd = ''cat data'', Files = [(''../escaped'', ''x'')], TimeoutMs = 2000\<rparr>
           = [] @ (''../escaped'', ''x'') # []
       \<and> snd (stageFiles completingEnv ''/tmp/rootfs-mount-1'' (''/tmp/rootfs-mount-1'' @ ''/work'') [])
           = None
       \<and> resolveWorkPath (''/tmp/rootfs-mount-1'' @ ''/work'') ''../escaped''
           = Inl ''path traversal is not allowed''"
    by code_simp
  note t = path_validation [where workDir = "''/tmp/rootfs-mount-1/work''" and name = "''a/../b''"
      and target = "''/tmp/rootfs-mount-1/work/b''" and r = "fileRequest ''../escaped''"
      and req = "\<lparr>Cmd = ''cat data'', Files = [(''../escaped'', ''x'')], TimeoutMs = 2000\<rparr>"
      and env = completingEnv and m = "''/tmp/rootfs-mount-1''" and before = "[]"
      and name' = "''../escaped''" and content = "''x''" and rest = "[]"
      and err = "''path traversal is not allowed''"]
  show ?thesis
    by (intro conjI t [THEN conjunct2, THEN conjunct1, THEN mp, OF 1]
        t [THEN conjunct2, THEN conjunct2, THEN mp, OF 2])
qed

end
